(* ===== verification/Prelude.thy ===== *)
theory Prelude
  imports Main "HOL-Library.Sublist" "HOL-Library.AList" "HOL-Library.Monad_Syntax"
begin

text \<open>
  What every component shares: the outcome of a Go computation, the error results, byte
  strings and the operations of the packages \<open>strings\<close> and \<open>fmt\<close> the sources call, slices,
  Go maps as association lists, and the bounded logs that two components keep.

  A Go \<open>string\<close> is a sequence of bytes, and so is an Isabelle \<open>string\<close> (a list of 8-bit
  characters): the model uses the one for the other, and a character beyond ASCII is its
  UTF-8 bytes.
\<close>

named_theorems outcome_simps \<open>equations of the outcome combinators\<close>
named_theorems string_facts \<open>facts about byte strings\<close>

section \<open>Outcomes and error results\<close>

text \<open>
  A Go call returns or panics. A result pair \<open>(value, error)\<close> of which the sources use one
  half only is a sum with the error on the left; the error is its text.
\<close>

datatype 'a outcome = Ret 'a | Panic string

type_synonym goerr = string

type_synonym 'a res = "goerr + 'a"

definition obind :: "'a outcome \<Rightarrow> ('a \<Rightarrow> 'b outcome) \<Rightarrow> 'b outcome" where
  "obind m f = (case m of Ret x \<Rightarrow> f x | Panic p \<Rightarrow> Panic p)"

lemma obind_simps [simp, outcome_simps]:
  "obind (Ret x) f = f x"
  "obind (Panic p) f = Panic p"
  by (simp_all add: obind_def)

lemma obind_eq_Ret [outcome_simps]: "obind m f = Ret y \<longleftrightarrow> (\<exists>x. m = Ret x \<and> f x = Ret y)"
  by (cases m) auto

lemma obind_eq_Panic [outcome_simps]:
  "obind m f = Panic p \<longleftrightarrow> m = Panic p \<or> (\<exists>x. m = Ret x \<and> f x = Panic p)"
  by (cases m) auto

section \<open>Strings: package strings\<close>

text \<open>\<open>strings.Contains\<close>: the pattern occurs at some position.\<close>

fun contains :: "'a list \<Rightarrow> 'a list \<Rightarrow> bool" where
  "contains [] p = (p = [])"
| "contains (c # s) p = (prefix p (c # s) \<or> contains s p)"

lemma contains_sublist: "contains s p \<longleftrightarrow> sublist p s"
  by (induction s) (auto simp: sublist_Cons_right)

lemma contains_iff [string_facts]: "contains s p \<longleftrightarrow> (\<exists>u v. s = u @ p @ v)"
  by (simp add: contains_sublist sublist_def)

lemma contains_Nil [simp]: "contains s []"
  by (simp add: contains_sublist)

lemma contains_refl [simp]: "contains s s"
  by (simp add: contains_sublist)

lemma contains_appendI1: "contains s p \<Longrightarrow> contains (s @ t) p"
  unfolding contains_iff by force

lemma contains_appendI2: "contains t p \<Longrightarrow> contains (s @ t) p"
  unfolding contains_iff by (metis append.assoc)

lemmas contains_append [string_facts] = contains_appendI1 contains_appendI2

lemma contains_trans: "contains s p \<Longrightarrow> contains p q \<Longrightarrow> contains s q"
  by (meson contains_sublist sublist_order.order_trans)

text \<open>\<open>strings.HasPrefix\<close> is the library's \<open>prefix\<close> with the arguments swapped.\<close>

abbreviation has_prefix :: "'a list \<Rightarrow> 'a list \<Rightarrow> bool" where
  "has_prefix s p \<equiv> prefix p s"

definition trim_prefix :: "'a list \<Rightarrow> 'a list \<Rightarrow> 'a list" where
  "trim_prefix s p = (if has_prefix s p then drop (length p) s else s)"

lemma trim_prefix_append [simp]: "trim_prefix (p @ s) p = s"
  by (simp add: trim_prefix_def)

text \<open>
  The sources test a message against a list of patterns with a \<open>for\<close> loop that returns at
  the first hit: \<open>first_hit\<close> is the pattern the loop stops at.
\<close>

definition contains_any :: "'a list \<Rightarrow> 'a list list \<Rightarrow> bool" where
  "contains_any s ps = list_ex (contains s) ps"

definition first_hit :: "'a list \<Rightarrow> 'a list list \<Rightarrow> 'a list option" where
  "first_hit s ps = List.find (contains s) ps"

lemma contains_any_iff: "contains_any s ps \<longleftrightarrow> (\<exists>p \<in> set ps. contains s p)"
  by (simp add: contains_any_def list_ex_iff)

lemma contains_anyI: "p \<in> set ps \<Longrightarrow> contains s p \<Longrightarrow> contains_any s ps"
  by (auto simp: contains_any_iff)

lemma first_hit_None: "first_hit s ps = None \<longleftrightarrow> \<not> contains_any s ps"
  by (auto simp: first_hit_def find_None_iff contains_any_iff)

lemma first_hit_Some:
  "first_hit s ps = Some p \<Longrightarrow> p \<in> set ps \<and> contains s p"
  by (auto simp: first_hit_def find_Some_iff)

lemma first_hit_ex: "contains_any s ps \<longleftrightarrow> (\<exists>p. first_hit s ps = Some p)"
  using first_hit_None [of s ps] by auto

text \<open>\<open>strings.Split\<close> at a one-byte separator, and \<open>strings.SplitN(s, sep, 2)\<close>.\<close>

fun split_on :: "'a \<Rightarrow> 'a list \<Rightarrow> 'a list list" where
  "split_on c [] = [[]]"
| "split_on c (x # s) =
     (if x = c then [] # split_on c s
      else case split_on c s of [] \<Rightarrow> [[x]] | w # ws \<Rightarrow> (x # w) # ws)"

definition split_2 :: "'a \<Rightarrow> 'a list \<Rightarrow> 'a list list" where
  "split_2 c s =
     (if c \<in> set s
      then [takeWhile (\<lambda>x. x \<noteq> c) s, tl (dropWhile (\<lambda>x. x \<noteq> c) s)]
      else [s])"

lemma split_on_nonempty [simp]: "split_on c s \<noteq> []"
  by (induction s) (auto split: list.splits)

fun join_with :: "'a list \<Rightarrow> 'a list list \<Rightarrow> 'a list" where
  "join_with sep [] = []"
| "join_with sep [w] = w"
| "join_with sep (w # v # ws) = w @ sep @ join_with sep (v # ws)"

lemma join_with_cons_head: "join_with sep ((x # w) # ws) = x # join_with sep (w # ws)"
  by (cases ws) simp_all

lemma join_with_empty_head: "ws \<noteq> [] \<Longrightarrow> join_with sep ([] # ws) = sep @ join_with sep ws"
  by (cases ws) simp_all

lemma join_split_on: "join_with [c] (split_on c s) = s"
proof (induction s)
  case Nil
  then show ?case by simp
next
  case (Cons x s)
  then show ?case
    by (cases "split_on c s") (auto simp: join_with_cons_head join_with_empty_head)
qed

lemma split_on_no_sep: "w \<in> set (split_on c s) \<Longrightarrow> c \<notin> set w"
  by (induction s arbitrary: w) (auto split: list.splits if_splits)

section \<open>Numbers as text: package fmt\<close>

text \<open>
  \<open>fmt.Sprintf("%d", n)\<close>. The digits are computed on \<open>int\<close>, whose arithmetic evaluates in
  binary.
\<close>

function show_digits :: "int \<Rightarrow> string" where
  "show_digits n =
     (if n < 10 then [char_of (48 + n)]
      else show_digits (n div 10) @ [char_of (48 + n mod 10)])"
  by pat_completeness auto
termination
  by (relation "measure nat") auto

declare show_digits.simps [simp del]

definition show_nat :: "nat \<Rightarrow> string" where
  "show_nat n = show_digits (int n)"

definition show_int :: "int \<Rightarrow> string" where
  "show_int i = (if i < 0 then ''-'' @ show_digits (- i) else show_digits i)"

definition read_digits :: "string \<Rightarrow> int" where
  "read_digits s = foldl (\<lambda>n c. 10 * n + (of_char c - 48)) 0 s"

lemma of_char_digit: "0 \<le> n \<Longrightarrow> n < 10 \<Longrightarrow> of_char (char_of (48 + n) :: char) = (48 + n :: int)"
  by (simp add: of_char_of)

lemma read_show_digits: "0 \<le> n \<Longrightarrow> read_digits (show_digits n) = n"
proof (induction n rule: show_digits.induct)
  case (1 n)
  show ?case
  proof (cases "n < 10")
    case True
    with "1.prems" show ?thesis
      by (simp add: show_digits.simps read_digits_def of_char_digit)
  next
    case False
    moreover from False 1 have "read_digits (show_digits (n div 10)) = n div 10" by simp
    ultimately show ?thesis
      by (subst show_digits.simps) (simp add: read_digits_def of_char_digit)
  qed
qed

lemma show_digits_inject: "0 \<le> m \<Longrightarrow> 0 \<le> n \<Longrightarrow> show_digits m = show_digits n \<longleftrightarrow> m = n"
  by (metis read_show_digits)

lemma show_digits_digits:
  "0 \<le> n \<Longrightarrow> c \<in> set (show_digits n) \<Longrightarrow> 48 \<le> (of_char c :: int) \<and> (of_char c :: int) < 58"
proof (induction n rule: show_digits.induct)
  case (1 n)
  show ?case
  proof (cases "n < 10")
    case True
    with "1.prems" show ?thesis by (simp add: show_digits.simps of_char_digit)
  next
    case False
    with "1.prems" have "c \<in> set (show_digits (n div 10)) \<or> c = char_of (48 + n mod 10)"
      by (subst (asm) show_digits.simps) auto
    with "1.IH" [OF False] "1.prems" show ?thesis
      using of_char_digit [of "n mod 10"] by auto
  qed
qed

lemma show_digits_nonempty [simp]: "show_digits n \<noteq> []"
  by (subst show_digits.simps) simp

lemma show_nat_inject [simp]: "show_nat m = show_nat n \<longleftrightarrow> m = n"
  by (simp add: show_nat_def show_digits_inject)

lemma minus_not_digit: "0 \<le> n \<Longrightarrow> CHR ''-'' \<notin> set (show_digits n)"
proof
  assume "0 \<le> n" and "CHR ''-'' \<in> set (show_digits n)"
  then have "48 \<le> (of_char (CHR ''-'') :: int)" by (blast dest: show_digits_digits)
  then show False by simp
qed

lemma show_int_nonempty [simp]: "show_int i \<noteq> []"
  by (simp add: show_int_def)

lemma show_int_sign: "prefix ''-'' (show_int i) \<longleftrightarrow> i < 0"
proof (cases "i < 0")
  case True
  then show ?thesis by (simp add: show_int_def)
next
  case False
  then have "hd (show_int i) \<in> set (show_digits i)"
    by (simp add: show_int_def)
  with False minus_not_digit [of i] have "hd (show_int i) \<noteq> CHR ''-''" by auto
  with False show ?thesis by (cases "show_int i") auto
qed

lemma show_int_inject [simp]: "show_int i = show_int j \<longleftrightarrow> i = j"
proof
  assume eq: "show_int i = show_int j"
  then have "i < 0 \<longleftrightarrow> j < 0" using show_int_sign [of i] show_int_sign [of j] by simp
  with eq show "i = j"
    using show_digits_inject [of "- i" "- j"] show_digits_inject [of i j]
    by (auto simp: show_int_def split: if_splits)
qed simp

text \<open>Constant text: line feed, double quote, single quote.\<close>

abbreviation nl :: string where "nl \<equiv> [CHR 0x0A]"
abbreviation dquote :: string where "dquote \<equiv> [CHR 0x22]"
abbreviation squote :: string where "squote \<equiv> [CHR 0x27]"

definition lines :: "string list \<Rightarrow> string" where
  "lines ls = concat (map (\<lambda>l. l @ nl) ls)"

section \<open>Slices\<close>

text \<open>
  \<open>s[:n]\<close> and \<open>s[n:]\<close> panic when the bound lies outside the slice; a bound is a signed
  integer.
\<close>

definition slice_to :: "'a list \<Rightarrow> int \<Rightarrow> 'a list outcome" where
  "slice_to s n =
     (if 0 \<le> n \<and> n \<le> int (length s) then Ret (take (nat n) s)
      else Panic ''slice bounds out of range'')"

definition slice_from :: "'a list \<Rightarrow> int \<Rightarrow> 'a list outcome" where
  "slice_from s n =
     (if 0 \<le> n \<and> n \<le> int (length s) then Ret (drop (nat n) s)
      else Panic ''slice bounds out of range'')"

text \<open>\<open>if len(xs) > n { xs = xs[len(xs)-n:] }\<close>: keep the newest \<open>n\<close> entries.\<close>

definition keep_last :: "nat \<Rightarrow> 'a list \<Rightarrow> 'a list" where
  "keep_last n xs = (if n < length xs then drop (length xs - n) xs else xs)"

lemma keep_last_eq_drop: "keep_last n xs = drop (length xs - n) xs"
  by (simp add: keep_last_def)

lemma length_keep_last [simp]: "length (keep_last n xs) = min n (length xs)"
  by (simp add: keep_last_eq_drop)

lemma keep_last_small [simp]: "length xs \<le> n \<Longrightarrow> keep_last n xs = xs"
  by (simp add: keep_last_def)

lemma keep_last_append: "keep_last n (keep_last n xs @ ys) = keep_last n (xs @ ys)"
  by (cases "length xs \<le> n") (simp_all add: keep_last_eq_drop add.commute)

lemma set_keep_last: "set (keep_last n xs) \<subseteq> set xs"
  by (simp add: keep_last_eq_drop set_drop_subset)

text \<open>
  \<open>if count >= len(xs) { return xs }; return xs[len(xs)-count:]\<close>: a negative count asks
  for a bound past the end and panics.
\<close>

definition recent :: "'a list \<Rightarrow> int \<Rightarrow> 'a list outcome" where
  "recent xs count =
     (if int (length xs) \<le> count then Ret xs
      else slice_from xs (int (length xs) - count))"

lemma recent_nonneg: "0 \<le> count \<Longrightarrow> recent xs count = Ret (keep_last (nat count) xs)"
  by (auto simp: recent_def slice_from_def keep_last_def nat_diff_distrib)

lemma recent_negative: "count < 0 \<Longrightarrow> recent xs count = Panic ''slice bounds out of range''"
  by (auto simp: recent_def slice_from_def)

section \<open>Bounded logs\<close>

text \<open>
  The execution lifecycle and the workflow engine both append to a history and cut it to its
  newest entries. The interface: \<open>push\<close> appends and cuts, \<open>entries\<close> reads the log.
\<close>

locale bounded_log =
  fixes push :: "'e \<Rightarrow> 's \<Rightarrow> 's"
    and entries :: "'s \<Rightarrow> 'e list"
    and cap :: nat
  assumes entries_push: "entries (push e s) = keep_last cap (entries s @ [e])"
    and cap_pos: "0 < cap"
begin

lemma length_push: "length (entries (push e s)) \<le> cap"
  by (simp add: entries_push)

lemma newest_last: "entries (push e s) \<noteq> [] \<and> last (entries (push e s)) = e"
  using cap_pos by (auto simp: entries_push keep_last_def)

lemma entries_fold:
  "es \<noteq> [] \<Longrightarrow> entries (fold push es s) = keep_last cap (entries s @ es)"
proof (induction es arbitrary: s)
  case Nil
  then show ?case by simp
next
  case (Cons e es)
  show ?case
  proof (cases "es = []")
    case True
    then show ?thesis by (simp add: entries_push)
  next
    case False
    then have "entries (fold push (e # es) s) = keep_last cap (entries (push e s) @ es)"
      using Cons.IH by simp
    then show ?thesis
      using keep_last_append [of cap "entries s @ [e]" es] by (simp add: entries_push)
  qed
qed

lemma length_fold: "length (entries s) \<le> cap \<Longrightarrow> length (entries (fold push es s)) \<le> cap"
  by (cases "es = []") (simp_all add: entries_fold)

end

section \<open>Go maps\<close>

text \<open>
  A Go map is an association list with distinct keys; \<open>AList.update\<close> stores and
  \<open>AList.delete\<close> deletes. The iteration order of a Go map is not specified: where the
  sources iterate, the model's result does not depend on the order of the list, or the
  component says what it does instead.
\<close>

type_synonym ('k, 'v) gomap = "('k \<times> 'v) list"

abbreviation gomap_ok :: "('k, 'v) gomap \<Rightarrow> bool" where
  "gomap_ok m \<equiv> distinct (map fst m)"

abbreviation put :: "'k \<Rightarrow> 'v \<Rightarrow> ('k, 'v) gomap \<Rightarrow> ('k, 'v) gomap" where
  "put \<equiv> AList.update"

lemma gomap_ok_put: "gomap_ok m \<Longrightarrow> gomap_ok (put k v m)"
  by (rule distinct_update)

lemma map_of_put [simp]: "map_of (put k v m) = (map_of m)(k \<mapsto> v)"
  by (rule update_conv')

lemma length_put: "length (put k v m) = (if k \<in> fst ` set m then length m else Suc (length m))"
  by (induction m) (auto simp: image_iff)

section \<open>The environment of the process\<close>

text \<open>\<open>os.Getenv\<close>: the empty string for a variable that is not set.\<close>

type_synonym environ = "string \<Rightarrow> string option"

definition getenv :: "environ \<Rightarrow> string \<Rightarrow> string" where
  "getenv env k = (case env k of None \<Rightarrow> [] | Some v \<Rightarrow> v)"

end
