(* ===== verification/Go_Strings.thy ===== *)
theory Go_Strings
  imports Prelude
begin

text \<open>
  The parts of Go's standard library that read a string as Unicode text: UTF-8 decoding and
  encoding (\<open>for range\<close> over a string, \<open>[]rune(s)\<close>, \<open>string(runes)\<close>), the case mappings
  \<open>strings.ToLower\<close>, \<open>strings.ToUpper\<close> and \<open>strings.EqualFold\<close>, and \<open>strings.TrimSpace\<close>.

  A rune is an \<open>int\<close> (Go: \<open>int32\<close>). The tables of package \<open>unicode\<close> beyond ASCII are the
  record \<open>unicode_tables\<close>, a parameter: no result here rests on their contents.
\<close>

section \<open>UTF-8\<close>

type_synonym rune = int

abbreviation byte :: "char \<Rightarrow> int" where
  "byte c \<equiv> of_char c"

abbreviation chr :: "int \<Rightarrow> char" where
  "chr n \<equiv> char_of n"

lemma byte_range: "0 \<le> byte c" "byte c < 256"
proof -
  have "byte c = byte c mod 256" using of_char_mod_256 [of c] by simp
  then show "0 \<le> byte c" "byte c < 256"
    by (metis pos_mod_bound pos_mod_sign zero_less_numeral)+
qed

lemma byte_chr [simp]: "0 \<le> n \<Longrightarrow> n < 256 \<Longrightarrow> byte (chr n) = n"
  by simp

definition rune_error :: rune where
  "rune_error = 0xFFFD"

definition is_cont :: "char \<Rightarrow> bool" where
  "is_cont c \<longleftrightarrow> 0x80 \<le> byte c \<and> byte c \<le> 0xBF"

definition low6 :: "char \<Rightarrow> int" where
  "low6 c = byte c - 0x80"

lemma low6_range: "is_cont c \<Longrightarrow> 0 \<le> low6 c \<and> low6 c < 64"
  unfolding is_cont_def low6_def by linarith

text \<open>
  The second byte of a three-byte or four-byte sequence has a narrower range for some first
  bytes (no overlong forms, no surrogates, nothing past U+10FFFF).
\<close>

definition second_ok :: "int \<Rightarrow> int \<Rightarrow> bool" where
  "second_ok b0 b1 \<longleftrightarrow>
     (if b0 = 0xE0 then 0xA0 else if b0 = 0xF0 then 0x90 else 0x80) \<le> b1 \<and>
     b1 \<le> (if b0 = 0xED then 0x9F else if b0 = 0xF4 then 0x8F else 0xBF)"

text \<open>\<open>utf8.DecodeRuneInString\<close>: the first rune and its width.\<close>

fun decode_rune :: "string \<Rightarrow> rune \<times> nat" where
  "decode_rune [] = (rune_error, 0)"
| "decode_rune (c0 # s) =
     (let b0 = byte c0 in
      if b0 < 0x80 then (b0, 1)
      else if 0xC2 \<le> b0 \<and> b0 \<le> 0xDF then
        (case s of c1 # _ \<Rightarrow>
           if is_cont c1 then ((b0 - 0xC0) * 64 + low6 c1, 2) else (rune_error, 1)
         | [] \<Rightarrow> (rune_error, 1))
      else if 0xE0 \<le> b0 \<and> b0 \<le> 0xEF then
        (case s of c1 # c2 # _ \<Rightarrow>
           if second_ok b0 (byte c1) \<and> is_cont c2
           then ((b0 - 0xE0) * 4096 + low6 c1 * 64 + low6 c2, 3)
           else (rune_error, 1)
         | _ \<Rightarrow> (rune_error, 1))
      else if 0xF0 \<le> b0 \<and> b0 \<le> 0xF4 then
        (case s of c1 # c2 # c3 # _ \<Rightarrow>
           if second_ok b0 (byte c1) \<and> is_cont c2 \<and> is_cont c3
           then ((b0 - 0xF0) * 262144 + low6 c1 * 4096 + low6 c2 * 64 + low6 c3, 4)
           else (rune_error, 1)
         | _ \<Rightarrow> (rune_error, 1))
      else (rune_error, 1))"

lemma decode_rune_width: "s \<noteq> [] \<Longrightarrow> 0 < snd (decode_rune s)"
  by (cases s) (auto simp: Let_def split: list.splits)

text \<open>\<open>[]rune(s)\<close>.\<close>

function runes :: "string \<Rightarrow> rune list" where
  "runes s =
     (if s = [] then []
      else fst (decode_rune s) # runes (drop (snd (decode_rune s)) s))"
  by pat_completeness auto
termination
proof (relation "measure length")
  fix s :: string
  assume "s \<noteq> []"
  then show "(drop (snd (decode_rune s)) s, s) \<in> measure length"
    using decode_rune_width [of s] by (cases s) auto
qed simp

declare runes.simps [simp del]

lemma runes_Nil [simp]: "runes [] = []"
  by (simp add: runes.simps)

text \<open>\<open>utf8.EncodeRune\<close>: what is no Unicode scalar value is written as U+FFFD.\<close>

definition is_scalar :: "rune \<Rightarrow> bool" where
  "is_scalar r \<longleftrightarrow> 0 \<le> r \<and> r < 0xD800 \<or> 0xE000 \<le> r \<and> r \<le> 0x10FFFF"

definition encode_rune :: "rune \<Rightarrow> string" where
  "encode_rune r =
     (if \<not> is_scalar r then [chr 0xEF, chr 0xBF, chr 0xBD]
      else if r < 0x80 then [chr r]
      else if r < 0x800 then [chr (0xC0 + r div 64), chr (0x80 + r mod 64)]
      else if r < 0x10000 then
        [chr (0xE0 + r div 4096), chr (0x80 + r div 64 mod 64), chr (0x80 + r mod 64)]
      else
        [chr (0xF0 + r div 262144), chr (0x80 + r div 4096 mod 64),
         chr (0x80 + r div 64 mod 64), chr (0x80 + r mod 64)])"

text \<open>\<open>string(rs)\<close> for a slice of runes.\<close>

definition utf8 :: "rune list \<Rightarrow> string" where
  "utf8 rs = concat (map encode_rune rs)"

lemma utf8_simps [simp]:
  "utf8 [] = []" "utf8 (r # rs) = encode_rune r @ utf8 rs" "utf8 (rs @ qs) = utf8 rs @ utf8 qs"
  by (simp_all add: utf8_def)

lemma decode_encode1: "is_scalar r \<Longrightarrow> r < 0x80 \<Longrightarrow> decode_rune (encode_rune r @ s) = (r, 1)"
  by (auto simp: encode_rune_def is_scalar_def)

lemma decode_encode2:
  assumes "0x80 \<le> r" and "r < 0x800"
  shows "decode_rune (encode_rune r @ s) = (r, 2)"
proof -
  define a where "a = r div 64"
  define b where "b = r mod 64"
  have "2 \<le> a" "a < 32" "0 \<le> b" "b < 64" using assms unfolding a_def b_def by auto
  moreover have "a * 64 + b = r" unfolding a_def b_def by simp
  moreover have "is_scalar r" using assms by (simp add: is_scalar_def)
  ultimately show ?thesis
    using assms
    by (simp add: encode_rune_def is_cont_def low6_def a_def [symmetric] b_def [symmetric])
qed

lemma decode_encode3:
  assumes "0x800 \<le> r" and "r < 0x10000" and "is_scalar r"
  shows "decode_rune (encode_rune r @ s) = (r, 3)"
proof -
  define a where "a = r div 4096"
  define b where "b = r div 64 mod 64"
  define c where "c = r mod 64"
  have ranges: "0 \<le> a" "a < 16" "0 \<le> b" "b < 64" "0 \<le> c" "c < 64"
    using assms unfolding a_def b_def c_def by auto
  have "r div 64 div 64 = a" using zdiv_zmult2_eq [of 64 r 64] by (simp add: a_def)
  then have split: "a * 64 + b = r div 64"
    using div_mult_mod_eq [of "r div 64" 64] by (simp add: b_def)
  then have val: "a * 4096 + b * 64 + c = r"
    using div_mult_mod_eq [of r 64] unfolding c_def by linarith
  have lo: "a = 0 \<Longrightarrow> 32 \<le> b" using val ranges assms(1) by linarith
  have hi: "a = 13 \<Longrightarrow> b < 32" using val ranges assms(3) unfolding is_scalar_def by linarith
  have "second_ok (0xE0 + a) (0x80 + b)"
    using lo hi ranges by (auto simp: second_ok_def)
  then show ?thesis
    using ranges val assms
    by (simp add: encode_rune_def is_cont_def low6_def a_def [symmetric] b_def [symmetric]
        c_def [symmetric])
qed

lemma decode_encode4:
  assumes "0x10000 \<le> r" and "is_scalar r"
  shows "decode_rune (encode_rune r @ s) = (r, 4)"
proof -
  define a where "a = r div 262144"
  define b where "b = r div 4096 mod 64"
  define c where "c = r div 64 mod 64"
  define d where "d = r mod 64"
  have r: "r \<le> 0x10FFFF" using assms by (auto simp: is_scalar_def)
  have ranges: "0 \<le> a" "a \<le> 4" "0 \<le> b" "b < 64" "0 \<le> c" "c < 64" "0 \<le> d" "d < 64"
    using assms(1) r unfolding a_def b_def c_def d_def by auto
  have "r div 4096 div 64 = a" "r div 64 div 64 = r div 4096"
    using zdiv_zmult2_eq [of 64 r 4096] zdiv_zmult2_eq [of 64 r 64] by (simp_all add: a_def)
  then have "a * 64 + b = r div 4096" "r div 4096 * 64 + c = r div 64"
    using div_mult_mod_eq [of "r div 4096" 64] div_mult_mod_eq [of "r div 64" 64]
    by (simp_all add: b_def c_def)
  then have val: "a * 262144 + b * 4096 + c * 64 + d = r"
    using div_mult_mod_eq [of r 64] unfolding d_def by linarith
  have lo: "a = 0 \<Longrightarrow> 16 \<le> b" using val ranges assms(1) by linarith
  have hi: "a = 4 \<Longrightarrow> b < 16" using val ranges r by linarith
  have "second_ok (0xF0 + a) (0x80 + b)"
    using lo hi ranges by (auto simp: second_ok_def)
  then show ?thesis
    using ranges val assms
    by (simp add: encode_rune_def is_cont_def low6_def a_def [symmetric] b_def [symmetric]
        c_def [symmetric] d_def [symmetric])
qed

lemma decode_encode:
  "is_scalar r \<Longrightarrow> decode_rune (encode_rune r @ s) = (r, length (encode_rune r))"
  using decode_encode1 [of r s] decode_encode2 [of r s] decode_encode3 [of r s]
    decode_encode4 [of r s]
  by (cases "r < 0x80"; cases "r < 0x800"; cases "r < 0x10000") (auto simp: encode_rune_def)

lemma encode_rune_nonempty [simp]: "encode_rune r \<noteq> []"
  by (simp add: encode_rune_def)

lemma runes_encode: "is_scalar r \<Longrightarrow> runes (encode_rune r @ s) = r # runes s"
  by (subst runes.simps) (simp add: decode_encode)

lemma runes_utf8: "\<forall>r \<in> set rs. is_scalar r \<Longrightarrow> runes (utf8 rs) = rs"
  by (induction rs) (simp_all add: runes_encode)

lemma runes_utf8_append: "\<forall>r \<in> set rs. is_scalar r \<Longrightarrow> runes (utf8 rs @ s) = rs @ runes s"
  by (induction rs) (simp_all add: runes_encode)

text \<open>Every rune that decoding yields is a scalar value.\<close>

lemma scalar2: "0xC2 \<le> b0 \<Longrightarrow> b0 \<le> 0xDF \<Longrightarrow> is_cont c \<Longrightarrow> is_scalar ((b0 - 0xC0) * 64 + low6 c)"
  using low6_range [of c] unfolding is_scalar_def by auto

lemma scalar3:
  assumes "0xE0 \<le> b0" "b0 \<le> 0xEF" "second_ok b0 (byte c)" "is_cont d"
  shows "is_scalar ((b0 - 0xE0) * 4096 + low6 c * 64 + low6 d)"
proof -
  have b: "0 \<le> low6 c" "low6 c < 64" "b0 = 0xED \<longrightarrow> low6 c < 32"
    using assms(3) unfolding second_ok_def low6_def by (auto split: if_splits)
  have d: "0 \<le> low6 d" "low6 d < 64" using low6_range [OF assms(4)] by simp_all
  consider "b0 < 0xED" | "b0 = 0xED" "low6 c < 32" | "0xEE \<le> b0" using b(3) by linarith
  then show ?thesis
    by cases (use b d assms(1,2) in \<open>simp_all add: is_scalar_def\<close>)
qed

lemma scalar4:
  assumes "0xF0 \<le> b0" "b0 \<le> 0xF4" "second_ok b0 (byte c)" "is_cont d" "is_cont e"
  shows "is_scalar ((b0 - 0xF0) * 262144 + low6 c * 4096 + low6 d * 64 + low6 e)"
proof -
  have b: "0 \<le> low6 c" "low6 c < 64" "b0 = 0xF0 \<longrightarrow> 16 \<le> low6 c" "b0 = 0xF4 \<longrightarrow> low6 c < 16"
    using assms(3) unfolding second_ok_def low6_def by (auto split: if_splits)
  have d: "0 \<le> low6 d" "low6 d < 64" "0 \<le> low6 e" "low6 e < 64"
    using low6_range [OF assms(4)] low6_range [OF assms(5)] by simp_all
  consider "b0 = 0xF0" "16 \<le> low6 c" | "0xF0 < b0" "b0 < 0xF4" | "b0 = 0xF4" "low6 c < 16"
    using b(3,4) assms(1,2) by linarith
  then show ?thesis
    by cases (use b(1,2) d in \<open>simp_all add: is_scalar_def\<close>)
qed

lemma scalar_error: "is_scalar rune_error"
  by (simp add: rune_error_def is_scalar_def)

lemma decode_rune_scalar: "is_scalar (fst (decode_rune s))"
proof (cases s)
  case Nil
  then show ?thesis by (simp add: scalar_error)
next
  case (Cons c0 t)
  have low: "byte c0 < 0x80 \<Longrightarrow> is_scalar (byte c0)" by (simp add: is_scalar_def byte_range)
  show ?thesis
    unfolding Cons
    by (simp add: Let_def scalar_error low scalar2 scalar3 scalar4 split: list.split
        del: left_diff_distrib_numeral)
qed

lemma runes_scalar: "r \<in> set (runes s) \<Longrightarrow> is_scalar r"
proof (induction s arbitrary: r rule: runes.induct)
  case (1 s)
  then show ?case
    using decode_rune_scalar [of s] by (subst (asm) runes.simps) (auto split: if_splits)
qed

definition valid_utf8 :: "string \<Rightarrow> bool" where
  "valid_utf8 s \<longleftrightarrow> utf8 (runes s) = s"

lemma valid_utf8_utf8: "\<forall>r \<in> set rs. is_scalar r \<Longrightarrow> valid_utf8 (utf8 rs)"
  by (simp add: valid_utf8_def runes_utf8)

lemma runes_utf8_runes [simp]: "runes (utf8 (runes s)) = runes s"
  by (rule runes_utf8) (auto dest: runes_scalar)

text \<open>ASCII text: one rune per byte.\<close>

definition is_ascii :: "string \<Rightarrow> bool" where
  "is_ascii s \<longleftrightarrow> list_all (\<lambda>c. byte c < 0x80) s"

lemma is_ascii_simps [simp]:
  "is_ascii []" "is_ascii (c # s) \<longleftrightarrow> byte c < 0x80 \<and> is_ascii s"
  "is_ascii (s @ t) \<longleftrightarrow> is_ascii s \<and> is_ascii t"
  by (simp_all add: is_ascii_def)

lemma runes_ascii_Cons: "byte c < 0x80 \<Longrightarrow> runes (c # s) = byte c # runes s"
  by (subst runes.simps) simp

lemma runes_ascii: "is_ascii s \<Longrightarrow> runes s = map byte s"
  by (induction s) (simp_all add: runes_ascii_Cons)

lemma encode_ascii: "0 \<le> r \<Longrightarrow> r < 0x80 \<Longrightarrow> encode_rune r = [chr r]"
  by (simp add: encode_rune_def is_scalar_def)

section \<open>Case mappings\<close>

record unicode_tables =
  uni_lower :: "rune \<Rightarrow> rune"
  uni_upper :: "rune \<Rightarrow> rune"
  uni_fold :: "rune \<Rightarrow> rune \<Rightarrow> bool"

definition rune_lower :: "unicode_tables \<Rightarrow> rune \<Rightarrow> rune" where
  "rune_lower u r =
     (if r < 0x80 then (if 65 \<le> r \<and> r \<le> 90 then r + 32 else r) else uni_lower u r)"

definition rune_upper :: "unicode_tables \<Rightarrow> rune \<Rightarrow> rune" where
  "rune_upper u r =
     (if r < 0x80 then (if 97 \<le> r \<and> r \<le> 122 then r - 32 else r) else uni_upper u r)"

text \<open>
  \<open>strings.ToLower\<close>: the ASCII fast path and \<open>strings.Map\<close> agree, and \<open>Map\<close> writes U+FFFD for
  a byte that is no UTF-8.
\<close>

definition to_lower :: "unicode_tables \<Rightarrow> string \<Rightarrow> string" where
  "to_lower u s = utf8 (map (rune_lower u) (runes s))"

definition to_upper :: "unicode_tables \<Rightarrow> string \<Rightarrow> string" where
  "to_upper u s = utf8 (map (rune_upper u) (runes s))"

definition ascii_lower :: "char \<Rightarrow> char" where
  "ascii_lower c = (if 65 \<le> byte c \<and> byte c \<le> 90 then chr (byte c + 32) else c)"

definition ascii_upper :: "char \<Rightarrow> char" where
  "ascii_upper c = (if 97 \<le> byte c \<and> byte c \<le> 122 then chr (byte c - 32) else c)"

lemma to_lower_Nil [simp]: "to_lower u [] = []"
  by (simp add: to_lower_def)

lemma to_lower_Cons: "byte c < 0x80 \<Longrightarrow> to_lower u (c # s) = ascii_lower c # to_lower u s"
  using byte_range [of c]
  by (simp add: to_lower_def runes_ascii_Cons rune_lower_def ascii_lower_def encode_ascii)

lemma to_upper_Nil [simp]: "to_upper u [] = []"
  by (simp add: to_upper_def)

lemma to_upper_Cons: "byte c < 0x80 \<Longrightarrow> to_upper u (c # s) = ascii_upper c # to_upper u s"
  using byte_range [of c]
  by (simp add: to_upper_def runes_ascii_Cons rune_upper_def ascii_upper_def encode_ascii)

lemma to_lower_ascii: "is_ascii s \<Longrightarrow> to_lower u s = map ascii_lower s"
  by (induction s) (simp_all add: to_lower_Cons)

lemma to_upper_ascii: "is_ascii s \<Longrightarrow> to_upper u s = map ascii_upper s"
  by (induction s) (simp_all add: to_upper_Cons)

text \<open>ASCII-only case tables, for concrete runs.\<close>

definition ascii_tables :: unicode_tables where
  "ascii_tables = \<lparr>uni_lower = (\<lambda>r. r), uni_upper = (\<lambda>r. r), uni_fold = (\<lambda>a b. False)\<rparr>"

text \<open>\<open>strings.EqualFold\<close>: rune by rune, up to case.\<close>

definition fold_eq :: "unicode_tables \<Rightarrow> rune \<Rightarrow> rune \<Rightarrow> bool" where
  "fold_eq u a b \<longleftrightarrow>
     a = b \<or>
     (let sr = min a b; tr = max a b in
      if tr < 0x80 then 65 \<le> sr \<and> sr \<le> 90 \<and> tr = sr + 32 else uni_fold u sr tr)"

definition equal_fold :: "unicode_tables \<Rightarrow> string \<Rightarrow> string \<Rightarrow> bool" where
  "equal_fold u s t \<longleftrightarrow> list_all2 (fold_eq u) (runes s) (runes t)"

lemma equal_fold_refl [simp]: "equal_fold u s s"
  by (simp add: equal_fold_def fold_eq_def list_all2_same)

lemma fold_eq_sym: "fold_eq u a b = fold_eq u b a"
  by (auto simp: fold_eq_def Let_def min.commute max.commute)

lemma equal_fold_sym: "equal_fold u s t = equal_fold u t s"
  by (metis equal_fold_def fold_eq_sym list_all2_conv_all_nth)

section \<open>strings.TrimSpace\<close>

text \<open>
  The UTF-8 forms of the runes with \<open>unicode.IsSpace\<close>: the ASCII spaces, U+0085, U+00A0,
  U+1680, U+2000 to U+200A, U+2028, U+2029, U+202F, U+205F and U+3000. No form is a proper
  prefix or suffix of another, and decoding from either end of a string stops at these
  boundaries, so trimming runes is trimming these byte sequences.
\<close>

definition space_runes :: "rune list" where
  "space_runes = [9, 10, 11, 12, 13, 32, 0x85, 0xA0, 0x1680] @ [0x2000..0x200A] @
     [0x2028, 0x2029, 0x202F, 0x205F, 0x3000]"

definition is_space :: "rune \<Rightarrow> bool" where
  "is_space r \<longleftrightarrow> r \<in> set space_runes"

definition space_forms :: "string list" where
  "space_forms = map encode_rune space_runes"

function trim_left :: "string \<Rightarrow> string" where
  "trim_left s =
     (case List.find (has_prefix s) space_forms of
        None \<Rightarrow> s
      | Some w \<Rightarrow> trim_left (drop (length w) s))"
  by pat_completeness auto
termination
proof (relation "measure length")
  fix s w :: string
  assume "List.find (has_prefix s) space_forms = Some w"
  then have "w \<in> set space_forms" and "prefix w s"
    by (auto simp: find_Some_iff)
  then have "0 < length w" and "length w \<le> length s"
    by (auto simp: space_forms_def dest: prefix_length_le)
  then show "(drop (length w) s, s) \<in> measure length" by (simp del: length_greater_0_conv)
qed simp

declare trim_left.simps [simp del]

function trim_right :: "string \<Rightarrow> string" where
  "trim_right s =
     (case List.find (\<lambda>w. suffix w s) space_forms of
        None \<Rightarrow> s
      | Some w \<Rightarrow> trim_right (take (length s - length w) s))"
  by pat_completeness auto
termination
proof (relation "measure length")
  fix s w :: string
  assume "List.find (\<lambda>w. suffix w s) space_forms = Some w"
  then have "w \<in> set space_forms" and "suffix w s"
    by (auto simp: find_Some_iff)
  then have "0 < length w" and "length w \<le> length s"
    by (auto simp: space_forms_def dest: suffix_length_le)
  then show "(take (length s - length w) s, s) \<in> measure length" by (simp del: length_greater_0_conv)
qed simp

declare trim_right.simps [simp del]

definition trim_space :: "string \<Rightarrow> string" where
  "trim_space s = trim_right (trim_left s)"

lemma trim_left_suffix: "suffix (trim_left s) s"
proof (induction s rule: trim_left.induct)
  case (1 s)
  show ?case
  proof (cases "List.find (has_prefix s) space_forms")
    case None
    then show ?thesis by (simp add: trim_left.simps)
  next
    case (Some w)
    with 1 have "suffix (trim_left (drop (length w) s)) (drop (length w) s)" by simp
    with Some show ?thesis
      by (simp add: trim_left.simps [of s])
        (meson suffix_drop suffix_order.order_trans)
  qed
qed

lemma trim_right_prefix: "prefix (trim_right s) s"
proof (induction s rule: trim_right.induct)
  case (1 s)
  show ?case
  proof (cases "List.find (\<lambda>w. suffix w s) space_forms")
    case None
    then show ?thesis by (simp add: trim_right.simps)
  next
    case (Some w)
    with 1 have "prefix (trim_right (take (length s - length w) s)) (take (length s - length w) s)"
      by simp
    with Some show ?thesis
      by (simp add: trim_right.simps [of s])
        (meson prefix_order.order_trans take_is_prefix)
  qed
qed

lemma trim_space_sublist: "sublist (trim_space s) s"
  unfolding trim_space_def
  by (meson prefix_imp_sublist sublist_order.order_trans suffix_imp_sublist
      trim_left_suffix trim_right_prefix)

lemma length_trim_space: "length (trim_space s) \<le> length s"
  by (rule sublist_length_le [OF trim_space_sublist])

lemma trim_right_idem [simp]: "trim_right (trim_right s) = trim_right s"
proof (induction s rule: trim_right.induct)
  case (1 s)
  then show ?case
    by (cases "List.find (\<lambda>w. suffix w s) space_forms") (simp_all add: trim_right.simps [of s])
qed

section \<open>Words and numbers at the front of a text\<close>

text \<open>\<open>strings.Fields\<close>: the runs of runes that are no space; a byte that is no UTF-8 is kept.\<close>

function rune_pieces :: "string \<Rightarrow> (rune \<times> string) list" where
  "rune_pieces s =
     (if s = [] then []
      else (fst (decode_rune s), take (snd (decode_rune s)) s) #
           rune_pieces (drop (snd (decode_rune s)) s))"
  by pat_completeness auto
termination
proof (relation "measure length")
  fix s :: string
  assume "s \<noteq> []"
  then show "(drop (snd (decode_rune s)) s, s) \<in> measure length"
    using decode_rune_width [of s] by (cases s) auto
qed simp

declare rune_pieces.simps [simp del]

fun words_from :: "string \<Rightarrow> (rune \<times> string) list \<Rightarrow> string list" where
  "words_from acc [] = (if acc = [] then [] else [acc])"
| "words_from acc ((r, b) # ps) =
     (if is_space r then (if acc = [] then words_from [] ps else acc # words_from [] ps)
      else words_from (acc @ b) ps)"

definition text_fields :: "string \<Rightarrow> string list" where
  "text_fields s = words_from [] (rune_pieces s)"

text \<open>
  \<open>fmt.Sscanf(s, "%d", &n)\<close>: leading space (no line feed), a sign, the digits at the front; no
  value without digits or beyond 64 bits.
\<close>

definition rune_digit :: "rune \<Rightarrow> bool" where
  "rune_digit r \<longleftrightarrow> 48 \<le> r \<and> r \<le> 57"

definition sscan_int :: "string \<Rightarrow> int option" where
  "sscan_int s =
     (let rs = dropWhile (\<lambda>r. is_space r \<and> r \<noteq> 10) (runes s);
          (neg, ds) = (case rs of
                         [] \<Rightarrow> (False, [])
                       | c # t \<Rightarrow> if c = 45 then (True, t) else if c = 43 then (False, t) else (False, rs));
          digits = takeWhile rune_digit ds;
          v = foldl (\<lambda>n d. 10 * n + (d - 48)) 0 digits;
          v = (if neg then - v else v)
      in if digits \<noteq> [] \<and> - (2 ^ 63) \<le> v \<and> v < 2 ^ 63 then Some v else None)"

text \<open>\<open>strings.ReplaceAll\<close> for a pattern that is not empty.\<close>

function replace_all :: "string \<Rightarrow> string \<Rightarrow> string \<Rightarrow> string" where
  "replace_all old new s =
     (if s = [] \<or> old = [] then s
      else if prefix old s then new @ replace_all old new (drop (length old) s)
      else hd s # replace_all old new (tl s))"
  by pat_completeness auto
termination
  by (relation "measure (\<lambda>(old, new, s). length s)") auto

declare replace_all.simps [simp del]

end
