(* ===== verification/Json.thy ===== *)
theory Json
  imports Go_Strings
begin

text \<open>
  JSON values and \<open>encoding/json\<close> decoding into Go structs. A document is a tree; its text form
  is read by the library's scanner, which is the field \<open>js_parse\<close> of the parameter
  \<open>json_lib\<close> (with the error texts the library makes). What the sources rely on is modelled:
  which member of an object sets which field (an exact name, else a name equal up to case),
  \<open>null\<close> leaves a field alone, a member of the wrong type is skipped and reported at the end,
  a document with a syntax error changes nothing, the last of several members wins. The field
  \<open>js_float_ok\<close> says whether a number literal has a \<open>float64\<close> value (\<open>strconv.ParseFloat\<close>), and
  \<open>js_stream\<close> reads the first value of a text that may go on (\<open>json.Decoder\<close>).
\<close>

text \<open>Numbers keep their literal: the Go type of the field decides how it is read.\<close>

datatype json =
    JNull
  | JBool bool
  | JNum string
  | JStr string
  | JArr "json list"
  | JObj "(string \<times> json) list"

record json_lib =
  js_parse :: "string \<Rightarrow> goerr + json"
  js_mismatch :: "json \<Rightarrow> goerr"
  js_float_ok :: "string \<Rightarrow> bool"
  js_stream :: "string \<Rightarrow> goerr + json"

section \<open>Field names\<close>

text \<open>
  \<open>encoding/json\<close> folds a member name rune by rune. Field names are ASCII, so besides the
  ASCII letters only U+017F (long s) and U+212A (Kelvin sign) fold into a field name.
\<close>

definition fold_name_rune :: "rune \<Rightarrow> rune" where
  "fold_name_rune r =
     (if 97 \<le> r \<and> r \<le> 122 then r - 32
      else if r = 0x17F then 83 else if r = 0x212A then 75 else r)"

definition fold_name :: "string \<Rightarrow> rune list" where
  "fold_name k = map fold_name_rune (runes k)"

definition match_field :: "string list \<Rightarrow> string \<Rightarrow> string option" where
  "match_field names k =
     (if k \<in> set names then Some k
      else List.find (\<lambda>n. fold_name n = fold_name k) names)"

lemma match_field_exact [simp]: "k \<in> set names \<Longrightarrow> match_field names k = Some k"
  by (simp add: match_field_def)

lemma match_field_Some: "match_field names k = Some n \<Longrightarrow> n \<in> set names"
  by (auto simp: match_field_def find_Some_iff split: if_splits)

section \<open>Decoding\<close>

text \<open>
  A decoder takes the tree and the old value of the target and gives the new value and
  whether a type mismatch was met.
\<close>

type_synonym 'a decoder = "json \<Rightarrow> 'a \<Rightarrow> 'a \<times> bool"

fun dec_string :: "string decoder" where
  "dec_string (JStr s) old = (s, False)"
| "dec_string JNull old = (old, False)"
| "dec_string _ old = (old, True)"

fun dec_bool :: "bool decoder" where
  "dec_bool (JBool b) old = (b, False)"
| "dec_bool JNull old = (old, False)"
| "dec_bool _ old = (old, True)"

text \<open>A Go \<open>int\<close> has 64 bits: \<open>strconv.ParseInt\<close> refuses fractions, exponents and overflow.\<close>

definition digits_only :: "string \<Rightarrow> bool" where
  "digits_only s \<longleftrightarrow> s \<noteq> [] \<and> list_all (\<lambda>c. 48 \<le> byte c \<and> byte c \<le> 57) s"

definition parse_int64 :: "string \<Rightarrow> int option" where
  "parse_int64 s =
     (let (neg, ds) = (if prefix ''-'' s then (True, tl s) else (False, s));
          v = (if neg then - read_digits ds else read_digits ds)
      in if digits_only ds \<and> - (2 ^ 63) \<le> v \<and> v < 2 ^ 63 then Some v else None)"

lemma digits_only_show: "0 \<le> n \<Longrightarrow> digits_only (show_digits n)"
  using show_digits_digits [of n] by (fastforce simp: digits_only_def list_all_iff)

lemma parse_int64_show_int: "- (2 ^ 63) \<le> i \<Longrightarrow> i < 2 ^ 63 \<Longrightarrow> parse_int64 (show_int i) = Some i"
proof (cases "i < 0")
  case True
  then show "- (2 ^ 63) \<le> i \<Longrightarrow> i < 2 ^ 63 \<Longrightarrow> ?thesis"
    by (simp add: parse_int64_def show_int_def read_show_digits digits_only_show)
next
  case False
  then have "\<not> prefix ''-'' (show_digits i)"
    using show_int_sign [of i] by (simp add: show_int_def)
  with False show "- (2 ^ 63) \<le> i \<Longrightarrow> i < 2 ^ 63 \<Longrightarrow> ?thesis"
    by (simp add: parse_int64_def show_int_def read_show_digits digits_only_show)
qed

fun dec_int :: "int decoder" where
  "dec_int (JNum l) old = (case parse_int64 l of Some i \<Rightarrow> (i, False) | None \<Rightarrow> (old, True))"
| "dec_int JNull old = (old, False)"
| "dec_int _ old = (old, True)"

text \<open>A slice of strings: an element of the wrong type stays the empty string.\<close>

definition dec_strings :: "string list decoder" where
  "dec_strings j old =
     (case j of
        JArr vs \<Rightarrow> (map (\<lambda>v. fst (dec_string v [])) vs, list_ex (\<lambda>v. snd (dec_string v [])) vs)
      | JNull \<Rightarrow> ([], False)
      | _ \<Rightarrow> (old, True))"

text \<open>A struct: the setter gets the name of the matched field.\<close>

fun dec_members ::
    "(string \<Rightarrow> 's decoder) \<Rightarrow> string list \<Rightarrow> (string \<times> json) list \<Rightarrow> 's \<Rightarrow> 's \<times> bool" where
  "dec_members setter names [] s = (s, False)"
| "dec_members setter names ((k, v) # ms) s =
     (case match_field names k of
        None \<Rightarrow> dec_members setter names ms s
      | Some n \<Rightarrow>
          (let (s1, e1) = setter n v s; (s2, e2) = dec_members setter names ms s1
           in (s2, e1 \<or> e2)))"

definition dec_struct :: "(string \<Rightarrow> 's decoder) \<Rightarrow> string list \<Rightarrow> 's decoder" where
  "dec_struct setter names j s =
     (case j of
        JObj ms \<Rightarrow> dec_members setter names ms s
      | JNull \<Rightarrow> (s, False)
      | _ \<Rightarrow> (s, True))"

text \<open>A slice of structs: every element starts from the zero value.\<close>

definition dec_slice :: "'s decoder \<Rightarrow> 's \<Rightarrow> 's list decoder" where
  "dec_slice dec zero j old =
     (case j of
        JArr vs \<Rightarrow> (map (\<lambda>v. fst (dec v zero)) vs, list_ex (\<lambda>v. snd (dec v zero)) vs)
      | JNull \<Rightarrow> ([], False)
      | _ \<Rightarrow> (old, True))"

text \<open>\<open>json.Unmarshal(data, &target)\<close>: the new target and the error.\<close>

definition unmarshal :: "json_lib \<Rightarrow> 's decoder \<Rightarrow> string \<Rightarrow> 's \<Rightarrow> 's \<times> goerr option" where
  "unmarshal L dec data s =
     (case js_parse L data of
        Inl e \<Rightarrow> (s, Some e)
      | Inr j \<Rightarrow> (let (s', bad) = dec j s in (s', if bad then Some (js_mismatch L j) else None)))"

text \<open>\<open>json.NewDecoder(body).Decode(&target)\<close>\<close>

definition decode :: "json_lib \<Rightarrow> 's decoder \<Rightarrow> string \<Rightarrow> 's \<Rightarrow> 's \<times> goerr option" where
  "decode L dec data s =
     (case js_stream L data of
        Inl e \<Rightarrow> (s, Some e)
      | Inr j \<Rightarrow> (let (s', bad) = dec j s in (s', if bad then Some (js_mismatch L j) else None)))"

lemma unmarshal_syntax [simp]: "js_parse L data = Inl e \<Longrightarrow> unmarshal L dec data s = (s, Some e)"
  by (simp add: unmarshal_def)

section \<open>Maps of unknown shape\<close>

text \<open>
  \<open>map[string]interface{}\<close>: the last member of a name is the value of the key, and
  \<open>v, _ := m[k].(string)\<close> is the empty string unless the value is a string.
\<close>

type_synonym jmap = "(string \<times> json) list"

fun any_ok :: "json_lib \<Rightarrow> json \<Rightarrow> bool" where
  "any_ok L (JNum l) = js_float_ok L l"
| "any_ok L (JArr vs) = list_all (any_ok L) vs"
| "any_ok L (JObj ms) = list_all (\<lambda>m. any_ok L (snd m)) ms"
| "any_ok L _ = True"

definition dec_map :: "json_lib \<Rightarrow> jmap decoder" where
  "dec_map L j old =
     (case j of
        JObj ms \<Rightarrow> (old @ ms, \<not> any_ok L j)
      | JNull \<Rightarrow> ([], False)
      | _ \<Rightarrow> (old, True))"

definition jget :: "jmap \<Rightarrow> string \<Rightarrow> json option" where
  "jget m k = map_of (rev m) k"

definition jstring :: "jmap \<Rightarrow> string \<Rightarrow> string" where
  "jstring m k = (case jget m k of Some (JStr s) \<Rightarrow> s | _ \<Rightarrow> [])"

text \<open>\<open>json.Marshal\<close> of a string writes the replacement rune for what is no UTF-8.\<close>

definition jtext :: "string \<Rightarrow> json" where
  "jtext s = JStr (utf8 (runes s))"

lemma jget_simps [simp]:
  "jget [] k = None"
  "jget (m @ [(k', v)]) k = (if k' = k then Some v else jget m k)"
  by (simp_all add: jget_def)

text \<open>For concrete runs: a scanner that knows some texts and refuses every other.\<close>

definition scan_of :: "(string \<times> json) list \<Rightarrow> string \<Rightarrow> goerr + json" where
  [simp]: "scan_of t s = (case map_of t s of Some j \<Rightarrow> Inr j | None \<Rightarrow> Inl ''invalid character'')"

definition scan_table :: "(string \<times> json) list \<Rightarrow> json_lib" where
  "scan_table t = \<lparr>js_parse = scan_of t, js_mismatch = (\<lambda>_. ''cannot unmarshal''),
     js_float_ok = (\<lambda>_. True), js_stream = scan_of t\<rparr>"

end
