(* ===== verification/Go_Float.thy ===== *)
theory Go_Float
  imports Prelude
begin

text \<open>
  IEEE floating point as the sources use it: \<open>float32\<close> scores that are added and compared,
  and a \<open>float64\<close> confidence that is multiplied by 100 and printed with no decimals.

  Every finite \<open>float32\<close> is a whole number of units of \<open>2 ^ -149\<close>, every finite \<open>float64\<close>
  a whole number of units of \<open>2 ^ -1074\<close>: a value is that number, an \<open>int\<close>. An operation is
  exact on the units and then rounded to 24 or 53 significant bits, ties to even. The values
  met stay far below the overflow threshold, and none is a negative zero or a NaN, which this
  representation does not have.
\<close>

type_synonym float32 = int
type_synonym float64 = int

function bits :: "int \<Rightarrow> nat" where
  "bits n = (if n \<le> 0 then 0 else Suc (bits (n div 2)))"
  by pat_completeness auto
termination
  by (relation "measure nat") auto

declare bits.simps [simp del]

text \<open>The nearest whole number to \<open>n / 2 ^ k\<close>, ties to even, for \<open>0 \<le> n\<close>.\<close>

definition div_round :: "int \<Rightarrow> nat \<Rightarrow> int" where
  "div_round n k =
     (let q = n div 2 ^ k; r = n mod 2 ^ k in
      if 2 * r < 2 ^ k then q
      else if 2 ^ k < 2 * r then q + 1
      else if even q then q else q + 1)"

definition round_sig :: "nat \<Rightarrow> int \<Rightarrow> int" where
  "round_sig p x =
     (let k = bits \<bar>x\<bar> - p; m = div_round \<bar>x\<bar> k * 2 ^ k in if x < 0 then - m else m)"

definition f32_add :: "float32 \<Rightarrow> float32 \<Rightarrow> float32" where
  "f32_add a b = round_sig 24 (a + b)"

definition f64_mul_nat :: "float64 \<Rightarrow> nat \<Rightarrow> float64" where
  "f64_mul_nat x n = round_sig 53 (x * int n)"

text \<open>\<open>fmt.Sprintf("%.0f", x)\<close> for a \<open>float64\<close>.\<close>

definition show_f0 :: "float64 \<Rightarrow> string" where
  "show_f0 x =
     (if x < 0 then ''-'' @ show_int (div_round (- x) 1074) else show_int (div_round x 1074))"

text \<open>The constants of the sources, correctly rounded.\<close>

definition f64_0_7 :: float64 where "f64_0_7 = 3152519739159347 * 2 ^ 1022"
definition f64_0_3 :: float64 where "f64_0_3 = 5404319552844595 * 2 ^ 1020"

definition f32_0_1 :: float32 where "f32_0_1 = 13421773 * 2 ^ 122"
definition f32_0_2 :: float32 where "f32_0_2 = 13421773 * 2 ^ 123"
definition f32_0_3 :: float32 where "f32_0_3 = 10066330 * 2 ^ 124"
definition f32_0_4 :: float32 where "f32_0_4 = 13421773 * 2 ^ 124"
definition f32_0_5 :: float32 where "f32_0_5 = 2 ^ 148"
definition f32_0_6 :: float32 where "f32_0_6 = 10066330 * 2 ^ 125"
definition f32_0_7 :: float32 where "f32_0_7 = 11744051 * 2 ^ 125"
definition f32_0_8 :: float32 where "f32_0_8 = 13421773 * 2 ^ 125"

lemmas f32_consts = f32_0_1_def f32_0_2_def f32_0_3_def f32_0_4_def f32_0_5_def f32_0_6_def
  f32_0_7_def f32_0_8_def

text \<open>
  A constant is the value nearest to its decimal: its distance, in units, is at most half of
  the last place.
\<close>

lemma f32_consts_nearest:
  "2 * \<bar>10 * f32_0_1 - 1 * 2 ^ 149\<bar> \<le> 10 * 2 ^ 122"
  "2 * \<bar>10 * f32_0_2 - 2 * 2 ^ 149\<bar> \<le> 10 * 2 ^ 123"
  "2 * \<bar>10 * f32_0_3 - 3 * 2 ^ 149\<bar> \<le> 10 * 2 ^ 124"
  "2 * \<bar>10 * f32_0_4 - 4 * 2 ^ 149\<bar> \<le> 10 * 2 ^ 124"
  "10 * f32_0_5 = 5 * 2 ^ 149"
  "2 * \<bar>10 * f32_0_6 - 6 * 2 ^ 149\<bar> \<le> 10 * 2 ^ 125"
  "2 * \<bar>10 * f32_0_7 - 7 * 2 ^ 149\<bar> \<le> 10 * 2 ^ 125"
  "2 * \<bar>10 * f32_0_8 - 8 * 2 ^ 149\<bar> \<le> 10 * 2 ^ 125"
  by (simp_all add: f32_consts)

lemma f64_consts_nearest:
  "2 * \<bar>10 * f64_0_7 - 7 * 2 ^ 1074\<bar> \<le> 10 * 2 ^ 1022"
  "2 * \<bar>10 * f64_0_3 - 3 * 2 ^ 1074\<bar> \<le> 10 * 2 ^ 1020"
  by (simp_all add: f64_0_7_def f64_0_3_def)

section \<open>Rounding is monotone\<close>

lemma div_round_bounds: "n div 2 ^ k \<le> div_round n k \<and> div_round n k \<le> n div 2 ^ k + 1"
  by (simp add: div_round_def Let_def)

lemma div_round_mono: "m \<le> n \<Longrightarrow> div_round m k \<le> div_round n k"
proof -
  assume le: "m \<le> n"
  then have q: "m div 2 ^ k \<le> n div 2 ^ k" by (intro zdiv_mono1) auto
  show ?thesis
  proof (cases "m div 2 ^ k = n div 2 ^ k")
    case True
    with le have "m mod 2 ^ k \<le> n mod 2 ^ k"
      by (metis add_le_cancel_left div_mult_mod_eq)
    with True show ?thesis by (auto simp: div_round_def Let_def)
  next
    case False
    with q have "m div 2 ^ k + 1 \<le> n div 2 ^ k" by simp
    with div_round_bounds [of m k] div_round_bounds [of n k] show ?thesis by linarith
  qed
qed

end
