(* ===== verification/Intent.thy ===== *)
theory Intent
  imports Json Go_Float
begin

text \<open>
  \<open>internal/intent/cognition.go\<close>: the operational intents, the engine that infers one from a
  message, the dispatch decision, and the text forms of an intent.

  The language-model call is a stub in the source (it returns an error on every path), so the
  inference is the pattern analysis \<open>fallback_analysis\<close>. Its eight pattern lists are searched
  in the order of the source; the first list with a hit decides. Records and functions keep the
  source's names; a pointer that may be nil is an \<open>option\<close>.
\<close>

section \<open>Data\<close>

datatype intent_type =
    IntentUnknown
  | IntentInvestigation
  | IntentExecution
  | IntentPlanning
  | IntentPrioritization
  | IntentBlocking
  | IntentAuditing
  | IntentClarification
  | IntentAcknowledgment

record intent =
  it_type :: intent_type
  confidence :: float64
  reasoning :: string
  it_task :: string
  should_execute :: bool
  should_stop :: bool
  urgency :: string
  sensitivity :: string
  inferred_from :: "string list"

definition zero_intent :: intent where
  "zero_intent = \<lparr>it_type = IntentUnknown, confidence = 0, reasoning = [], it_task = [],
     should_execute = False, should_stop = False, urgency = [], sensitivity = [],
     inferred_from = []\<rparr>"

record message =
  msg_role :: string
  msg_content :: string
  msg_time :: int

record finding =
  fi_title :: string
  fi_severity :: string
  fi_evidence :: string

record execution_state =
  ex_task_id :: string
  ex_status :: string
  ex_start_time :: int
  ex_description :: string

record execution_context =
  ctx_repository :: string
  recent_findings :: "finding list"
  active_executions :: "execution_state list"
  conversational_history :: "message list"
  operational_state :: string
  roadmap_state :: string
  last_intent :: "intent option"

record cognition_config =
  openai_api_key :: string
  openai_base_url :: string
  openai_model :: string
  anthropic_api_key :: string
  use_anthropic :: bool

definition new_cognition_config :: "environ \<Rightarrow> cognition_config res" where
  "new_cognition_config env =
     (let c = \<lparr>openai_api_key = getenv env ''OPENAI_API_KEY'',
               openai_base_url = getenv env ''OPENAI_BASE_URL'',
               openai_model = getenv env ''OPENAI_MODEL'',
               anthropic_api_key = getenv env ''ANTHROPIC_API_KEY'',
               use_anthropic = False\<rparr>;
          c = (if anthropic_api_key c \<noteq> [] then c\<lparr>use_anthropic := True\<rparr> else c);
          c = (if openai_model c = [] then c\<lparr>openai_model := ''gpt-4''\<rparr> else c)
      in Inr c)"

text \<open>The engine: its configuration and whether an embedding client was made.\<close>

record cognition_engine =
  ce_config :: cognition_config
  ce_embedding :: bool

definition new_cognition_engine :: "environ \<Rightarrow> cognition_engine res" where
  "new_cognition_engine env =
     (case new_cognition_config env of
        Inl e \<Rightarrow> Inl e
      | Inr c \<Rightarrow> Inr \<lparr>ce_config = c, ce_embedding = (openai_api_key c \<noteq> [])\<rparr>)"

section \<open>Text forms of the intent types\<close>

fun intent_type_string :: "intent_type \<Rightarrow> string" where
  "intent_type_string IntentInvestigation = ''INVESTIGATION''"
| "intent_type_string IntentExecution = ''EXECUTION''"
| "intent_type_string IntentPlanning = ''PLANNING''"
| "intent_type_string IntentPrioritization = ''PRIORITIZATION''"
| "intent_type_string IntentBlocking = ''BLOCKING''"
| "intent_type_string IntentAuditing = ''AUDITING''"
| "intent_type_string IntentClarification = ''CLARIFICATION''"
| "intent_type_string IntentAcknowledgment = ''ACKNOWLEDGMENT''"
| "intent_type_string IntentUnknown = ''UNKNOWN''"

definition to_intent_type :: "unicode_tables \<Rightarrow> string \<Rightarrow> intent_type" where
  "to_intent_type u s =
     (let t = to_upper u s in
      if t = ''INVESTIGATION'' then IntentInvestigation
      else if t = ''EXECUTION'' then IntentExecution
      else if t = ''PLANNING'' then IntentPlanning
      else if t = ''PRIORITIZATION'' then IntentPrioritization
      else if t = ''BLOCKING'' then IntentBlocking
      else if t = ''AUDITING'' then IntentAuditing
      else if t = ''CLARIFICATION'' then IntentClarification
      else if t = ''ACKNOWLEDGMENT'' then IntentAcknowledgment
      else IntentUnknown)"

definition marshal_intent_type :: "intent_type \<Rightarrow> json" where
  "marshal_intent_type t = JStr (intent_type_string t)"

text \<open>\<open>UnmarshalJSON\<close>: on an error the target keeps its value.\<close>

definition unmarshal_intent_type ::
    "unicode_tables \<Rightarrow> json_lib \<Rightarrow> string \<Rightarrow> intent_type \<Rightarrow> intent_type \<times> goerr option" where
  "unmarshal_intent_type u L data i =
     (case unmarshal L dec_string data [] of
        (s, Some e) \<Rightarrow> (i, Some e)
      | (s, None) \<Rightarrow> (to_intent_type u s, None))"

section \<open>Pattern analysis\<close>

definition blocking_patterns :: "string list" where
  "blocking_patterns =
     [''pare'', ''pare agora'', ''pare a execucao'', ''cancele'',
      ''interrompa'', ''nao continue'', ''pare com isso'',
      ''stop'', ''cancel'', ''halt'', ''abort'', ''never mind'',
      ''forget it'', ''desista'', ''abortar'']"

definition investigation_patterns :: "string list" where
  "investigation_patterns =
     [''investigue'', ''apenas analise'', ''nao execute'', ''nao modifique'',
      ''nao faca nada'', ''analise primeiro'', ''somente analise'',
      ''understand'', ''investigate first'', ''just analyze'',
      ''don't change anything'', ''don't modify'', ''don't execute'',
      ''only look'', ''only check'', ''just check'',
      ''quiero entender'', ''analizar'', ''solo analizar'']"

definition auditing_patterns :: "string list" where
  "auditing_patterns =
     [''audite'', ''review'', ''inspecione'', ''verifique'',
      ''revise o codigo'', ''veja o que tem'', ''check'',
      ''what's the state'', ''current status'', ''what's wrong'']"

definition execution_patterns :: "string list" where
  "execution_patterns =
     [''corrija'', ''correto'', ''corrigido'', ''corrigir'',
      ''execute'', ''executar'', ''rode'', ''rodar'',
      ''implemente'', ''implementar'', ''fa'' @ encode_rune 0xE7 @ ''a'', ''fazer'',
      ''aplique'', ''aplicar'', ''fix'', ''fix it'',
      ''make it work'', ''estabilize'', ''resolve'', ''resolva'',
      ''agora'', ''imediatamente'', ''right now'', ''now'',
      ''precisa ser'', ''tem que ser'', ''must be'',
      ''pode executar'', ''can execute'', ''go ahead'']"

definition planning_patterns :: "string list" where
  "planning_patterns =
     [''como fazer'', ''como proceder'', ''roadmap'', ''estrategia'',
      ''what should we do'', ''next steps'', ''plan'', ''planning'',
      ''caminho'', ''direction'', ''path forward'']"

definition prioritization_patterns :: "string list" where
  "prioritization_patterns =
     [''prioridade'', ''o que importa'', ''mais importante'',
      ''priority'', ''what matters'', ''sequence'', ''order'']"

definition clarification_patterns :: "string list" where
  "clarification_patterns =
     [''como'', ''oq'', ''o que e'', ''explique'',
      ''explain'', ''what is'', ''what does'',
      ''mais detalhes'', ''more details'', ''elaborate'']"

definition acknowledgment_patterns :: "string list" where
  "acknowledgment_patterns =
     [''ok'', ''entendi'', ''entendido'', ''confirmado'', ''sim'', ''yes'',
      ''understood'', ''confirmed'', ''roger'', ''got it'']"

text \<open>The execution loop skips a hit (\<open>continue\<close>) while the message holds a negation.\<close>

definition negated :: "string \<Rightarrow> bool" where
  "negated lower \<longleftrightarrow> contains lower ''nao '' \<and> \<not> contains lower ''nao execute''"

fun execution_scan :: "string \<Rightarrow> string list \<Rightarrow> string option" where
  "execution_scan lower [] = None"
| "execution_scan lower (p # ps) =
     (if contains lower p then
        if negated lower then execution_scan lower ps else Some p
      else execution_scan lower ps)"

text \<open>The acknowledgment loop wants the whole message, or the pattern with a full stop or a bang.\<close>

definition acknowledges :: "string \<Rightarrow> string \<Rightarrow> bool" where
  "acknowledges lower p \<longleftrightarrow>
     lower = p \<or> has_prefix lower (p @ ''.'') \<or> has_prefix lower (p @ ''!'')"

definition quoted :: "string \<Rightarrow> string \<Rightarrow> string" where
  "quoted text p = text @ squote @ p @ squote"

definition fallback_analysis :: "unicode_tables \<Rightarrow> string \<Rightarrow> intent res" where
  "fallback_analysis u msg =
     (let lower = to_lower u msg;
          it = zero_intent\<lparr>confidence := f64_0_7, inferred_from := [''message_content'', ''context'']\<rparr>
      in case first_hit lower blocking_patterns of
        Some p \<Rightarrow>
          Inr (it\<lparr>it_type := IntentBlocking,
                 reasoning := quoted ''User explicitly requested to stop: '' p,
                 should_stop := True, should_execute := False\<rparr>)
      | None \<Rightarrow> (case first_hit lower investigation_patterns of
        Some p \<Rightarrow>
          Inr (it\<lparr>it_type := IntentInvestigation,
                 reasoning := quoted ''User explicitly requested analysis only: '' p,
                 should_execute := False, should_stop := False\<rparr>)
      | None \<Rightarrow> (case first_hit lower auditing_patterns of
        Some p \<Rightarrow>
          Inr (it\<lparr>it_type := IntentAuditing,
                 reasoning := quoted ''User requested inspection: '' p, should_execute := False\<rparr>)
      | None \<Rightarrow> (case execution_scan lower execution_patterns of
        Some p \<Rightarrow>
          Inr (it\<lparr>it_type := IntentExecution,
                 reasoning := quoted ''User requested execution: '' p,
                 should_execute := True, should_stop := False,
                 urgency := (if contains lower ''agora'' \<or> contains lower ''imediatamente'' \<or>
                                contains lower ''right now'' then ''high'' else urgency it)\<rparr>)
      | None \<Rightarrow> (case first_hit lower planning_patterns of
        Some p \<Rightarrow>
          Inr (it\<lparr>it_type := IntentPlanning,
                 reasoning := quoted ''User requested planning: '' p, should_execute := False\<rparr>)
      | None \<Rightarrow> (case first_hit lower prioritization_patterns of
        Some p \<Rightarrow>
          Inr (it\<lparr>it_type := IntentPrioritization,
                 reasoning := quoted ''User requested prioritization: '' p,
                 should_execute := False\<rparr>)
      | None \<Rightarrow> (case first_hit lower clarification_patterns of
        Some p \<Rightarrow>
          Inr (it\<lparr>it_type := IntentClarification,
                 reasoning := quoted ''User requested clarification: '' p,
                 should_execute := False\<rparr>)
      | None \<Rightarrow> (case List.find (acknowledges lower) acknowledgment_patterns of
        Some p \<Rightarrow>
          Inr (it\<lparr>it_type := IntentAcknowledgment,
                 reasoning := quoted ''User acknowledged: '' p, should_execute := False\<rparr>)
      | None \<Rightarrow>
          Inr (it\<lparr>it_type := IntentClarification,
                 reasoning := ''Intent unclear from message content'',
                 confidence := f64_0_3, should_execute := False\<rparr>)))))))))"


section \<open>The cognition engine\<close>

definition cognition_prompt_head :: string where
  "cognition_prompt_head =
     ''Analyze this operational message and determine what the user wants to happen.'' @ nl @
     [CHR 0x09] @ nl @ ''Message: '' @ dquote"

definition cognition_prompt_tail :: string where
  "cognition_prompt_tail = nl @ nl @ lines
     [''Determine the operational intent by selecting ONE of:'',
      ''- INVESTIGATION: analyze, investigate, understand, but DO NOT execute anything'',
      ''- EXECUTION: fix, apply, correcao, execute, implement, stabilize, make it work'',
      ''- PLANNING: roadmap, path forward, strategy, how to proceed'',
      ''- PRIORITIZATION: what matters most, urgency, sequence'',
      ''- BLOCKING: stop, cancel, halt, interrupt current execution'',
      ''- AUDITING: inspect, review, check repository state'',
      ''- CLARIFICATION: explain, elaborate, more details'',
      ''- ACKNOWLEDGMENT: ok, understood, confirmed'',
      [],
      ''Respond in JSON format:'',
      ''{'',
      ''  '' @ dquote @ ''intent'' @ dquote @ '': '' @ dquote
        @ ''INVESTIGATION|EXECUTION|PLANNING|PRIORITIZATION|BLOCKING|AUDITING|CLARIFICATION|''
        @ ''ACKNOWLEDGMENT'' @ dquote @ '','',
      ''  '' @ dquote @ ''confidence'' @ dquote @ '': 0.0-1.0,'',
      ''  '' @ dquote @ ''reasoning'' @ dquote @ '': '' @ dquote @ ''why you chose this intent''
        @ dquote @ '','',
      ''  '' @ dquote @ ''task'' @ dquote @ '': '' @ dquote
        @ ''what specifically needs to happen (if any)'' @ dquote @ '','',
      ''  '' @ dquote @ ''should_execute'' @ dquote @ '': true|false,'',
      ''  '' @ dquote @ ''should_stop'' @ dquote @ '': true|false,'',
      ''  '' @ dquote @ ''urgency'' @ dquote @ '': '' @ dquote @ ''low|medium|high|critical'' @ dquote,
      ''}'']"

definition prompt_context :: "execution_context \<Rightarrow> string" where
  "prompt_context ctx =
     nl @ ''- Repository: '' @ ctx_repository ctx @
     (if operational_state ctx \<noteq> []
      then nl @ ''- Operational State: '' @ operational_state ctx else []) @
     (if roadmap_state ctx \<noteq> [] then nl @ ''- Roadmap State: '' @ roadmap_state ctx else []) @
     (if recent_findings ctx \<noteq> []
      then nl @ ''- Recent Findings:'' @
        concat (map (\<lambda>f. nl @ ''  * ['' @ fi_severity f @ ''] '' @ fi_title f)
                    (take 3 (recent_findings ctx)))
      else []) @
     (if active_executions ctx \<noteq> []
      then nl @ ''- Active Executions:'' @
        concat (map (\<lambda>ex. nl @ ''  * '' @ ex_description ex @ '' ('' @ ex_status ex @ '')'')
                    (active_executions ctx))
      else []) @
     (case last_intent ctx of
        None \<Rightarrow> []
      | Some it \<Rightarrow>
          nl @ ''- Last Intent: '' @ intent_type_string (it_type it) @ '' ('' @ reasoning it @ '')'')"

definition build_cognition_prompt :: "string \<Rightarrow> execution_context option \<Rightarrow> string" where
  "build_cognition_prompt msg ctx =
     cognition_prompt_head @ msg @ dquote @ nl @ nl @ ''Operational Context:'' @
     (case ctx of None \<Rightarrow> [] | Some c \<Rightarrow> prompt_context c) @
     cognition_prompt_tail"

text \<open>The stub: an error with and without a configured key.\<close>

definition classify_with_llm :: "cognition_engine \<Rightarrow> string \<Rightarrow> intent res" where
  "classify_with_llm e prompt =
     (if openai_api_key (ce_config e) = [] \<and> \<not> use_anthropic (ce_config e)
      then Inl ''no LLM API key configured''
      else Inl ''LLM API not available in this context'')"

definition infer_intent ::
    "unicode_tables \<Rightarrow> cognition_engine \<Rightarrow> string \<Rightarrow> execution_context option \<Rightarrow> intent res" where
  "infer_intent u e msg ctx =
     (case classify_with_llm e (build_cognition_prompt msg ctx) of
        Inl _ \<Rightarrow> fallback_analysis u msg
      | Inr it \<Rightarrow> Inr it)"

text \<open>
  \<open>InferWithContext\<close> classifies the user messages among the last three of the history and drops
  the results.
\<close>

definition recent_user_intents ::
    "unicode_tables \<Rightarrow> execution_context \<Rightarrow> intent res list" where
  "recent_user_intents u ctx =
     map (\<lambda>m. fallback_analysis u (msg_content m))
       (filter (\<lambda>m. msg_role m = ''user'') (keep_last 3 (conversational_history ctx)))"

definition infer_with_context ::
    "unicode_tables \<Rightarrow> cognition_engine \<Rightarrow> string \<Rightarrow> execution_context option \<Rightarrow> intent res" where
  "infer_with_context u e msg ctx =
     (let prev = (case ctx of None \<Rightarrow> [] | Some c \<Rightarrow> recent_user_intents u c)
      in infer_intent u e msg ctx)"

section \<open>The dispatch decision\<close>

definition is_running :: "string \<Rightarrow> bool" where
  "is_running st \<longleftrightarrow> st = ''RUNNING'' \<or> st = ''IN_PROGRESS''"

definition should_dispatch :: "intent option \<Rightarrow> execution_context option \<Rightarrow> bool \<times> string" where
  "should_dispatch iopt ctx =
     (case iopt of
        None \<Rightarrow> (False, ''no intent inferred'')
      | Some it \<Rightarrow>
          if should_stop it then (False, ''user requested blocking'')
          else if \<not> should_execute it
          then (False, ''intent is '' @ intent_type_string (it_type it) @ '', not execution'')
          else if (case ctx of None \<Rightarrow> False
                   | Some c \<Rightarrow> list_ex (\<lambda>ex. is_running (ex_status ex)) (active_executions c))
          then (if it_type it = IntentBlocking then (True, ''stopping active execution'')
                else (False, ''execution already in progress''))
          else (True, if it_task it = [] then ''Execute the requested operational task''
                      else it_task it))"

section \<open>Display and JSON\<close>

definition format_intent :: "intent option \<Rightarrow> string" where
  "format_intent iopt =
     (case iopt of
        None \<Rightarrow> ''Intent: unknown''
      | Some it \<Rightarrow>
          ''Intent: '' @ intent_type_string (it_type it) @
          '' ('' @ show_f0 (f64_mul_nat (confidence it) 100) @ ''% confidence)'' @
          (if reasoning it \<noteq> [] then nl @ ''Reasoning: '' @ reasoning it else []) @
          (if should_execute it then nl @ encode_rune 0x2192 @ '' Will execute'' else []) @
          (if should_stop it then nl @ encode_rune 0x2192 @ '' Will stop'' else []) @
          (if urgency it \<noteq> [] then nl @ ''Urgency: '' @ urgency it else []))"

text \<open>
  \<open>NewIntentFromJSON\<close> decodes a struct and converts the type name. How a JSON number becomes a
  \<open>float64\<close> is \<open>strconv.ParseFloat\<close>, the parameter \<open>pf\<close> (no value for an overflow).
\<close>

record intent_json =
  ij_intent :: string
  ij_confidence :: float64
  ij_reasoning :: string
  ij_task :: string
  ij_should_execute :: bool
  ij_should_stop :: bool
  ij_urgency :: string

definition zero_intent_json :: intent_json where
  "zero_intent_json = \<lparr>ij_intent = [], ij_confidence = 0, ij_reasoning = [], ij_task = [],
     ij_should_execute = False, ij_should_stop = False, ij_urgency = []\<rparr>"

fun dec_float :: "(string \<Rightarrow> float64 option) \<Rightarrow> float64 decoder" where
  "dec_float pf (JNum l) old = (case pf l of Some x \<Rightarrow> (x, False) | None \<Rightarrow> (old, True))"
| "dec_float pf JNull old = (old, False)"
| "dec_float pf _ old = (old, True)"

definition intent_json_names :: "string list" where
  "intent_json_names = [''intent'', ''confidence'', ''reasoning'', ''task'', ''should_execute'',
     ''should_stop'', ''urgency'']"

definition set_intent_json ::
    "(string \<Rightarrow> float64 option) \<Rightarrow> string \<Rightarrow> intent_json decoder" where
  "set_intent_json pf n v s =
     (if n = ''intent'' then (let (x, e) = dec_string v (ij_intent s) in (s\<lparr>ij_intent := x\<rparr>, e))
      else if n = ''confidence'' then
        (let (x, e) = dec_float pf v (ij_confidence s) in (s\<lparr>ij_confidence := x\<rparr>, e))
      else if n = ''reasoning'' then
        (let (x, e) = dec_string v (ij_reasoning s) in (s\<lparr>ij_reasoning := x\<rparr>, e))
      else if n = ''task'' then (let (x, e) = dec_string v (ij_task s) in (s\<lparr>ij_task := x\<rparr>, e))
      else if n = ''should_execute'' then
        (let (x, e) = dec_bool v (ij_should_execute s) in (s\<lparr>ij_should_execute := x\<rparr>, e))
      else if n = ''should_stop'' then
        (let (x, e) = dec_bool v (ij_should_stop s) in (s\<lparr>ij_should_stop := x\<rparr>, e))
      else (let (x, e) = dec_string v (ij_urgency s) in (s\<lparr>ij_urgency := x\<rparr>, e)))"

definition new_intent_from_json ::
    "unicode_tables \<Rightarrow> json_lib \<Rightarrow> (string \<Rightarrow> float64 option) \<Rightarrow> string \<Rightarrow> intent res" where
  "new_intent_from_json u L pf data =
     (case unmarshal L (dec_struct (set_intent_json pf) intent_json_names) data zero_intent_json of
        (r, Some e) \<Rightarrow> Inl e
      | (r, None) \<Rightarrow>
          Inr (zero_intent\<lparr>it_type := to_intent_type u (ij_intent r),
                 confidence := ij_confidence r, reasoning := ij_reasoning r,
                 it_task := ij_task r, should_execute := ij_should_execute r,
                 should_stop := ij_should_stop r, urgency := ij_urgency r\<rparr>))"

text \<open>The intent types are ordered as their Go constants (\<open>iota\<close>).\<close>

fun intent_type_code :: "intent_type \<Rightarrow> nat" where
  "intent_type_code IntentUnknown = 0"
| "intent_type_code IntentInvestigation = 1"
| "intent_type_code IntentExecution = 2"
| "intent_type_code IntentPlanning = 3"
| "intent_type_code IntentPrioritization = 4"
| "intent_type_code IntentBlocking = 5"
| "intent_type_code IntentAuditing = 6"
| "intent_type_code IntentClarification = 7"
| "intent_type_code IntentAcknowledgment = 8"

lemma intent_type_code_inject: "intent_type_code a = intent_type_code b \<longleftrightarrow> a = b"
  by (cases a; cases b) simp_all

instantiation intent_type :: linorder
begin

definition less_eq_intent_type :: "intent_type \<Rightarrow> intent_type \<Rightarrow> bool" where
  "less_eq_intent_type a b = (intent_type_code a \<le> intent_type_code b)"

definition less_intent_type :: "intent_type \<Rightarrow> intent_type \<Rightarrow> bool" where
  "less_intent_type a b = (intent_type_code a < intent_type_code b)"

instance
  by standard
    (auto simp: less_eq_intent_type_def less_intent_type_def intent_type_code_inject)

end

section \<open>What the analysis decides\<close>

text \<open>
  The specification of the analysis: the kinds of intent in the order of their priority, each
  with the condition on the lower-cased message. It has no loop, no negation escape and no
  text.
\<close>

definition intent_spec :: "string \<Rightarrow> intent_type" where
  "intent_spec lower =
     (if contains_any lower blocking_patterns then IntentBlocking
      else if contains_any lower investigation_patterns then IntentInvestigation
      else if contains_any lower auditing_patterns then IntentAuditing
      else if contains_any lower execution_patterns \<and> \<not> contains lower ''nao '' then IntentExecution
      else if contains_any lower planning_patterns then IntentPlanning
      else if contains_any lower prioritization_patterns then IntentPrioritization
      else if contains_any lower clarification_patterns then IntentClarification
      else if list_ex (acknowledges lower) acknowledgment_patterns then IntentAcknowledgment
      else IntentClarification)"

lemma execution_scan_eq:
  "execution_scan lower ps = (if negated lower then None else first_hit lower ps)"
  by (induction ps) (simp_all add: first_hit_def)

lemma nao_execute_investigates: "contains lower ''nao execute'' \<Longrightarrow> contains_any lower investigation_patterns"
  by (rule contains_anyI [of "''nao execute''"]) (simp_all add: investigation_patterns_def)

lemma negated_iff:
  "\<not> contains_any lower investigation_patterns \<Longrightarrow> negated lower \<longleftrightarrow> contains lower ''nao ''"
  using nao_execute_investigates by (auto simp: negated_def)

lemma find_list_ex: "list_ex P xs \<longleftrightarrow> List.find P xs \<noteq> None"
  by (auto simp: find_None_iff list_ex_iff)

lemma zero_intent_flags [simp]:
  "should_execute zero_intent = False" "should_stop zero_intent = False" "it_task zero_intent = []"
  "urgency zero_intent = []"
  by (simp_all add: zero_intent_def)

text \<open>One walk through the branches of the analysis carries all its properties.\<close>

lemma fallback_branches:
  fixes u msg
  defines "l \<equiv> to_lower u msg"
  shows "\<exists>it. fallback_analysis u msg = Inr it \<and> it_type it = intent_spec l \<and>
    (should_execute it \<longleftrightarrow> it_type it = IntentExecution) \<and>
    (should_stop it \<longleftrightarrow> it_type it = IntentBlocking) \<and> it_task it = []"
proof -
  have ca: "contains_any l ps \<longleftrightarrow> first_hit l ps \<noteq> None" for ps by (simp add: first_hit_None)
  have ex: "execution_scan l execution_patterns =
      (if contains l ''nao '' then None else first_hit l execution_patterns)"
    if "first_hit l investigation_patterns = None"
    using that negated_iff [of l] ca by (simp add: execution_scan_eq)
  show ?thesis
    unfolding fallback_analysis_def Let_def l_def [symmetric]
      intent_spec_def [of l, unfolded ca find_list_ex]
    by (cases "first_hit l blocking_patterns",
        cases "first_hit l investigation_patterns",
        cases "first_hit l auditing_patterns",
        cases "contains l ''nao ''",
        cases "first_hit l planning_patterns",
        cases "first_hit l prioritization_patterns",
        cases "first_hit l clarification_patterns",
        cases "List.find (acknowledges l) acknowledgment_patterns",
        simp_all add: ex)
     (cases "first_hit l execution_patterns",
        cases "first_hit l planning_patterns",
        cases "first_hit l prioritization_patterns",
        cases "first_hit l clarification_patterns",
        cases "List.find (acknowledges l) acknowledgment_patterns",
        simp_all)
qed

lemma fallback_facts:
  assumes "fallback_analysis u msg = Inr it"
  shows "it_type it = intent_spec (to_lower u msg)"
    and "should_execute it \<longleftrightarrow> it_type it = IntentExecution"
    and "should_stop it \<longleftrightarrow> it_type it = IntentBlocking"
    and "it_task it = []"
  using fallback_branches [of u msg] assms by auto

lemma infer_intent_fallback: "infer_intent u e msg ctx = fallback_analysis u msg"
  by (simp add: infer_intent_def classify_with_llm_def)

lemma fallback_total: "\<exists>it. fallback_analysis u msg = Inr it"
  using fallback_branches [of u msg] by auto

lemma spec_execution:
  "intent_spec lower = IntentExecution \<Longrightarrow>
     \<not> contains lower ''nao '' \<and> \<not> contains_any lower blocking_patterns \<and>
     \<not> contains_any lower investigation_patterns"
  by (simp add: intent_spec_def split: if_splits)

lemma spec_blocking: "intent_spec lower = IntentBlocking \<longleftrightarrow> contains_any lower blocking_patterns"
  by (simp add: intent_spec_def)

section \<open>Properties\<close>

text \<open>
  C3. The pattern analysis refines its specification: on every message it returns an intent,
  never an error, whose type is the priority table's answer for the lower-cased message; it asks
  for execution exactly when the type is Execution and for a stop exactly when it is Blocking,
  and it never fills in a task. The loops of the code with their early returns, and the
  \<open>continue\<close> on a negation, decide the same as the table.
\<close>

theorem fallback_refines_spec:
  "\<exists>it. fallback_analysis u msg = Inr it \<and>
     it_type it = intent_spec (to_lower u msg) \<and>
     (should_execute it \<longleftrightarrow> it_type it = IntentExecution) \<and>
     (should_stop it \<longleftrightarrow> it_type it = IntentBlocking) \<and> it_task it = []"
  using fallback_branches [of u msg] by auto

text \<open>
  C1. A negated message never executes: whatever else a message says, if it holds the word
  "nao " the inferred intent does not ask for execution. (The code exempts "nao execute" from
  its negation test; those messages are classified earlier.) The result holds for the engine's
  entry point with any context and any configuration.
\<close>

theorem negation_never_executes:
  assumes "contains (to_lower u msg) ''nao ''"
    and "infer_with_context u e msg ctx = Inr it"
  shows "\<not> should_execute it"
  using assms spec_execution [of "to_lower u msg"]
  by (auto simp: infer_with_context_def infer_intent_fallback Let_def fallback_facts)

text \<open>A small engine, for concrete runs.\<close>

definition offline_engine :: cognition_engine where
  "offline_engine =
     \<lparr>ce_config = \<lparr>openai_api_key = [], openai_base_url = [], openai_model = ''gpt-4'',
        anthropic_api_key = [], use_anthropic = False\<rparr>, ce_embedding = False\<rparr>"

theorem negation_never_executes_witness:
  "\<exists>it. infer_with_context ascii_tables offline_engine ''Nao corrija o build'' None = Inr it \<and>
     \<not> should_execute it"
proof -
  let ?m = "''Nao corrija o build''"
  have "contains (to_lower ascii_tables ?m) ''nao ''" by code_simp
  moreover obtain it where it: "infer_with_context ascii_tables offline_engine ?m None = Inr it"
    using fallback_total [of ascii_tables ?m]
    by (auto simp: infer_with_context_def infer_intent_fallback Let_def)
  ultimately have "\<not> should_execute it" by (rule negation_never_executes)
  with it show ?thesis by blast
qed

text \<open>
  The negation test knows one spelling: the same request with the accent (n U+00E3 o), as
  Portuguese writes it, is inferred as an execution. The only fact used about the case table
  is that U+00E3 is its own lower case.
\<close>

theorem accented_negation_executes:
  assumes "uni_lower u 0xE3 = 0xE3"
  shows "\<exists>it. fallback_analysis u (''n'' @ encode_rune 0xE3 @ ''o corrija o build'') = Inr it \<and>
    it_type it = IntentExecution \<and> should_execute it"
proof -
  let ?m = "''n'' @ encode_rune 0xE3 @ ''o corrija o build''"
  have "runes ?m = [110, 0xE3, 111, 32, 99, 111, 114, 114, 105, 106, 97, 32, 111, 32, 98, 117, 105, 108, 100]"
    by code_simp
  then have "to_lower u ?m = ?m"
    using assms by (simp add: to_lower_def rune_lower_def) code_simp
  moreover have "intent_spec ?m = IntentExecution" by code_simp
  ultimately show ?thesis using fallback_branches [of u ?m] by auto
qed

theorem accented_negation_executes_witness:
  "\<exists>it. fallback_analysis ascii_tables (''n'' @ encode_rune 0xE3 @ ''o corrija o build'') = Inr it \<and>
    should_execute it"
  using accented_negation_executes [of ascii_tables] by (auto simp: ascii_tables_def)

lemma infer_with_context_fallback: "infer_with_context u e msg ctx = fallback_analysis u msg"
  by (simp add: infer_with_context_def infer_intent_fallback Let_def)

text \<open>
  C2. Dispatching an inferred intent is safe: when the engine's own intent for a message is
  dispatched, the message holds no blocking and no investigation pattern and no negation, no
  execution of the context is running, and the dispatched task is the fixed default text,
  never the message.
\<close>

theorem dispatch_safe:
  assumes "infer_with_context u e msg ctx = Inr it"
    and "should_dispatch (Some it) ctx = (True, task)"
  shows "it_type it = IntentExecution \<and>
    \<not> contains_any (to_lower u msg) blocking_patterns \<and>
    \<not> contains_any (to_lower u msg) investigation_patterns \<and>
    \<not> contains (to_lower u msg) ''nao '' \<and>
    (case ctx of None \<Rightarrow> True
     | Some c \<Rightarrow> list_all (\<lambda>ex. \<not> is_running (ex_status ex)) (active_executions c)) \<and>
    task = ''Execute the requested operational task''"
proof -
  note f = fallback_facts [OF assms(1) [unfolded infer_with_context_fallback]]
  have "should_execute it" using assms(2) by (auto simp: should_dispatch_def split: if_splits)
  then have ty: "it_type it = IntentExecution" using f(2) by simp
  with f(1) have "intent_spec (to_lower u msg) = IntentExecution" by simp
  note spec_execution [OF this]
  with ty f(4) assms(2) show ?thesis
    by (auto simp: should_dispatch_def list_all_iff list_ex_iff split: option.splits if_splits)
qed

theorem dispatch_safe_witness:
  "\<exists>it. fallback_analysis ascii_tables ''fix the linter'' = Inr it \<and>
     should_dispatch (Some it) None = (True, ''Execute the requested operational task'') \<and>
     it_type it = IntentExecution"
proof -
  let ?m = "''fix the linter''"
  obtain it where it: "fallback_analysis ascii_tables ?m = Inr it"
    using fallback_total by blast
  have "intent_spec (to_lower ascii_tables ?m) = IntentExecution" by code_simp
  with fallback_facts [OF it]
  have d: "should_dispatch (Some it) None = (True, ''Execute the requested operational task'')"
    by (simp add: should_dispatch_def)
  have "infer_with_context ascii_tables offline_engine ?m None = Inr it"
    using it by (simp add: infer_with_context_fallback)
  from dispatch_safe [OF this d] it d show ?thesis by blast
qed

text \<open>
  The dispatch decision on any intent, the language model's included: it dispatches
  exactly when there is an intent that asks for execution and not for a stop and either no
  execution of the context is running or the intent's type is Blocking; a stop request always
  wins, and a refusal always names its reason.
\<close>

theorem should_dispatch_iff:
  "(fst (should_dispatch iopt ctx) \<longleftrightarrow>
      (\<exists>it. iopt = Some it \<and> should_execute it \<and> \<not> should_stop it \<and>
         (it_type it = IntentBlocking \<or>
          \<not> (\<exists>c ex. ctx = Some c \<and> ex \<in> set (active_executions c) \<and> is_running (ex_status ex))))) \<and>
   snd (should_dispatch iopt ctx) \<noteq> []"
  by (cases iopt; cases ctx) (auto simp: should_dispatch_def list_ex_iff)

definition busy_context :: execution_context where
  "busy_context = \<lparr>ctx_repository = ''o/r'', recent_findings = [],
     active_executions = [\<lparr>ex_task_id = ''t'', ex_status = ''RUNNING'', ex_start_time = 0,
       ex_description = ''d''\<rparr>],
     conversational_history = [], operational_state = [], roadmap_state = [], last_intent = None\<rparr>"

theorem should_dispatch_iff_witness:
  "\<not> fst (should_dispatch (Some (zero_intent\<lparr>it_type := IntentExecution, should_execute := True\<rparr>))
     (Some busy_context))"
  using should_dispatch_iff [of "Some (zero_intent\<lparr>it_type := IntentExecution, should_execute := True\<rparr>)"
      "Some busy_context"]
  by (simp add: busy_context_def is_running_def)

lemma to_upper_type_string:
  "is_ascii s \<Longrightarrow> map ascii_upper s = intent_type_string t \<Longrightarrow> to_intent_type u s = t"
  by (cases t) (simp_all add: to_intent_type_def to_upper_ascii Let_def)

lemma type_string_ascii: "is_ascii (intent_type_string t)"
  by (cases t) simp_all

lemma type_string_upper: "map ascii_upper (intent_type_string t) = intent_type_string t"
  by (cases t) (simp_all add: ascii_upper_def)

text \<open>
  Intent types survive JSON: decoding the text of an encoded type gives the type back and no
  error, whatever the target held before; and the names are read in any case.
\<close>

theorem intent_type_roundtrip:
  assumes "js_parse L data = Inr (marshal_intent_type t)"
  shows "unmarshal_intent_type u L data i = (t, None) \<and>
    (\<forall>s. is_ascii s \<longrightarrow> map ascii_upper s = intent_type_string t \<longrightarrow> to_intent_type u s = t)"
  using assms to_upper_type_string [OF type_string_ascii type_string_upper, of u t]
  by (auto simp: unmarshal_intent_type_def unmarshal_def marshal_intent_type_def
      to_upper_type_string)

definition planning_lib :: json_lib where
  "planning_lib = \<lparr>js_parse = (\<lambda>_. Inr (JStr ''PLANNING'')), js_mismatch = (\<lambda>_. ''mismatch''),
     js_float_ok = (\<lambda>_. True), js_stream = (\<lambda>_. Inl [])\<rparr>"

theorem intent_type_roundtrip_witness:
  "unmarshal_intent_type ascii_tables planning_lib (dquote @ ''PLANNING'' @ dquote) IntentUnknown
     = (IntentPlanning, None) \<and> to_intent_type ascii_tables ''Planning'' = IntentPlanning"
proof -
  have p: "js_parse planning_lib (dquote @ ''PLANNING'' @ dquote)
      = Inr (marshal_intent_type IntentPlanning)"
    by (simp add: planning_lib_def marshal_intent_type_def)
  have "is_ascii ''Planning''" and "map ascii_upper ''Planning'' = intent_type_string IntentPlanning"
    by code_simp+
  then show ?thesis
    using intent_type_roundtrip [OF p, of ascii_tables IntentUnknown] by blast
qed

lemma blocking_wins:
  assumes "contains_any (to_lower u msg) blocking_patterns"
  shows "\<exists>it. fallback_analysis u msg = Inr it \<and> it_type it = IntentBlocking \<and> should_stop it \<and>
    \<not> should_execute it"
proof -
  have "intent_spec (to_lower u msg) = IntentBlocking"
    using assms by (simp add: spec_blocking)
  with fallback_branches [of u msg] show ?thesis by auto
qed

text \<open>
  The patterns are substrings, not words: a message about comparing or preparing something
  holds "pare" and is taken for a request to stop.
\<close>

theorem patterns_match_inside_words:
  assumes "contains (to_lower u msg) ''compare'' \<or> contains (to_lower u msg) ''prepare''"
  shows "\<exists>it. fallback_analysis u msg = Inr it \<and> it_type it = IntentBlocking \<and> should_stop it"
proof -
  have "contains ''compare'' ''pare''" "contains ''prepare'' ''pare''" by simp_all
  with assms have "contains (to_lower u msg) ''pare''" by (auto intro: contains_trans)
  then have "contains_any (to_lower u msg) blocking_patterns"
    by (intro contains_anyI [of "''pare''"]) (simp_all add: blocking_patterns_def)
  from blocking_wins [OF this] show ?thesis by blast
qed

theorem patterns_match_inside_words_witness:
  "\<exists>it. fallback_analysis ascii_tables ''Please compare both branches'' = Inr it \<and>
     it_type it = IntentBlocking"
proof -
  have "contains (to_lower ascii_tables ''Please compare both branches'') ''compare''" by code_simp
  then show ?thesis
    using patterns_match_inside_words [of ascii_tables "''Please compare both branches''"] by blast
qed

end
