(* ===== verification/Net.thy ===== *)
theory Net
  imports Json
begin

text \<open>
  The outside world of the clients: the HTTP transport, the clock, and \<open>net/http.NewRequest\<close>
  with the URL parser it runs.

  A world \<open>'w\<close> is whatever the remote services and the clock are; the record \<open>net\<close> is the
  parameter that acts on it: one HTTP exchange (the network and the service), \<open>time.Now\<close>
  and \<open>time.Sleep\<close>, in nanoseconds. \<open>clock_ok\<close> is what package \<open>time\<close> documents of it: the
  monotonic clock never runs backwards and a sleep lasts at least its duration.
\<close>

record http_request =
  rq_method :: string
  rq_url :: string
  rq_headers :: "(string \<times> string) list"
  rq_body :: "json option"

text \<open>
  A response: the status code, what \<open>io.ReadAll(resp.Body)\<close> yields, and its error if the
  body breaks off.
\<close>

record response =
  status_code :: int
  resp_body :: string
  read_err :: "goerr option"

record 'w net =
  http_do :: "http_request \<Rightarrow> 'w \<Rightarrow> (goerr + response) \<times> 'w"
  time_now :: "'w \<Rightarrow> int \<times> 'w"
  time_sleep :: "int \<Rightarrow> 'w \<Rightarrow> 'w"
  url_err_text :: "string \<Rightarrow> goerr"

definition clock_ok :: "'w net \<Rightarrow> bool" where
  "clock_ok N \<longleftrightarrow>
     (\<forall>w. fst (time_now N w) \<le> fst (time_now N (snd (time_now N w)))) \<and>
     (\<forall>r w. fst (time_now N w) \<le> fst (time_now N (snd (http_do N r w)))) \<and>
     (\<forall>d w. fst (time_now N w) + max 0 d \<le> fst (time_now N (time_sleep N d w)))"

lemma clock_okD:
  assumes "clock_ok N"
  shows "fst (time_now N w) \<le> fst (time_now N (snd (time_now N w)))"
    and "fst (time_now N w) \<le> fst (time_now N (snd (http_do N r w)))"
    and "fst (time_now N w) + max 0 d \<le> fst (time_now N (time_sleep N d w))"
  using assms by (auto simp: clock_ok_def)

definition second :: int where "second = 1000000000"

definition minute :: int where "minute = 60 * second"

section \<open>Request headers\<close>

text \<open>\<open>req.Header.Set\<close> replaces.\<close>

definition set_header :: "string \<Rightarrow> string \<Rightarrow> http_request \<Rightarrow> http_request" where
  "set_header k v r = r\<lparr>rq_headers := AList.update k v (rq_headers r)\<rparr>"

lemma set_header_simps [simp]:
  "rq_method (set_header k v r) = rq_method r"
  "rq_url (set_header k v r) = rq_url r"
  "rq_body (set_header k v r) = rq_body r"
  "rq_headers (set_header k v r) = AList.update k v (rq_headers r)"
  by (simp_all add: set_header_def)

section \<open>net/url.Parse: which URLs are refused\<close>

definition is_hex :: "char \<Rightarrow> bool" where
  "is_hex c \<longleftrightarrow>
     48 \<le> byte c \<and> byte c \<le> 57 \<or> 97 \<le> byte c \<and> byte c \<le> 102 \<or> 65 \<le> byte c \<and> byte c \<le> 70"

text \<open>\<open>unescape\<close> for a path or a fragment: every \<open>%\<close> is followed by two hexadecimal digits.\<close>

fun escapes_ok :: "string \<Rightarrow> bool" where
  "escapes_ok [] = True"
| "escapes_ok (c # s) =
     (if c = CHR ''%'' then
        (case s of a # b # t \<Rightarrow> is_hex a \<and> is_hex b \<and> escapes_ok t | _ \<Rightarrow> False)
      else escapes_ok s)"

text \<open>
  Bytes a host may hold unescaped (\<open>shouldEscape\<close> for \<open>encodeHost\<close>): letters, digits, the
  marks, the sub-delimiters and what parts an address literal.
\<close>

definition host_plain :: "char \<Rightarrow> bool" where
  "host_plain c \<longleftrightarrow>
     48 \<le> byte c \<and> byte c \<le> 57 \<or> 97 \<le> byte c \<and> byte c \<le> 122 \<or> 65 \<le> byte c \<and> byte c \<le> 90 \<or>
     c \<in> set ''-_.~!$&()*+,;=:[]<>'' \<or> c = CHR 0x27 \<or> c = CHR 0x22"

definition hex_val :: "char \<Rightarrow> int" where
  "hex_val c =
     (if 48 \<le> byte c \<and> byte c \<le> 57 then byte c - 48
      else if 97 \<le> byte c then byte c - 87 else byte c - 55)"

fun host_ok :: "string \<Rightarrow> bool" where
  "host_ok [] = True"
| "host_ok (c # s) =
     (if c = CHR ''%'' then
        (case s of
           a # b # t \<Rightarrow> is_hex a \<and> is_hex b \<and> (8 \<le> hex_val a \<or> [a, b] = ''25'') \<and> host_ok t
         | _ \<Rightarrow> False)
      else (0x80 \<le> byte c \<or> host_plain c) \<and> host_ok s)"

definition is_ctl :: "char \<Rightarrow> bool" where
  "is_ctl c \<longleftrightarrow> byte c < 0x20 \<or> byte c = 0x7F"

text \<open>\<open>strings.Cut\<close>: before and after the first separator.\<close>

definition str_cut :: "char \<Rightarrow> string \<Rightarrow> string \<times> string" where
  "str_cut c s = (takeWhile (\<lambda>x. x \<noteq> c) s, tl (dropWhile (\<lambda>x. x \<noteq> c) s))"

definition is_letter :: "char \<Rightarrow> bool" where
  "is_letter c \<longleftrightarrow> 97 \<le> byte c \<and> byte c \<le> 122 \<or> 65 \<le> byte c \<and> byte c \<le> 90"

definition is_digit :: "char \<Rightarrow> bool" where
  "is_digit c \<longleftrightarrow> 48 \<le> byte c \<and> byte c \<le> 57"

definition is_scheme_char :: "char \<Rightarrow> bool" where
  "is_scheme_char c \<longleftrightarrow> is_letter c \<or> is_digit c \<or> c \<in> set ''+-.''"

text \<open>\<open>getScheme\<close>: no result for a URL that starts with a colon.\<close>

definition get_scheme :: "string \<Rightarrow> (string \<times> string) option" where
  "get_scheme raw =
     (case raw of
        [] \<Rightarrow> Some ([], raw)
      | c # _ \<Rightarrow>
          if c = CHR '':'' then None
          else if \<not> is_letter c then Some ([], raw)
          else (case dropWhile is_scheme_char raw of
                  d # t \<Rightarrow> if d = CHR '':'' then Some (takeWhile is_scheme_char raw, t)
                          else Some ([], raw)
                | [] \<Rightarrow> Some ([], raw)))"

text \<open>What follows the last occurrence of a byte, if there is one.\<close>

definition cut_last :: "char \<Rightarrow> string \<Rightarrow> (string \<times> string) option" where
  "cut_last c s =
     (if c \<in> set s
      then Some (rev (tl (dropWhile (\<lambda>x. x \<noteq> c) (rev s))), rev (takeWhile (\<lambda>x. x \<noteq> c) (rev s)))
      else None)"

definition valid_optional_port :: "string \<Rightarrow> bool" where
  "valid_optional_port p \<longleftrightarrow> p = [] \<or> (hd p = CHR '':'' \<and> list_all is_digit (tl p))"

text \<open>\<open>unescape\<close> for the zone of an IPv6 literal.\<close>

fun zone_ok :: "string \<Rightarrow> bool" where
  "zone_ok [] = True"
| "zone_ok (c # s) =
     (if c = CHR ''%'' then
        (case s of
           a # b # t \<Rightarrow>
             is_hex a \<and> is_hex b \<and>
             ([a, b] = ''25'' \<or>
              (let v = chr (16 * hex_val a + hex_val b) in v = CHR '' '' \<or> host_plain v)) \<and>
             zone_ok t
         | _ \<Rightarrow> False)
      else (0x80 \<le> byte c \<or> host_plain c) \<and> zone_ok s)"

text \<open>The first occurrence of \<open>%25\<close> splits host and zone.\<close>

fun before_zone :: "string \<Rightarrow> string" where
  "before_zone [] = []"
| "before_zone (c # s) = (if prefix ''%25'' (c # s) then [] else c # before_zone s)"

definition parse_host_ok :: "string \<Rightarrow> bool" where
  "parse_host_ok h =
     (if prefix ''['' h then
        (case cut_last (CHR '']'') h of
           None \<Rightarrow> False
         | Some (pre, port) \<Rightarrow>
             valid_optional_port port \<and>
             (if contains pre ''%25'' then
                host_ok (before_zone pre) \<and> zone_ok (drop (length (before_zone pre)) pre) \<and>
                host_ok ('']'' @ port)
              else host_ok h))
      else
        (case cut_last (CHR '':'') h of
           None \<Rightarrow> True
         | Some (_, port) \<Rightarrow> valid_optional_port ('':'' @ port)) \<and> host_ok h)"

definition userinfo_char :: "char \<Rightarrow> bool" where
  "userinfo_char c \<longleftrightarrow>
     is_letter c \<or> is_digit c \<or> c \<in> set ''-._:~!$&()*+,;=%@'' \<or> c = CHR 0x27"

definition parse_authority_ok :: "string \<Rightarrow> bool" where
  "parse_authority_ok a =
     (case cut_last (CHR ''@'') a of
        None \<Rightarrow> parse_host_ok a
      | Some (info, host) \<Rightarrow>
          parse_host_ok host \<and> list_all userinfo_char info \<and>
          (if CHR '':'' \<in> set info
           then escapes_ok (fst (str_cut (CHR '':'') info)) \<and> escapes_ok (snd (str_cut (CHR '':'') info))
           else escapes_ok info))"

text \<open>\<open>parse\<close> on what stands before the fragment.\<close>

definition parse_ok :: "string \<Rightarrow> bool" where
  "parse_ok u =
     (\<not> list_ex is_ctl u \<and>
      (u = ''*'' \<or>
       (case get_scheme u of
          None \<Rightarrow> False
        | Some (scheme, rest0) \<Rightarrow>
            (let rest = fst (str_cut (CHR ''?'') rest0) in
             if \<not> prefix ''/'' rest \<and> scheme \<noteq> [] then True
             else if \<not> prefix ''/'' rest \<and> CHR '':'' \<in> set (fst (str_cut (CHR ''/'') rest)) then False
             else if (scheme \<noteq> [] \<or> \<not> prefix ''///'' rest) \<and> prefix ''//'' rest then
               (let auth = drop 2 rest;
                    host = takeWhile (\<lambda>c. c \<noteq> CHR ''/'') auth;
                    path = dropWhile (\<lambda>c. c \<noteq> CHR ''/'') auth
                in parse_authority_ok host \<and> escapes_ok path)
             else escapes_ok rest))))"

text \<open>\<open>url.Parse\<close> cuts the fragment off first; the query is kept raw.\<close>

definition url_parse_ok :: "string \<Rightarrow> bool" where
  "url_parse_ok raw =
     (let (u, frag) = str_cut (CHR ''#'') raw in parse_ok u \<and> escapes_ok frag)"

text \<open>\<open>http.NewRequest\<close>: the methods the clients use are valid, so only the URL can fail.\<close>

definition new_request ::
    "'w net \<Rightarrow> string \<Rightarrow> string \<Rightarrow> json option \<Rightarrow> goerr + http_request" where
  "new_request N method url body =
     (if url_parse_ok url
      then Inr \<lparr>rq_method = method, rq_url = url, rq_headers = [], rq_body = body\<rparr>
      else Inl (url_err_text N url))"

section \<open>Bad escapes are refused\<close>

lemma escapes_ok_after: "CHR ''%'' \<notin> set s \<Longrightarrow> escapes_ok (s @ t) = escapes_ok t"
  by (induction s) auto

lemma takeWhile_notin: "c \<notin> set s \<Longrightarrow> takeWhile (\<lambda>x. x \<noteq> c) s = s"
  by (simp add: takeWhile_eq_all_conv) blast

lemma dropWhile_notin: "c \<notin> set s \<Longrightarrow> dropWhile (\<lambda>x. x \<noteq> c) s = []"
  by (simp add: dropWhile_eq_Nil_conv) blast

lemma str_cut_notin: "c \<notin> set s \<Longrightarrow> str_cut c s = (s, [])"
  by (simp add: str_cut_def takeWhile_notin dropWhile_notin)

lemma escapes_ok_bad:
  "prefix ''%!'' (dropWhile (\<lambda>c. c \<noteq> CHR ''%'') s) \<Longrightarrow> \<not> escapes_ok s"
proof (induction s)
  case Nil
  then show ?case by simp
next
  case (Cons c s)
  show ?case
  proof (cases "c = CHR ''%''")
    case True
    with Cons.prems obtain t where "s = CHR ''!'' # t" by (auto simp: prefix_def)
    with True show ?thesis by (auto simp: is_hex_def split: list.splits)
  next
    case False
    with Cons show ?thesis by simp
  qed
qed

text \<open>A GitHub URL whose first escape is \<open>%!\<close>, as \<open>fmt\<close> writes for a verb of the wrong type.\<close>

lemma get_scheme_https: "get_scheme (''https:'' @ s) = Some (''https'', s)"
  by (simp add: get_scheme_def is_letter_def is_scheme_char_def is_digit_def)

lemma github_url_refused:
  assumes q: "CHR ''?'' \<notin> set p" and f: "CHR ''#'' \<notin> set p"
    and bad: "prefix ''%!'' (dropWhile (\<lambda>c. c \<noteq> CHR ''%'') p)"
  shows "\<not> url_parse_ok (''https://api.github.com/'' @ p)"
proof -
  have path: "\<not> escapes_ok (''/'' @ p)"
    using escapes_ok_bad [OF bad] by simp
  have "str_cut (CHR ''#'') (''https://api.github.com/'' @ p) = (''https://api.github.com/'' @ p, [])"
    using f by (intro str_cut_notin) auto
  moreover have "str_cut (CHR ''?'') (''//api.github.com/'' @ p) = (''//api.github.com/'' @ p, [])"
    using q by (intro str_cut_notin) auto
  ultimately show ?thesis
    using path get_scheme_https [of "''//api.github.com/'' @ p"]
    by (simp add: url_parse_ok_def parse_ok_def)
qed

end
