(* ===== verification/Poll.thy ===== *)
theory Poll
  imports Net
begin

text \<open>
  What the two polling loops share (\<open>PollExecution\<close> in internal/openhands/client.go and
  \<open>PollRun\<close> in internal/workflow/dispatcher.go), and the text form of a \<open>time.Duration\<close>.

  A loop asks, stops on an answer that is final, sleeps for the interval and asks again until
  its deadline has passed. The locale \<open>poller\<close> states this shape as the unfolding equation of
  the loop, over any state \<open>world N\<close> makes a clock of; its lemmas say that the loop returns and that it is the bounded reference loop
  \<open>poll_ref\<close> with as many rounds as intervals fit before the deadline.
\<close>

section \<open>Durations\<close>

text \<open>
  \<open>fmtFrac\<close>: the digits of the fraction from the least significant one, without the trailing
  zeros, and no point without digits.
\<close>

fun frac_digits :: "nat \<Rightarrow> int \<Rightarrow> string \<Rightarrow> string" where
  "frac_digits 0 v acc = acc"
| "frac_digits (Suc n) v acc =
     frac_digits n (v div 10)
       (if acc \<noteq> [] \<or> v mod 10 \<noteq> 0 then char_of (48 + v mod 10) # acc else acc)"

definition show_frac :: "nat \<Rightarrow> int \<Rightarrow> string" where
  "show_frac prec v =
     show_digits (v div 10 ^ prec) @
     (case frac_digits prec v [] of [] \<Rightarrow> [] | ds \<Rightarrow> ''.'' @ ds)"

definition show_seconds :: "int \<Rightarrow> string" where
  "show_seconds u =
     (let s = u div second
      in (if s div 60 = 0 then []
          else (if s div 3600 = 0 then [] else show_digits (s div 3600) @ ''h'') @
               show_digits (s div 60 mod 60) @ ''m'') @
         show_frac 9 (u mod (60 * second)) @ ''s'')"

text \<open>\<open>Duration.String\<close>; U+00B5 is the micro sign.\<close>

definition show_duration :: "int \<Rightarrow> string" where
  "show_duration d =
     (if d < 0 then ''-'' else []) @
     (let u = \<bar>d\<bar>
      in if u = 0 then ''0s''
         else if u < 1000 then show_digits u @ ''ns''
         else if u < 1000000 then show_frac 3 u @ encode_rune 0xB5 @ ''s''
         else if u < second then show_frac 6 u @ ''ms''
         else show_seconds u)"

text \<open>\<open>Duration.Round(time.Second)\<close>: to the nearest second, halves away from zero.\<close>

definition round_second :: "int \<Rightarrow> int" where
  "round_second d =
     (let r = \<bar>d\<bar> mod second; a = (if 2 * r < second then \<bar>d\<bar> - r else \<bar>d\<bar> + (second - r))
      in if d < 0 then - a else a)"

section \<open>Polling\<close>

text \<open>
  The reference loop: at most \<open>n\<close> rounds. It is what the loops of the code are proved equal to
  and stands for no code of its own.
\<close>

primrec poll_ref ::
    "'w net \<Rightarrow> ('w \<Rightarrow> 'r \<times> 'w) \<Rightarrow> ('r \<Rightarrow> bool) \<Rightarrow> 'r \<Rightarrow> int \<Rightarrow> int \<Rightarrow> nat \<Rightarrow> 'w \<Rightarrow> 'r \<times> 'w" where
  "poll_ref N ask stop expired interval deadline 0 w = (expired, snd (time_now N w))"
| "poll_ref N ask stop expired interval deadline (Suc n) w =
     (case time_now N w of (now, w1) \<Rightarrow>
        if now < deadline then
          (case ask w1 of (r, w2) \<Rightarrow>
             if stop r then (r, w2)
             else poll_ref N ask stop expired interval deadline n (time_sleep N interval w2))
        else (expired, w1))"

definition poll_rounds :: "int \<Rightarrow> int \<Rightarrow> nat" where
  "poll_rounds span interval = nat ((span + interval - 1) div interval)"

locale poller =
  fixes world :: "'n \<Rightarrow> 'w net"
    and ask :: "'n \<Rightarrow> 'c \<Rightarrow> 'w \<Rightarrow> 'r \<times> 'w"
    and stop :: "'c \<Rightarrow> 'r \<Rightarrow> bool"
    and expired :: "'c \<Rightarrow> 'r"
    and loop :: "'n \<Rightarrow> 'c \<Rightarrow> int \<Rightarrow> int \<Rightarrow> 'w \<Rightarrow> ('r \<times> 'w) option"
  assumes loop_unfold:
    "loop N c interval deadline w =
       (case time_now (world N) w of (now, w1) \<Rightarrow>
          if now < deadline then
            (case ask N c w1 of (r, w2) \<Rightarrow>
               if stop c r then Some (r, w2)
               else loop N c interval deadline (time_sleep (world N) interval w2))
          else Some (expired c, w1))"
    and ask_clock:
    "clock_ok (world N) \<Longrightarrow> fst (time_now (world N) w) \<le> fst (time_now (world N) (snd (ask N c w)))"
begin

text \<open>A round that asks and sleeps costs at least one interval.\<close>

lemma round_cost:
  assumes "clock_ok (world N)" and "0 < interval"
  shows "fst (time_now (world N) w) + interval \<le>
    fst (time_now (world N) (time_sleep (world N) interval (snd (ask N c (snd (time_now (world N) w))))))"
proof -
  let ?w1 = "snd (time_now (world N) w)"
  have "fst (time_now (world N) w) \<le> fst (time_now (world N) ?w1)" by (rule clock_okD(1) [OF assms(1)])
  also have "\<dots> \<le> fst (time_now (world N) (snd (ask N c ?w1)))" using assms ask_clock by blast
  finally show ?thesis
    using clock_okD(3) [OF assms(1), of "snd (ask N c ?w1)" interval] assms(2) by simp
qed

lemma rounds_step:
  assumes "0 < interval" and "0 < span" and "span' + interval \<le> span"
  shows "\<exists>n. poll_rounds span interval = Suc n \<and> poll_rounds span' interval \<le> n"
proof -
  have "(span' + interval - 1) div interval + 1 = (span' + interval - 1 + interval) div interval"
    using assms(1) by (simp only: div_add_self2)
  also have "\<dots> \<le> (span + interval - 1) div interval"
    using assms by (intro zdiv_mono1) auto
  finally have le: "(span' + interval - 1) div interval + 1 \<le> (span + interval - 1) div interval" .
  have "interval div interval \<le> (span + interval - 1) div interval"
    using assms by (intro zdiv_mono1) auto
  then have "1 \<le> (span + interval - 1) div interval" using assms(1) by simp
  with le show ?thesis
    unfolding poll_rounds_def
    by (intro exI [of _ "nat ((span + interval - 1) div interval - 1)"]) auto
qed

lemma loop_expired:
  "deadline \<le> fst (time_now (world N) w) \<Longrightarrow>
     loop N c interval deadline w = Some (expired c, snd (time_now (world N) w))"
  by (subst loop_unfold) (simp add: case_prod_beta)

lemma ref_expired:
  "deadline \<le> fst (time_now M w) \<Longrightarrow>
     poll_ref M a st ex interval deadline n w = (ex, snd (time_now M w))"
  by (cases n) (simp_all add: case_prod_beta)

theorem loop_ref:
  assumes "clock_ok (world N)" and "0 < interval"
    and "poll_rounds (deadline - fst (time_now (world N) w)) interval \<le> n"
  shows "loop N c interval deadline w =
    Some (poll_ref (world N) (ask N c) (stop c) (expired c) interval deadline n w)"
  using assms(3)
proof (induction n arbitrary: w)
  case 0
  show ?case
  proof (cases "fst (time_now (world N) w) < deadline")
    case True
    with rounds_step [OF assms(2), of "deadline - fst (time_now (world N) w)"
        "deadline - fst (time_now (world N) w) - interval"] 0
    show ?thesis by simp
  next
    case False
    then show ?thesis by (simp add: loop_expired)
  qed
next
  case (Suc n)
  let ?w2 = "snd (ask N c (snd (time_now (world N) w)))"
  show ?case
  proof (cases "fst (time_now (world N) w) < deadline")
    case True
    have "poll_rounds (deadline - fst (time_now (world N) (time_sleep (world N) interval ?w2))) interval \<le> n"
      using rounds_step [OF assms(2), of "deadline - fst (time_now (world N) w)"
          "deadline - fst (time_now (world N) (time_sleep (world N) interval ?w2))"]
        round_cost [OF assms(1,2), of w c] True Suc.prems by auto
    from Suc.IH [OF this] True show ?thesis
      by (subst loop_unfold) (simp add: case_prod_beta)
  next
    case False
    then show ?thesis by (simp add: loop_expired ref_expired del: poll_ref.simps)
  qed
qed

lemma ref_final:
  "poll_ref (world N) (ask N c) (stop c) (expired c) interval deadline n w = (r, w') \<Longrightarrow>
     stop c r \<or> r = expired c"
  by (induction n arbitrary: w) (auto split: prod.splits if_splits)

lemma loop_returns:
  assumes "clock_ok (world N)" and "0 < interval"
  shows "\<exists>r w'. loop N c interval deadline w = Some (r, w') \<and> (stop c r \<or> r = expired c)"
proof -
  let ?n = "poll_rounds (deadline - fst (time_now (world N) w)) interval"
  obtain r w' where "poll_ref (world N) (ask N c) (stop c) (expired c) interval deadline ?n w = (r, w')"
    by (metis prod.exhaust)
  with loop_ref [OF assms order_refl] ref_final show ?thesis by metis
qed

text \<open>The value of a loop that ends before its deadline is that of the last asking.\<close>

lemma ref_asked:
  "poll_ref (world N) (ask N c) (stop c) (expired c) interval deadline n w = (r, w') \<Longrightarrow>
     r = expired c \<or> stop c r \<and> (\<exists>v. ask N c v = (r, w'))"
  by (induction n arbitrary: w) (auto split: prod.splits if_splits)

lemma loop_asked:
  assumes "clock_ok (world N)" and "0 < interval"
  shows "\<exists>r w'. loop N c interval deadline w = Some (r, w') \<and>
    (r = expired c \<or> stop c r \<and> (\<exists>v. ask N c v = (r, w')))"
proof -
  let ?n = "poll_rounds (deadline - fst (time_now (world N) w)) interval"
  obtain r w' where "poll_ref (world N) (ask N c) (stop c) (expired c) interval deadline ?n w = (r, w')"
    by (metis prod.exhaust)
  with loop_ref [OF assms order_refl] ref_asked show ?thesis by metis
qed

text \<open>
  An asking that is never final in the states an invariant allows: the loop ends with the
  expiry value, in such a state.
\<close>

lemma loop_never_final:
  assumes "clock_ok (world N)" and "0 < interval" and "P w"
    and now: "\<And>w. P w \<Longrightarrow> P (snd (time_now (world N) w))"
    and sleep: "\<And>w. P w \<Longrightarrow> P (time_sleep (world N) interval w)"
    and step: "\<And>w. P w \<Longrightarrow> \<not> stop c (fst (ask N c w)) \<and> P (snd (ask N c w))"
  shows "\<exists>w'. loop N c interval deadline w = Some (expired c, w') \<and> P w'"
proof -
  have "fst (poll_ref (world N) (ask N c) (stop c) (expired c) interval deadline n w) = expired c \<and>
      P (snd (poll_ref (world N) (ask N c) (stop c) (expired c) interval deadline n w))" for n
    using assms(3)
  proof (induction n arbitrary: w)
    case 0
    then show ?case by (simp add: now)
  next
    case (Suc n)
    then show ?case using now sleep step by (auto simp: case_prod_beta)
  qed
  with loop_ref [OF assms(1,2) order_refl] show ?thesis by (metis prod.collapse)
qed

end

section \<open>A small world\<close>

text \<open>
  For concrete runs: the world is its clock, a remote service answers by a fixed function of
  the request, and time passes in sleeps only.
\<close>

definition answering :: "(http_request \<Rightarrow> goerr + response) \<Rightarrow> int net" where
  "answering f = \<lparr>http_do = (\<lambda>r w. (f r, w)), time_now = (\<lambda>w. (w, w)),
     time_sleep = (\<lambda>d w. w + max 0 d), url_err_text = (\<lambda>_. ''invalid URL'')\<rparr>"

lemma clock_ok_answering [simp]: "clock_ok (answering f)"
  by (simp add: answering_def clock_ok_def)

text \<open>A net beside a further component of the state.\<close>

definition beside :: "'w net \<Rightarrow> ('d \<times> 'w) net" where
  "beside N = \<lparr>http_do = (\<lambda>r (d, w). map_prod id (Pair d) (http_do N r w)),
     time_now = (\<lambda>(d, w). map_prod id (Pair d) (time_now N w)),
     time_sleep = (\<lambda>t (d, w). (d, time_sleep N t w)), url_err_text = url_err_text N\<rparr>"

lemma beside_simps [simp]:
  "time_now (beside N) s = (fst (time_now N (snd s)), fst s, snd (time_now N (snd s)))"
  "time_sleep (beside N) t s = (fst s, time_sleep N t (snd s))"
  by (simp_all add: beside_def map_prod_def case_prod_beta)

lemma clock_ok_beside: "clock_ok N \<Longrightarrow> clock_ok (beside N)"
  by (auto simp: clock_ok_def beside_def map_prod_def case_prod_beta)

definition ok_json :: "string \<Rightarrow> goerr + response" where
  "ok_json b = Inr \<lparr>status_code = 200, resp_body = b, read_err = None\<rparr>"


end
