(* ===== verification/OpenHands.thy ===== *)
theory OpenHands
  imports Poll
begin

text \<open>
  \<open>internal/openhands/client.go\<close>: the client of the OpenHands runtime. It starts a
  conversation, reads the status of its start task, reads the conversation itself once the
  task is ready, and polls until a final status or a deadline.

  The file as committed does not compile (the closing brace of \<open>StartExecution\<close> is missing,
  \<open>log\<close> is not imported, and the result literal names a field \<open>Repository\<close> that
  \<open>ExecutionResult\<close> does not have). The model reads it with the brace in place and without that
  field; log lines, and the clock readings taken only for them, are left out.
\<close>

section \<open>Data\<close>

record oh_client =
  api_key :: string
  base_url :: string
  oh_repository :: string

record execution_result =
  er_task_id :: string
  er_conversation_id :: string
  er_status :: string
  er_error :: string
  er_output :: string
  er_files :: "string list"
  er_completed_at :: int

definition zero_result :: execution_result where
  "zero_result = \<lparr>er_task_id = [], er_conversation_id = [], er_status = [], er_error = [],
     er_output = [], er_files = [], er_completed_at = 0\<rparr>"

record start_task_response =
  st_id :: string
  st_status :: string

record task_status =
  ts_id :: string
  ts_status :: string
  ts_conversation :: string
  ts_error :: string

definition set_start_response :: "string \<Rightarrow> start_task_response decoder" where
  "set_start_response n v s =
     (if n = ''id'' then (let (x, e) = dec_string v (st_id s) in (s\<lparr>st_id := x\<rparr>, e))
      else (let (x, e) = dec_string v (st_status s) in (s\<lparr>st_status := x\<rparr>, e)))"

definition dec_start_response :: "start_task_response decoder" where
  "dec_start_response = dec_struct set_start_response [''id'', ''status'']"

definition set_task_status :: "string \<Rightarrow> task_status decoder" where
  "set_task_status n v s =
     (if n = ''id'' then (let (x, e) = dec_string v (ts_id s) in (s\<lparr>ts_id := x\<rparr>, e))
      else if n = ''status'' then (let (x, e) = dec_string v (ts_status s) in (s\<lparr>ts_status := x\<rparr>, e))
      else if n = ''app_conversation_id'' then
        (let (x, e) = dec_string v (ts_conversation s) in (s\<lparr>ts_conversation := x\<rparr>, e))
      else (let (x, e) = dec_string v (ts_error s) in (s\<lparr>ts_error := x\<rparr>, e)))"

definition dec_task_status :: "task_status decoder" where
  "dec_task_status =
     dec_struct set_task_status [''id'', ''status'', ''app_conversation_id'', ''error'']"

definition zero_task_status :: task_status where
  "zero_task_status = \<lparr>ts_id = [], ts_status = [], ts_conversation = [], ts_error = []\<rparr>"

section \<open>Construction\<close>

definition new_client :: "string \<Rightarrow> string \<Rightarrow> string \<Rightarrow> oh_client res" where
  "new_client key url repo =
     (if key = [] then Inl ''OPENHANDS_API_KEY is required''
      else Inr \<lparr>api_key = key, base_url = url, oh_repository = repo\<rparr>)"

definition new_client_from_env :: "environ \<Rightarrow> oh_client res" where
  "new_client_from_env env =
     (let url = getenv env ''OPENHANDS_BASE_URL'';
          url = (if url = [] then ''https://app.all-hands.dev'' else url)
      in new_client (getenv env ''OPENHANDS_API_KEY'') url (getenv env ''OPENHANDS_REPOSITORY''))"

definition load_client_from_env :: "environ \<Rightarrow> oh_client res" where
  "load_client_from_env env =
     (let key = getenv env ''OPENHANDS_API_KEY'';
          url = getenv env ''OPENHANDS_BASE_URL'';
          repo = getenv env ''GITHUB_REPOSITORY''
      in if key = [] then Inl ''OPENHANDS_API_KEY environment variable is not set''
         else new_client key (if url = [] then ''https://app.all-hands.dev'' else url) repo)"

definition is_authorized :: "oh_client \<Rightarrow> bool" where
  "is_authorized c \<longleftrightarrow> api_key c \<noteq> []"

definition get_base_url :: "oh_client \<Rightarrow> string" where
  "get_base_url c = base_url c"

definition set_auth_header :: "oh_client \<Rightarrow> http_request \<Rightarrow> http_request" where
  "set_auth_header c r =
     set_header ''Content-Type'' ''application/json''
       (set_header ''Authorization'' (''Bearer '' @ api_key c) r)"

text \<open>\<open>GetRepository\<close>: the last two segments of a path.\<close>

definition get_repository :: "string \<Rightarrow> string" where
  "get_repository path =
     (let parts = split_on (CHR ''/'') path; n = length parts
      in if 2 \<le> n then parts ! (n - 2) @ ''/'' @ parts ! (n - 1) else path)"

section \<open>Requests\<close>

definition validate_auth :: "'w net \<Rightarrow> oh_client \<Rightarrow> 'w \<Rightarrow> goerr option \<times> 'w" where
  "validate_auth N c w =
     (case new_request N ''GET'' (base_url c @ ''/api/v1/status'') None of
        Inl e \<Rightarrow> (Some (''failed to create request: '' @ e), w)
      | Inr req \<Rightarrow>
          (case http_do N (set_auth_header c req) w of
             (Inl e, w) \<Rightarrow> (Some (''authentication validation failed: '' @ e), w)
           | (Inr resp, w) \<Rightarrow>
               if status_code resp = 401 then (Some ''invalid API key'', w)
               else if status_code resp \<noteq> 200 \<and> status_code resp \<noteq> 404
               then (Some (''unexpected status code: '' @ show_int (status_code resp)), w)
               else (None, w)))"

definition start_body :: "oh_client \<Rightarrow> string \<Rightarrow> json" where
  "start_body c task =
     JObj [(''initial_message'', JObj [(''type'', JStr ''text''), (''text'', jtext task)]),
           (''selected_repository'', jtext (oh_repository c))]"

definition start_execution ::
    "'w net \<Rightarrow> json_lib \<Rightarrow> oh_client \<Rightarrow> string \<Rightarrow> 'w \<Rightarrow> execution_result res \<times> 'w" where
  "start_execution N L c task w =
     (case new_request N ''POST'' (base_url c @ ''/api/v1/app-conversations'')
             (Some (start_body c task)) of
        Inl e \<Rightarrow> (Inl (''failed to create request: '' @ e), w)
      | Inr req \<Rightarrow>
          (case http_do N (set_header ''Content-Type'' ''application/json'' (set_auth_header c req)) w of
             (Inl e, w) \<Rightarrow> (Inl (''failed to start execution: '' @ e), w)
           | (Inr resp, w) \<Rightarrow>
               (case read_err resp of
                  Some e \<Rightarrow> (Inl (''failed to read response: '' @ e), w)
                | None \<Rightarrow>
                    if status_code resp \<noteq> 200 \<and> status_code resp \<noteq> 202
                    then (Inl (''failed to start execution: status '' @ show_int (status_code resp) @
                               '', body: '' @ resp_body resp), w)
                    else
                      (case unmarshal L dec_start_response (resp_body resp)
                              \<lparr>st_id = [], st_status = []\<rparr> of
                         (r, Some e) \<Rightarrow> (Inl (''failed to parse response: '' @ e), w)
                       | (r, None) \<Rightarrow>
                           (Inr (zero_result\<lparr>er_task_id := st_id r, er_status := st_status r\<rparr>), w)))))"

text \<open>
  The text made of a conversation. The slice \<open>convID[:8]\<close> is taken when the title is not empty
  and panics on a shorter identifier.
\<close>

definition conversation_text :: "string \<Rightarrow> jmap \<Rightarrow> string outcome" where
  "conversation_text conv_id conv =
     (let execution_status = jstring conv ''execution_status'';
          sandbox_status = jstring conv ''sandbox_status'';
          llm_model = jstring conv ''llm_model'';
          title = jstring conv ''title'';
          out = (if execution_status = ''finished''
                 then encode_rune 0x2713 @ '' Task completed successfully.'' @ nl @ nl else []);
          out = (if sandbox_status \<noteq> [] then out @ ''Runtime: '' @ sandbox_status @ nl else out);
          out = (if llm_model \<noteq> [] then out @ ''Model: '' @ llm_model @ nl else out)
      in obind (if title = [] then Ret out
                else obind (slice_to conv_id 8) (\<lambda>short.
                       Ret (if title \<noteq> ''Conversation '' @ short
                            then out @ ''Title: '' @ title @ nl else out)))
           (\<lambda>out. Ret (if out = [] then ''Execution: '' @ execution_status else out)))"

definition get_conversation_details ::
    "'w net \<Rightarrow> json_lib \<Rightarrow> oh_client \<Rightarrow> string \<Rightarrow> 'w \<Rightarrow> string res outcome \<times> 'w" where
  "get_conversation_details N L c conv_id w =
     (case new_request N ''GET'' (base_url c @ ''/api/v1/app-conversations?ids='' @ conv_id) None of
        Inl e \<Rightarrow> (Ret (Inl e), w)
      | Inr req \<Rightarrow>
          (case http_do N (set_auth_header c req) w of
             (Inl e, w) \<Rightarrow> (Ret (Inl e), w)
           | (Inr resp, w) \<Rightarrow>
               (case read_err resp of
                  Some e \<Rightarrow> (Ret (Inl e), w)
                | None \<Rightarrow>
                    (case unmarshal L (dec_slice (dec_map L) []) (resp_body resp) [] of
                       (convs, Some e) \<Rightarrow> (Ret (Inl e), w)
                     | (convs, None) \<Rightarrow>
                         (case convs of
                            [] \<Rightarrow> (Ret (Inl ''no conversation returned''), w)
                          | conv # _ \<Rightarrow>
                              (obind (conversation_text conv_id conv) (\<lambda>t. Ret (Inr t)), w))))))"

text \<open>The final switch of \<open>GetExecutionStatus\<close> over the status of the start task.\<close>

definition friendly_status :: "string \<Rightarrow> string \<Rightarrow> string" where
  "friendly_status st out =
     (if st = ''READY'' then (if out \<noteq> [] then ''COMPLETED'' else ''RUNNING'')
      else if st = ''IN_PROGRESS'' then ''RUNNING''
      else if st = ''FINISHED'' then ''COMPLETED''
      else if st = ''ERROR'' then ''FAILED''
      else st)"

text \<open>The second half of \<open>GetExecutionStatus\<close>, from the task it found.\<close>

definition task_result ::
    "'w net \<Rightarrow> json_lib \<Rightarrow> oh_client \<Rightarrow> task_status \<Rightarrow> 'w \<Rightarrow> execution_result res outcome \<times> 'w" where
  "task_result N L c task w =
     (let result = zero_result\<lparr>er_task_id := ts_id task, er_conversation_id := ts_conversation task,
                     er_status := ts_status task, er_error := ts_error task\<rparr>;
          (out, w) =
            (if ts_status task = ''READY'' \<and> ts_conversation task \<noteq> []
             then (case get_conversation_details N L c (ts_conversation task) w of
                     (Panic p, w) \<Rightarrow> (Panic p, w)
                   | (Ret (Inl e), w) \<Rightarrow> (Ret [], w)
                   | (Ret (Inr t), w) \<Rightarrow> (Ret t, w))
             else (Ret [], w))
      in (obind out (\<lambda>out. Ret (Inr (result\<lparr>er_output := out,
                                 er_status := friendly_status (ts_status task) out\<rparr>))), w))"

definition get_execution_status ::
    "'w net \<Rightarrow> json_lib \<Rightarrow> oh_client \<Rightarrow> string \<Rightarrow> 'w \<Rightarrow> execution_result res outcome \<times> 'w" where
  "get_execution_status N L c task_id w =
     (case new_request N ''GET'' (base_url c @ ''/api/v1/app-conversations/start-tasks?ids='' @ task_id)
             None of
        Inl e \<Rightarrow> (Ret (Inl (''failed to create request: '' @ e)), w)
      | Inr req \<Rightarrow>
          (case http_do N (set_auth_header c req) w of
             (Inl e, w) \<Rightarrow> (Ret (Inl (''failed to get status: '' @ e)), w)
           | (Inr resp, w) \<Rightarrow>
               (case read_err resp of
                  Some e \<Rightarrow> (Ret (Inl (''failed to read response: '' @ e)), w)
                | None \<Rightarrow>
                    if status_code resp \<noteq> 200
                    then (Ret (Inl (''failed to get status: status '' @ show_int (status_code resp) @
                                    '', body: '' @ resp_body resp)), w)
                    else
                      (case unmarshal L (dec_slice dec_task_status zero_task_status) (resp_body resp) [] of
                         (tasks, Some e) \<Rightarrow> (Ret (Inl (''failed to parse response: '' @ e)), w)
                       | (tasks, None) \<Rightarrow>
                           (case tasks of
                              [] \<Rightarrow> (Ret (Inr (zero_result\<lparr>er_task_id := task_id,
                                       er_status := ''UNKNOWN''\<rparr>)), w)
                            | task # _ \<Rightarrow> task_result N L c task w)))))"

section \<open>Polling and dispatch\<close>

definition execution_final :: "execution_result \<Rightarrow> bool" where
  "execution_final r \<longleftrightarrow>
     er_status r = ''COMPLETED'' \<or> er_status r = ''FAILED'' \<or> er_error r \<noteq> []"

definition timeout_result :: "string \<Rightarrow> int \<Rightarrow> execution_result" where
  "timeout_result task_id timeout =
     zero_result\<lparr>er_task_id := task_id, er_status := ''TIMEOUT'',
       er_error := ''execution timed out after '' @ show_duration timeout\<rparr>"

partial_function (option) poll_execution_loop ::
    "'w net \<Rightarrow> json_lib \<Rightarrow> oh_client \<Rightarrow> string \<Rightarrow> int \<Rightarrow> int \<Rightarrow> int \<Rightarrow> 'w \<Rightarrow>
       (execution_result res outcome \<times> 'w) option" where
  "poll_execution_loop N L c task_id timeout interval deadline w =
     (case time_now N w of (now, w1) \<Rightarrow>
        if now < deadline then
          (case get_execution_status N L c task_id w1 of
             (Panic p, w2) \<Rightarrow> Some (Panic p, w2)
           | (Ret (Inl e), w2) \<Rightarrow> Some (Ret (Inl e), w2)
           | (Ret (Inr r), w2) \<Rightarrow>
               if execution_final r then Some (Ret (Inr r), w2)
               else poll_execution_loop N L c task_id timeout interval deadline
                      (time_sleep N interval w2))
        else Some (Ret (Inr (timeout_result task_id timeout)), w1))"

definition poll_execution ::
    "'w net \<Rightarrow> json_lib \<Rightarrow> oh_client \<Rightarrow> string \<Rightarrow> int \<Rightarrow> int \<Rightarrow> 'w \<Rightarrow>
       (execution_result res outcome \<times> 'w) option" where
  "poll_execution N L c task_id timeout interval w =
     (case time_now N w of (now, w) \<Rightarrow>
        poll_execution_loop N L c task_id timeout interval (now + timeout) w)"

definition dispatch ::
    "'w net \<Rightarrow> json_lib \<Rightarrow> oh_client \<Rightarrow> string \<Rightarrow> int \<Rightarrow> 'w \<Rightarrow>
       (execution_result res outcome \<times> 'w) option" where
  "dispatch N L c task timeout w =
     (case start_execution N L c task w of
        (Inl e, w) \<Rightarrow> Some (Ret (Inl (''failed to dispatch task: '' @ e)), w)
      | (Inr r, w) \<Rightarrow>
          if er_task_id r = [] then Some (Ret (Inl ''no task ID returned''), w)
          else poll_execution N L c (er_task_id r) timeout (5 * second) w)"

section \<open>The clock\<close>

text \<open>No request turns the clock back.\<close>

named_theorems clock_facts \<open>requests keep the order of the clock\<close>

lemma details_clock [clock_facts]:
  "clock_ok N \<Longrightarrow>
     fst (time_now N w) \<le> fst (time_now N (snd (get_conversation_details N L c i w)))"
  using clock_okD(2) [of N w]
  by (auto simp: get_conversation_details_def split: sum.splits prod.splits option.splits list.splits)
    (metis order.refl snd_conv)+

lemma start_clock [clock_facts]:
  "clock_ok N \<Longrightarrow> fst (time_now N w) \<le> fst (time_now N (snd (start_execution N L c t w)))"
  using clock_okD(2) [of N w]
  by (auto simp: start_execution_def split: sum.splits prod.splits option.splits)
    (metis order.refl snd_conv)+

lemma task_result_clock [clock_facts]:
  "clock_ok N \<Longrightarrow> fst (time_now N w) \<le> fst (time_now N (snd (task_result N L c t w)))"
  using details_clock [of N w L c "ts_conversation t"]
  by (auto simp: task_result_def split: sum.splits prod.splits outcome.splits)

lemma status_clock [clock_facts]:
  assumes "clock_ok N"
  shows "fst (time_now N w) \<le> fst (time_now N (snd (get_execution_status N L c i w)))"
proof -
  have http: "fst (time_now N w) \<le> fst (time_now N w')" if "http_do N r w = (x, w')" for r x w'
    using clock_okD(2) [OF assms, of w r] that by simp
  moreover have "fst (time_now N w) \<le> fst (time_now N (snd (task_result N L c t w')))"
    if "http_do N r w = (x, w')" for r x w' t
    using http [OF that] task_result_clock [OF assms] by (rule order_trans)
  ultimately show ?thesis
    by (auto simp: get_execution_status_def split: sum.splits prod.splits option.splits list.splits)
qed

section \<open>The polling loop is a poller\<close>

fun status_stop :: "execution_result res outcome \<Rightarrow> bool" where
  "status_stop (Panic p) = True"
| "status_stop (Ret (Inl e)) = True"
| "status_stop (Ret (Inr r)) = execution_final r"

interpretation oh: poller
  "\<lambda>N. N"
  "\<lambda>N (L, c, task_id, timeout) w. get_execution_status N L c task_id w"
  "\<lambda>_. status_stop"
  "\<lambda>(L, c, task_id, timeout). Ret (Inr (timeout_result task_id timeout))"
  "\<lambda>N (L, c, task_id, timeout) interval deadline w.
     poll_execution_loop N L c task_id timeout interval deadline w"
proof (unfold_locales, goal_cases)
  case (1 N c interval deadline w)
  then show ?case
    by (cases c) (auto simp: poll_execution_loop.simps split: prod.splits outcome.splits sum.splits)
next
  case (2 N w c)
  then show ?case by (cases c) (simp add: status_clock)
qed

lemma status_stop_iff:
  "status_stop x \<longleftrightarrow> (\<forall>r. x = Ret (Inr r) \<longrightarrow> execution_final r)"
  by (cases x rule: status_stop.cases) simp_all

lemma timeout_result_final: "execution_final (timeout_result i t)"
  by (simp add: execution_final_def timeout_result_def)

text \<open>
  The one panic of the client: the status reply names a READY task with a conversation identifier
  of fewer than eight bytes, and the conversation the service then returns has a title.
\<close>

definition conversation_titled :: "'w net \<Rightarrow> json_lib \<Rightarrow> oh_client \<Rightarrow> string \<Rightarrow> 'w \<Rightarrow> bool" where
  "conversation_titled N L c conv_id w \<longleftrightarrow>
     (case new_request N ''GET'' (base_url c @ ''/api/v1/app-conversations?ids='' @ conv_id) None of
        Inl e \<Rightarrow> False
      | Inr req \<Rightarrow>
          (case fst (http_do N (set_auth_header c req) w) of
             Inl e \<Rightarrow> False
           | Inr resp \<Rightarrow>
               read_err resp = None \<and>
               (case unmarshal L (dec_slice (dec_map L) []) (resp_body resp) [] of
                  (conv # _, None) \<Rightarrow> jstring conv ''title'' \<noteq> []
                | _ \<Rightarrow> False)))"

definition titled_short :: "'w net \<Rightarrow> json_lib \<Rightarrow> oh_client \<Rightarrow> string \<Rightarrow> 'w \<Rightarrow> bool" where
  "titled_short N L c task_id w \<longleftrightarrow>
     (case new_request N ''GET'' (base_url c @ ''/api/v1/app-conversations/start-tasks?ids='' @ task_id)
             None of
        Inl e \<Rightarrow> False
      | Inr req \<Rightarrow>
          (case http_do N (set_auth_header c req) w of
             (Inl e, w) \<Rightarrow> False
           | (Inr resp, w) \<Rightarrow>
               read_err resp = None \<and> status_code resp = 200 \<and>
               (case unmarshal L (dec_slice dec_task_status zero_task_status) (resp_body resp) [] of
                  (task # _, None) \<Rightarrow>
                    ts_status task = ''READY'' \<and> ts_conversation task \<noteq> [] \<and>
                    length (ts_conversation task) < 8 \<and>
                    conversation_titled N L c (ts_conversation task) w
                | _ \<Rightarrow> False)))"

definition slice_panic :: string where
  "slice_panic = ''slice bounds out of range''"

lemma conversation_text_panic_iff:
  "conversation_text i conv = Panic p \<longleftrightarrow>
     p = slice_panic \<and> length i < 8 \<and> jstring conv ''title'' \<noteq> []"
  by (auto simp: conversation_text_def Let_def slice_to_def slice_panic_def)

lemma details_panic_iff:
  "fst (get_conversation_details N L c i w) = Panic p \<longleftrightarrow>
     p = slice_panic \<and> length i < 8 \<and> conversation_titled N L c i w"
  by (auto simp: get_conversation_details_def conversation_titled_def obind_eq_Panic
      conversation_text_panic_iff split: sum.splits prod.splits option.splits list.splits)

lemma task_result_panic_iff:
  "fst (task_result N L c t w) = Panic p \<longleftrightarrow>
     p = slice_panic \<and> ts_status t = ''READY'' \<and> ts_conversation t \<noteq> [] \<and>
     length (ts_conversation t) < 8 \<and> conversation_titled N L c (ts_conversation t) w"
  using details_panic_iff [of N L c "ts_conversation t" w p]
  by (auto simp: task_result_def split: prod.splits outcome.splits sum.splits)

lemma status_panic_iff:
  "fst (get_execution_status N L c i w) = Panic p \<longleftrightarrow> p = slice_panic \<and> titled_short N L c i w"
  by (auto simp: get_execution_status_def titled_short_def task_result_panic_iff
      split: sum.splits prod.splits option.splits list.splits)

text \<open>What a polled result can be; \<open>w'\<close> is the state the last request left.\<close>

definition polled ::
    "'w net \<Rightarrow> json_lib \<Rightarrow> oh_client \<Rightarrow> string \<Rightarrow> int \<Rightarrow> execution_result res outcome \<Rightarrow> 'w \<Rightarrow> bool" where
  "polled N L c task_id timeout x w' \<longleftrightarrow>
     x = Ret (Inr (timeout_result task_id timeout)) \<or>
     (\<exists>v. get_execution_status N L c task_id v = (x, w') \<and>
        (case x of
           Panic p \<Rightarrow> p = slice_panic \<and> titled_short N L c task_id v
         | Ret (Inl e) \<Rightarrow> True
         | Ret (Inr r) \<Rightarrow> execution_final r))"

lemma poll_execution_polled:
  assumes "clock_ok N" and "0 < interval"
  shows "\<exists>x w'. poll_execution N L c task_id timeout interval w = Some (x, w') \<and>
    polled N L c task_id timeout x w'"
proof -
  obtain x w' where run: "poll_execution N L c task_id timeout interval w = Some (x, w')"
    and x: "x = Ret (Inr (timeout_result task_id timeout)) \<or>
      status_stop x \<and> (\<exists>v. get_execution_status N L c task_id v = (x, w'))"
    using oh.loop_asked [OF assms, of "(L, c, task_id, timeout)"
        "fst (time_now N w) + timeout" "snd (time_now N w)"]
    by (auto simp: poll_execution_def case_prod_beta)
  have "case x of Panic p \<Rightarrow> p = slice_panic \<and> titled_short N L c task_id v
      | Ret (Inl e) \<Rightarrow> True | Ret (Inr r) \<Rightarrow> execution_final r"
    if "status_stop x" "get_execution_status N L c task_id v = (x, w')" for v
    using that status_panic_iff [of N L c task_id v] by (cases x rule: status_stop.cases) auto
  with run x show ?thesis by (auto simp: polled_def)
qed

lemma polled_final: "polled N L c i t (Ret (Inr r)) w' \<Longrightarrow> execution_final r"
  by (auto simp: polled_def timeout_result_final)

lemma polled_panic: "polled N L c i t (Panic p) w' \<Longrightarrow> p = slice_panic \<and> (\<exists>v. titled_short N L c i v)"
  by (auto simp: polled_def)

text \<open>The outcome of a dispatch, by what the start request gave.\<close>

definition dispatched ::
    "'w net \<Rightarrow> json_lib \<Rightarrow> oh_client \<Rightarrow> string \<Rightarrow> int \<Rightarrow> 'w \<Rightarrow> execution_result res outcome \<Rightarrow> 'w \<Rightarrow> bool" where
  "dispatched N L c task timeout w x w' \<longleftrightarrow>
     (case start_execution N L c task w of
        (Inl e, w1) \<Rightarrow> x = Ret (Inl (''failed to dispatch task: '' @ e)) \<and> w' = w1
      | (Inr s, w1) \<Rightarrow>
          if er_task_id s = [] then x = Ret (Inl ''no task ID returned'') \<and> w' = w1
          else polled N L c (er_task_id s) timeout x w')"

lemma dispatch_dispatched:
  assumes "clock_ok N"
  shows "\<exists>x w'. dispatch N L c task timeout w = Some (x, w') \<and> dispatched N L c task timeout w x w'"
  using poll_execution_polled [OF assms, of "5 * second"]
  by (auto simp: dispatch_def dispatched_def second_def split: prod.splits sum.splits)

text \<open>What the callers of the client need of an outcome.\<close>

definition only_slice_panic :: "'w net \<Rightarrow> json_lib \<Rightarrow> oh_client \<Rightarrow> 'a outcome \<Rightarrow> bool" where
  "only_slice_panic N L c x \<longleftrightarrow>
     (case x of
        Ret y \<Rightarrow> True
      | Panic p \<Rightarrow> p = slice_panic \<and> (\<exists>task_id v. task_id \<noteq> [] \<and> titled_short N L c task_id v))"

lemma only_slice_panic_simps [simp]:
  "only_slice_panic N L c (Ret y)"
  "only_slice_panic N L c (Panic p) \<longleftrightarrow>
     p = slice_panic \<and> (\<exists>task_id v. task_id \<noteq> [] \<and> titled_short N L c task_id v)"
  by (simp_all add: only_slice_panic_def)

lemma dispatch_returns:
  assumes "clock_ok N"
  shows "\<exists>x w'. dispatch N L c task timeout w = Some (x, w') \<and>
    (\<forall>r. x = Ret (Inr r) \<longrightarrow> execution_final r) \<and> only_slice_panic N L c x"
proof -
  obtain x w' where run: "dispatch N L c task timeout w = Some (x, w')"
    and x: "dispatched N L c task timeout w x w'"
    using dispatch_dispatched [OF assms] by blast
  from x have "\<forall>r. x = Ret (Inr r) \<longrightarrow> execution_final r"
    by (auto simp: dispatched_def dest: polled_final split: prod.splits sum.splits if_splits)
  moreover from x have "only_slice_panic N L c x"
    by (cases x) (auto simp: dispatched_def dest: polled_panic split: prod.splits sum.splits if_splits)
  ultimately show ?thesis using run by blast
qed

section \<open>What a conversation's text says\<close>

lemma default_nonempty:
  "obind m (\<lambda>out. Ret (if out = [] then ''Execution: '' @ e else out)) = Ret t \<Longrightarrow> t \<noteq> []"
  by (cases m) (auto split: if_splits)

lemma conversation_text_nonempty: "conversation_text i conv = Ret out \<Longrightarrow> out \<noteq> []"
  unfolding conversation_text_def Let_def by (rule default_nonempty)

lemma details_nonempty: "get_conversation_details N L c i w = (Ret (Inr out), w') \<Longrightarrow> out \<noteq> []"
  by (auto simp: get_conversation_details_def obind_eq_Ret conversation_text_nonempty
      split: sum.splits prod.splits option.splits list.splits)

lemma conversation_text_total:
  "8 \<le> length i \<or> jstring conv ''title'' = [] \<Longrightarrow> \<exists>out. conversation_text i conv = Ret out"
  by (auto simp: conversation_text_def Let_def slice_to_def)

lemma conversation_text_panics:
  "length i < 8 \<Longrightarrow> jstring conv ''title'' \<noteq> [] \<Longrightarrow>
     conversation_text i conv = Panic ''slice bounds out of range''"
  by (simp add: conversation_text_def Let_def slice_to_def)

lemma task_result_panic:
  "ts_status t = ''READY'' \<Longrightarrow> ts_conversation t \<noteq> [] \<Longrightarrow>
     get_conversation_details N L c (ts_conversation t) w = (Panic p, w') \<Longrightarrow>
     task_result N L c t w = (Panic p, w')"
  by (simp add: task_result_def)

lemma friendly_status_values:
  "friendly_status st out \<in> {''COMPLETED'', ''RUNNING'', ''FAILED''} \<or>
     friendly_status st out = st \<and> st \<notin> {''READY'', ''IN_PROGRESS'', ''FINISHED'', ''ERROR''}"
  by (simp add: friendly_status_def)

section \<open>Properties\<close>

text \<open>
  C10. Every dispatch comes to an end, and how: under the clock's documented behaviour \<open>Dispatch\<close>
  answers for every task, timeout, service and start state, after finitely many polls. It returns
  the error of the start request or the one for a missing task identifier; otherwise it polls the
  started task and returns the timeout result or what the last status read gave: its error, or a
  final result (status COMPLETED or FAILED, or an error text). The one exception to returning is
  the panic of that last status read, and it has one cause: a READY task with a conversation
  identifier of fewer than eight bytes, whose conversation has a title. A service that never
  answers so is never met with a panic.
\<close>

theorem dispatch_terminates:
  assumes "clock_ok N"
  shows "\<exists>x w'. dispatch N L c task timeout w = Some (x, w') \<and>
    dispatched N L c task timeout w x w' \<and>
    (case x of
       Ret (Inr r) \<Rightarrow> er_status r = ''COMPLETED'' \<or> er_status r = ''FAILED'' \<or> er_error r \<noteq> []
     | Ret (Inl e) \<Rightarrow> True
     | Panic p \<Rightarrow> p = slice_panic \<and> (\<exists>task_id v. task_id \<noteq> [] \<and> titled_short N L c task_id v))"
proof -
  obtain x w' where run: "dispatch N L c task timeout w = Some (x, w')"
    and x: "dispatched N L c task timeout w x w'"
    using dispatch_dispatched [OF assms] by blast
  have "(\<forall>r. x = Ret (Inr r) \<longrightarrow> execution_final r) \<and> only_slice_panic N L c x"
    using dispatch_returns [OF assms, of L c task timeout w] run by auto
  with run x show ?thesis
    by (auto simp: execution_final_def split: outcome.splits sum.splits)
qed

definition sample_client :: oh_client where
  "sample_client = \<lparr>api_key = ''key'', base_url = ''https://oh.dev'', oh_repository = ''o/r''\<rparr>"

theorem dispatch_terminates_witness:
  "\<exists>x w'. dispatch (answering (\<lambda>_. Inl ''refused'')) (scan_table []) sample_client ''fix'' minute 0
       = Some (x, w') \<and> x = Ret (Inl ''failed to dispatch task: failed to start execution: refused'')"
proof -
  let ?N = "answering (\<lambda>_. Inl ''refused'')"
  have "url_parse_ok (base_url sample_client @ ''/api/v1/app-conversations'')" by code_simp
  then have "start_execution ?N (scan_table []) sample_client ''fix'' 0 =
      (Inl ''failed to start execution: refused'', 0)"
    by (simp add: start_execution_def new_request_def answering_def)
  with dispatch_terminates [OF clock_ok_answering, of "\<lambda>_. Inl ''refused''" "scan_table []"
      sample_client "''fix''" minute 0]
  show ?thesis by (auto simp: dispatched_def)
qed

text \<open>
  C11. The number of polls is bounded: with a positive interval the loop is the reference loop
  cut after one round for every interval that starts before the deadline, whatever the service
  answers.
\<close>

theorem poll_execution_bounded:
  assumes "clock_ok N" and "0 < interval"
  shows "poll_execution_loop N L c task_id timeout interval deadline w =
    Some (poll_ref N (get_execution_status N L c task_id) status_stop
            (Ret (Inr (timeout_result task_id timeout))) interval deadline
            (poll_rounds (deadline - fst (time_now N w)) interval) w)"
  using oh.loop_ref [OF assms order_refl, where c = "(L, c, task_id, timeout)"] by simp

theorem poll_execution_bounded_witness:
  "poll_execution_loop (answering (\<lambda>_. Inl ''refused'')) (scan_table []) sample_client ''t'' 7 5 7 0 =
     Some (poll_ref (answering (\<lambda>_. Inl ''refused''))
       (get_execution_status (answering (\<lambda>_. Inl ''refused'')) (scan_table []) sample_client ''t'')
       status_stop (Ret (Inr (timeout_result ''t'' 7))) 5 7 2 0)"
proof -
  have two: "poll_rounds (7 - fst (time_now (answering (\<lambda>_. Inl ''refused'')) 0)) 5 = 2"
    by (simp add: poll_rounds_def answering_def)
  have "0 < (5 :: int)" by simp
  from poll_execution_bounded [OF clock_ok_answering this, of "\<lambda>_. Inl ''refused''" "scan_table []"
      sample_client "''t''" 7 7 0] two
  show ?thesis by simp
qed

lemma details_answer:
  assumes "url_parse_ok (base_url c @ ''/api/v1/app-conversations?ids='' @ i)"
    and "http_do N (set_auth_header c \<lparr>rq_method = ''GET'',
           rq_url = base_url c @ ''/api/v1/app-conversations?ids='' @ i, rq_headers = [],
           rq_body = None\<rparr>) w = (Inr \<lparr>status_code = code, resp_body = b, read_err = None\<rparr>, w')"
    and "js_parse L b = Inr (JArr (map JObj (conv # cs)))"
    and "list_all (any_ok L) (map JObj (conv # cs))"
  shows "get_conversation_details N L c i w =
    (obind (conversation_text i conv) (\<lambda>t. Ret (Inr t)), w')"
  using assms
  by (simp add: get_conversation_details_def new_request_def unmarshal_def dec_slice_def dec_map_def
      comp_def list_ex_iff list_all_iff)

text \<open>
  C23. Reading a conversation is taken for its completion: when a start task is READY and the
  service answers the conversation request with an array whose first element is an object,
  the status becomes COMPLETED and the output is never empty, whatever the conversation's
  \<open>execution_status\<close> is (\<open>running\<close> as well as \<open>error\<close>) and whatever the HTTP status code is. The
  one exception: a titled conversation whose identifier has fewer than eight bytes panics.
\<close>

theorem ready_conversation_completes:
  assumes "ts_status t = ''READY''" and "ts_conversation t \<noteq> []"
    and "url_parse_ok (base_url c @ ''/api/v1/app-conversations?ids='' @ ts_conversation t)"
    and "http_do N (set_auth_header c \<lparr>rq_method = ''GET'',
           rq_url = base_url c @ ''/api/v1/app-conversations?ids='' @ ts_conversation t,
           rq_headers = [], rq_body = None\<rparr>) w
         = (Inr \<lparr>status_code = code, resp_body = b, read_err = None\<rparr>, w')"
    and "js_parse L b = Inr (JArr (map JObj (conv # cs)))"
    and "list_all (any_ok L) (map JObj (conv # cs))"
  shows "if length (ts_conversation t) < 8 \<and> jstring conv ''title'' \<noteq> []
    then task_result N L c t w = (Panic ''slice bounds out of range'', w')
    else \<exists>r. task_result N L c t w = (Ret (Inr r), w') \<and> er_status r = ''COMPLETED'' \<and>
           er_output r \<noteq> []"
proof (cases "length (ts_conversation t) < 8 \<and> jstring conv ''title'' \<noteq> []")
  case True
  then show ?thesis
    using details_answer [OF assms(3-6)] conversation_text_panics [of "ts_conversation t" conv]
    by (simp add: task_result_panic [OF assms(1,2)])
next
  case False
  then obtain out where out: "conversation_text (ts_conversation t) conv = Ret out"
    using conversation_text_total [of "ts_conversation t" conv] by (auto simp: not_less)
  then have "out \<noteq> []" by (rule conversation_text_nonempty)
  with False out show ?thesis
    using details_answer [OF assms(3-6)] assms(1,2)
    by (auto simp: task_result_def friendly_status_def zero_result_def)
qed

definition running_conversation :: jmap where
  "running_conversation = [(''execution_status'', JStr ''running''), (''sandbox_status'', JStr ''RUNNING'')]"

theorem ready_conversation_completes_witness:
  "\<exists>r. task_result (answering (\<lambda>_. ok_json ''conv'')) (scan_table [(''conv'', JArr [JObj running_conversation])])
       sample_client \<lparr>ts_id = ''t1'', ts_status = ''READY'', ts_conversation = ''c1'', ts_error = []\<rparr> 0
     = (Ret (Inr r), 0) \<and> er_status r = ''COMPLETED''"
proof -
  let ?t = "\<lparr>ts_id = ''t1'', ts_status = ''READY'', ts_conversation = ''c1'', ts_error = []\<rparr>"
  have "url_parse_ok (base_url sample_client @ ''/api/v1/app-conversations?ids='' @ ts_conversation ?t)"
    by code_simp
  moreover have "jstring running_conversation ''title'' = []"
    by (simp add: running_conversation_def jstring_def jget_def)
  ultimately show ?thesis
    using ready_conversation_completes [of ?t sample_client "answering (\<lambda>_. ok_json ''conv'')" 0 200
        "''conv''" 0 "scan_table [(''conv'', JArr [JObj running_conversation])]" running_conversation "[]"]
    by (auto simp: answering_def ok_json_def scan_table_def running_conversation_def)
qed

lemma split_on_append:
  "split_on c (s @ c # t) = split_on c s @ split_on c t"
  by (induction s) (auto split: list.splits)

lemma split_on_plain: "c \<notin> set s \<Longrightarrow> split_on c s = [s]"
  by (induction s) auto

text \<open>
  The three written forms of a repository name the same one: after any prefix that is empty
  or ends in a slash (a host, a URL), \<open>GetRepository\<close> gives the last two segments back.
\<close>

theorem get_repository_forms:
  assumes "CHR ''/'' \<notin> set owner" and "CHR ''/'' \<notin> set repo"
    and "p = [] \<or> last p = CHR ''/''"
  shows "get_repository (p @ owner @ ''/'' @ repo) = owner @ ''/'' @ repo"
proof (cases "p = []")
  case True
  with assms show ?thesis
    by (simp add: get_repository_def split_on_append split_on_plain)
next
  case False
  with assms(3) obtain q where "p = q @ ''/''" by (metis append_butlast_last_id)
  moreover have "split_on (CHR ''/'') (q @ ''/'' @ owner @ ''/'' @ repo) =
      split_on (CHR ''/'') q @ [owner, repo]"
    using assms(1,2) by (simp add: split_on_append split_on_plain)
  ultimately show ?thesis
    by (simp add: get_repository_def nth_append)
qed

theorem get_repository_forms_witness:
  "get_repository ''https://github.com/owner/repo'' = ''owner/repo'' \<and>
     get_repository ''owner/repo'' = ''owner/repo''"
  using get_repository_forms [of "''owner''" "''repo''" "''https://github.com/''"]
    get_repository_forms [of "''owner''" "''repo''" "[]"] by simp

end
