(* ===== verification/System.thy ===== *)
theory System
  imports Prelude
begin

text \<open>
  State machines, for the components that keep state: the states a machine can reach, and what
  is shared by the proofs about them. The locale \<open>preserved\<close> is the interface of an invariant,
  \<open>simulation\<close> that of a refinement, \<open>threads\<close> that of several threads over a shared state
  with an assertion per thread that the others do not disturb. \<open>rwmutex\<close> is \<open>sync.RWMutex\<close>.
\<close>

section \<open>Reachable states\<close>

inductive reaches :: "('s \<Rightarrow> 's \<Rightarrow> bool) \<Rightarrow> 's \<Rightarrow> 's \<Rightarrow> bool" for step s0 where
  reaches_refl [simp, intro!]: "reaches step s0 s0"
| reaches_step: "reaches step s0 s \<Longrightarrow> step s s' \<Longrightarrow> reaches step s0 s'"

lemma reaches_single: "step s s' \<Longrightarrow> reaches step s s'"
  by (rule reaches_step [OF reaches_refl])

lemma reaches_trans: "reaches step s1 s2 \<Longrightarrow> reaches step s0 s1 \<Longrightarrow> reaches step s0 s2"
  by (induction rule: reaches.induct) (auto intro: reaches_step)

lemma reaches_mono:
  "reaches step s0 s \<Longrightarrow> (\<And>a b. step a b \<Longrightarrow> step' a b) \<Longrightarrow> reaches step' s0 s"
  by (induction rule: reaches.induct) (auto intro: reaches_step)

section \<open>Invariants and simulations\<close>

locale preserved =
  fixes step :: "'s \<Rightarrow> 's \<Rightarrow> bool"
    and ok :: "'s \<Rightarrow> bool"
  assumes ok_step: "ok s \<Longrightarrow> step s s' \<Longrightarrow> ok s'"
begin

lemma ok_reaches: "reaches step s0 s \<Longrightarrow> ok s0 \<Longrightarrow> ok s"
  by (induction rule: reaches.induct) (auto intro: ok_step)

end

text \<open>
  A step of the concrete machine from a good state is a number of steps, perhaps none, of the
  abstract one.
\<close>

locale simulation = preserved step ok
  for step :: "'s \<Rightarrow> 's \<Rightarrow> bool" and ok :: "'s \<Rightarrow> bool" +
  fixes astep :: "'a \<Rightarrow> 'a \<Rightarrow> bool"
    and abs :: "'s \<Rightarrow> 'a"
  assumes sim_step: "ok s \<Longrightarrow> step s s' \<Longrightarrow> reaches astep (abs s) (abs s')"
begin

lemma sim_reaches: "reaches step s0 s \<Longrightarrow> ok s0 \<Longrightarrow> reaches astep (abs s0) (abs s)"
proof (induction rule: reaches.induct)
  case reaches_refl
  show ?case by simp
next
  case (reaches_step s s')
  then have "ok s" by (blast intro: ok_reaches)
  with reaches_step show ?case by (blast intro: reaches_trans sim_step)
qed

end

section \<open>Threads\<close>

text \<open>
  A pool is a shared state and the place each thread is at. One thread moves at a time, or the
  surroundings change the shared state.
\<close>

type_synonym tid = nat

inductive pool_step ::
    "(tid \<Rightarrow> 's \<Rightarrow> 'l \<Rightarrow> 's \<Rightarrow> 'l \<Rightarrow> bool) \<Rightarrow> ('s \<Rightarrow> 's \<Rightarrow> bool) \<Rightarrow>
       's \<times> (tid \<Rightarrow> 'l) \<Rightarrow> 's \<times> (tid \<Rightarrow> 'l) \<Rightarrow> bool" for move env where
  pool_move: "move t s (f t) s' l \<Longrightarrow> pool_step move env (s, f) (s', f(t := l))"
| pool_env: "env s s' \<Longrightarrow> pool_step move env (s, f) (s', f)"

inductive_cases pool_stepE: "pool_step move env p p'"

lemma pool_moves:
  "reaches (pool_step move env) p (s, f) \<Longrightarrow> f t = l \<Longrightarrow> move t s l s' l' \<Longrightarrow>
     reaches (pool_step move env) p (s', f(t := l'))"
  by (auto intro: reaches_step pool_move)

text \<open>
  The assertion \<open>here t l s\<close> of a thread at the place \<open>l\<close> is kept by its own moves, undisturbed
  by those of the others, and by the surroundings (Owicki and Gries).
\<close>

locale threads =
  fixes move :: "tid \<Rightarrow> 's \<Rightarrow> 'l \<Rightarrow> 's \<Rightarrow> 'l \<Rightarrow> bool"
    and env :: "'s \<Rightarrow> 's \<Rightarrow> bool"
    and inv :: "'s \<Rightarrow> bool"
    and here :: "tid \<Rightarrow> 'l \<Rightarrow> 's \<Rightarrow> bool"
  assumes move_own: "inv s \<Longrightarrow> here t l s \<Longrightarrow> move t s l s' l' \<Longrightarrow> inv s' \<and> here t l' s'"
    and move_other:
      "inv s \<Longrightarrow> here t l s \<Longrightarrow> here v m s \<Longrightarrow> t \<noteq> v \<Longrightarrow> move t s l s' l' \<Longrightarrow> here v m s'"
    and env_keeps: "inv s \<Longrightarrow> env s s' \<Longrightarrow> inv s' \<and> (\<forall>v m. here v m s \<longrightarrow> here v m s')"

sublocale threads \<subseteq> preserved "pool_step move env" "\<lambda>(s, f). inv s \<and> (\<forall>t. here t (f t) s)"
proof unfold_locales
  fix p p'
  assume ok: "case p of (s, f) \<Rightarrow> inv s \<and> (\<forall>t. here t (f t) s)" and step: "pool_step move env p p'"
  from step show "case p' of (s, f) \<Rightarrow> inv s \<and> (\<forall>t. here t (f t) s)"
  proof cases
    case (pool_move t s f s' l)
    with ok have inv: "inv s" and here: "\<And>v. here v (f v) s" by simp_all
    from move_own [OF inv here pool_move(3)] have "inv s'" "here t l s'" by simp_all
    moreover have "here v (f v) s'" if "v \<noteq> t" for v
      using that by (intro move_other [OF inv here here _ pool_move(3)]) auto
    ultimately show ?thesis using pool_move by simp
  next
    case (pool_env s s' f)
    with ok env_keeps [OF _ pool_env(3)] show ?thesis by auto
  qed
qed

section \<open>sync.RWMutex\<close>

text \<open>
  One writer or any number of readers. A call that would block is no step. That a waiting writer
  keeps new readers out is an order between waiting threads, and every order is allowed here.
\<close>

record rwmutex =
  mu_writer :: "tid option"
  mu_readers :: "tid list"

definition free_mutex :: rwmutex where
  "free_mutex = \<lparr>mu_writer = None, mu_readers = []\<rparr>"

definition mu_lock :: "tid \<Rightarrow> rwmutex \<Rightarrow> rwmutex option" where
  "mu_lock t m =
     (if mu_writer m = None \<and> mu_readers m = [] then Some (m\<lparr>mu_writer := Some t\<rparr>) else None)"

definition mu_rlock :: "tid \<Rightarrow> rwmutex \<Rightarrow> rwmutex option" where
  "mu_rlock t m =
     (if mu_writer m = None then Some (m\<lparr>mu_readers := t # mu_readers m\<rparr>) else None)"

definition mu_unlock :: "rwmutex \<Rightarrow> rwmutex" where
  "mu_unlock m = m\<lparr>mu_writer := None\<rparr>"

definition mu_runlock :: "tid \<Rightarrow> rwmutex \<Rightarrow> rwmutex" where
  "mu_runlock t m = m\<lparr>mu_readers := remove1 t (mu_readers m)\<rparr>"

definition mutex_ok :: "rwmutex \<Rightarrow> bool" where
  "mutex_ok m \<longleftrightarrow> distinct (mu_readers m) \<and> (mu_writer m \<noteq> None \<longrightarrow> mu_readers m = [])"

text \<open>What a thread holds: nothing, or the lock for reading or for writing.\<close>

datatype hold = Free | Read | Write

definition held :: "rwmutex \<Rightarrow> tid \<Rightarrow> hold" where
  "held m t = (if mu_writer m = Some t then Write else if t \<in> set (mu_readers m) then Read else Free)"

lemma mutex_ok_free [simp]: "mutex_ok free_mutex" "held free_mutex t = Free"
  by (simp_all add: mutex_ok_def free_mutex_def held_def)

lemma mu_lock_held:
  assumes "mu_lock t m = Some m'"
  shows "mutex_ok m'" "held m' v = (if v = t then Write else Free)" "held m v = Free"
    "mu_writer m' = Some t"
  using assms by (auto simp: mu_lock_def mutex_ok_def held_def split: if_splits)

lemma mu_rlock_held:
  assumes "mutex_ok m" and "held m t = Free" and "mu_rlock t m = Some m'"
  shows "mutex_ok m'" "held m' v = (if v = t then Read else held m v)"
    "mu_writer m = None" "mu_writer m' = None"
  using assms by (auto simp: mu_rlock_def mutex_ok_def held_def split: if_splits)

lemma mu_unlock_held:
  assumes "mutex_ok m" and "held m t = Write"
  shows "mutex_ok (mu_unlock m)" "held (mu_unlock m) v = Free" "mu_writer (mu_unlock m) = None"
  using assms by (auto simp: mu_unlock_def mutex_ok_def held_def split: if_splits)

lemma mu_runlock_held:
  assumes "mutex_ok m" and "held m t = Read"
  shows "mutex_ok (mu_runlock t m)" "held (mu_runlock t m) v = (if v = t then Free else held m v)"
    "mu_writer (mu_runlock t m) = None" "mu_writer m = None"
  using assms by (auto simp: mu_runlock_def mutex_ok_def held_def split: if_splits)

lemma writer_alone:
  "mutex_ok m \<Longrightarrow> held m t = Write \<Longrightarrow> v \<noteq> t \<Longrightarrow> held m v = Free"
  by (auto simp: mutex_ok_def held_def split: if_splits)

lemma read_no_writer: "mutex_ok m \<Longrightarrow> held m t = Read \<Longrightarrow> mu_writer m = None"
  by (auto simp: mutex_ok_def held_def split: if_splits)

lemma held_writer: "held m t = Write \<longleftrightarrow> mu_writer m = Some t"
  by (auto simp: held_def)

lemma nobody_locks:
  "mutex_ok m \<Longrightarrow> (\<And>t. held m t = Free) \<Longrightarrow>
     mu_lock t m = Some (m\<lparr>mu_writer := Some t\<rparr>) \<and> mu_rlock t m = Some (m\<lparr>mu_readers := [t]\<rparr>)"
  by (auto simp: mu_lock_def mu_rlock_def held_def split: if_splits)
    (metis list.set_intros(1) neq_Nil_conv not_None_eq hold.distinct)+

end
