(* ===== verification/Lifecycle.thy ===== *)
theory Lifecycle
  imports Intent OpenHands System
begin

text \<open>
  \<open>internal/intent/lifecycle.go\<close>: the execution lifecycle of a conversation. It holds the task
  being executed, the bounded history and the cancel channel; \<open>Execute\<close> runs one handler per
  kind of intent, the execution and investigation handlers through the OpenHands client.

  An operation is one step here; Lifecycle_Threads shows that the lock makes the calls of several
  threads such steps, and what holding it during a dispatch means. A computation takes the lifecycle
  and the world and returns both; the result is an outcome, because a panic inside a dispatch leaves
  the state it had reached. The channel is an identifier: \<open>close\<close> panics on a closed or
  nil channel. A caller that keeps the pointer \<open>GetActiveExecution\<close> returns is not
  followed.
\<close>

section \<open>State\<close>

record task_execution =
  te_id :: string
  te_intent :: "intent option"
  te_description :: string
  te_status :: string
  te_start :: int
  te_result :: "execution_result option"

record lifecycle =
  lc_client :: "oh_client option"
  lc_bridge :: "oh_client option"
  active_task :: "task_execution option"
  lc_history :: "message list"
  cancel_chan :: "nat option"
  is_cancelled :: bool
  closed_chans :: "nat list"
  next_chan :: nat

definition new_execution_lifecycle :: "environ \<Rightarrow> lifecycle res" where
  "new_execution_lifecycle env =
     (let lc = \<lparr>lc_client = None, lc_bridge = None, active_task = None, lc_history = [],
                cancel_chan = Some 0, is_cancelled = False, closed_chans = [], next_chan = 1\<rparr>
      in case new_client_from_env env of
           Inr c \<Rightarrow> Inr (lc\<lparr>lc_client := Some c, lc_bridge := Some c\<rparr>)
         | Inl e \<Rightarrow> Inr lc)"

text \<open>\<open>close(lc.CancelChan); lc.CancelChan = make(chan struct{})\<close>\<close>

definition renew_chan :: "lifecycle \<Rightarrow> lifecycle outcome" where
  "renew_chan lc =
     (case cancel_chan lc of
        None \<Rightarrow> Panic ''close of nil channel''
      | Some ch \<Rightarrow>
          if ch \<in> set (closed_chans lc) then Panic ''close of closed channel''
          else Ret (lc\<lparr>closed_chans := ch # closed_chans lc, cancel_chan := Some (next_chan lc),
                       next_chan := next_chan lc + 1\<rparr>))"

definition set_status :: "string \<Rightarrow> lifecycle \<Rightarrow> lifecycle" where
  "set_status st lc =
     (case active_task lc of
        None \<Rightarrow> lc
      | Some t \<Rightarrow> lc\<lparr>active_task := Some (t\<lparr>te_status := st\<rparr>)\<rparr>)"

text \<open>\<open>fmt.Sprintf("%v", xs)\<close> for a slice of strings.\<close>

definition show_strings :: "string list \<Rightarrow> string" where
  "show_strings xs = ''['' @ join_with '' '' xs @ '']''"

definition cut_text :: "nat \<Rightarrow> string \<Rightarrow> string" where
  "cut_text n s = (if n < length s then take n s @ ''...'' else s)"

type_synonym 'w exec = "lifecycle \<Rightarrow> 'w \<Rightarrow> (string res outcome \<times> lifecycle \<times> 'w) option"

definition reply :: "string \<Rightarrow> 'w exec" where
  "reply s lc w = Some (Ret (Inr s), lc, w)"

section \<open>Inference without an intent\<close>

definition execution_triggers :: "string list" where
  "execution_triggers =
     [''execute'', ''executar'', ''corrija'', ''fix'', ''apply'', ''corrigir'', ''rode'', ''rodar'',
      ''implemente'', ''fa'' @ encode_rune 0xE7 @ ''a'', ''fazer'', ''aplique'']"

definition investigation_triggers :: "string list" where
  "investigation_triggers =
     [''why'', ''explain'', ''what'', ''how'', ''show'', ''qual'', ''como'', ''oq'', '' Explique'',
      ''verifique'', ''check'', ''status'', ''estado'']"

definition simple_intent :: "intent_type \<Rightarrow> string \<Rightarrow> bool \<Rightarrow> intent" where
  "simple_intent ty task ex = zero_intent\<lparr>it_type := ty, it_task := task, should_execute := ex\<rparr>"

definition infer_missing :: "unicode_tables \<Rightarrow> string \<Rightarrow> intent" where
  "infer_missing u msg =
     (let lower = to_lower u msg
      in if list_ex (\<lambda>t. contains lower t \<and> \<not> contains lower ''why'' \<and> \<not> contains lower ''just'')
              execution_triggers
         then simple_intent IntentExecution msg True
         else if list_ex (contains lower) investigation_triggers
         then simple_intent IntentInvestigation msg False
         else simple_intent IntentExecution msg True)"

section \<open>Handlers\<close>

definition handle_blocking :: "'w exec" where
  "handle_blocking lc w =
     (let lc = lc\<lparr>is_cancelled := True\<rparr>
      in case renew_chan lc of
           Panic p \<Rightarrow> Some (Panic p, lc, w)
         | Ret lc \<Rightarrow> reply ''Execution cancelled. What would you like me to do next?''
                         (lc\<lparr>active_task := None\<rparr>) w)"

text \<open>What \<open>handleInvestigation\<close> does with the result of the dispatch.\<close>

definition finish_analysis :: "execution_result res \<Rightarrow> 'w exec" where
  "finish_analysis x lc w =
     (case x of
        Inl e \<Rightarrow> reply (''Analysis error: '' @ e) lc w
      | Inr r \<Rightarrow>
          if er_output r \<noteq> [] then reply (er_output r) lc w
          else if er_status r = ''COMPLETED''
          then reply (''Analysis completed. Files: '' @ show_strings (er_files r)) lc w
          else reply (''Analysis status: '' @ er_status r) lc w)"

definition analysis_task :: "string \<Rightarrow> string" where
  "analysis_task msg = ''Analyze and explain: '' @ msg"

definition handle_investigation :: "'w net \<Rightarrow> json_lib \<Rightarrow> string \<Rightarrow> 'w exec" where
  "handle_investigation N L msg lc w =
     (case lc_client lc of
        Some c \<Rightarrow>
          (case dispatch N L c (analysis_task msg) (3 * minute) w of
             None \<Rightarrow> None
           | Some (Panic p, w) \<Rightarrow> Some (Panic p, lc, w)
           | Some (Ret x, w) \<Rightarrow> finish_analysis x lc w)
      | None \<Rightarrow>
          reply (''Analyzing the current state...'' @ nl @ nl @
                 (case active_task lc of
                    None \<Rightarrow> []
                  | Some t \<Rightarrow> ''Current execution: '' @ te_description t @ '' ('' @ te_status t @ '')'' @ nl) @
                 nl @ ''Analysis complete. Would you like me to suggest fixes, or would you prefer to investigate further?'')
            lc w)"

definition task_running :: "lifecycle \<Rightarrow> bool" where
  "task_running lc \<longleftrightarrow>
     (case active_task lc of None \<Rightarrow> False | Some t \<Rightarrow> is_running (te_status t))"

definition already_running :: string where
  "already_running = ''There'' @ squote @
     ''s already an execution in progress. Would you like me to stop it first?''"

definition execution_task :: "intent \<Rightarrow> string \<Rightarrow> string" where
  "execution_task it msg = (if it_task it = [] then msg else it_task it)"

definition execution_timeout :: "intent \<Rightarrow> int" where
  "execution_timeout it = (if urgency it = ''high'' then 5 * minute else 10 * minute)"

definition record_task :: "intent \<Rightarrow> string \<Rightarrow> int \<Rightarrow> lifecycle \<Rightarrow> lifecycle" where
  "record_task it msg now lc =
     lc\<lparr>is_cancelled := False,
        active_task := Some \<lparr>te_id = [], te_intent = Some it, te_description = execution_task it msg,
          te_status = ''RUNNING'', te_start = now, te_result = None\<rparr>\<rparr>"

text \<open>What \<open>handleExecution\<close> does with the result of the dispatch.\<close>

definition finish_execution :: "execution_result res \<Rightarrow> 'w exec" where
  "finish_execution x lc w =
     (case x of
        Inl e \<Rightarrow> reply (''OpenHands execution error: '' @ e) (set_status ''FAILED'' lc) w
      | Inr r \<Rightarrow>
          (let lc = (case active_task lc of
                       None \<Rightarrow> lc | Some t \<Rightarrow> lc\<lparr>active_task := Some (t\<lparr>te_id := er_task_id r\<rparr>)\<rparr>)
           in if er_status r = ''COMPLETED'' then
                reply (if er_output r \<noteq> [] then er_output r
                       else ''Execution completed. Modified files: '' @ show_strings (er_files r))
                  (set_status ''COMPLETED'' lc) w
              else if er_status r = ''FAILED'' then
                reply (''Execution failed: '' @ er_error r) (set_status ''FAILED'' lc) w
              else reply (''Execution status: '' @ er_status r) (set_status (er_status r) lc) w))"

definition handle_execution ::
    "'w net \<Rightarrow> json_lib \<Rightarrow> intent \<Rightarrow> string \<Rightarrow> 'w exec" where
  "handle_execution N L it msg lc w =
     (case lc_client lc of
        None \<Rightarrow> reply ''OpenHands execution is not configured. Please set OPENHANDS_API_KEY.'' lc w
      | Some c \<Rightarrow>
          if task_running lc then reply already_running lc w
          else
            (let (now, w) = time_now N w;
                 lc = record_task it msg now lc
             in case dispatch N L c (execution_task it msg) (execution_timeout it) w of
                  None \<Rightarrow> None
                | Some (Panic p, w) \<Rightarrow> Some (Panic p, lc, w)
                | Some (Ret x, w) \<Rightarrow> finish_execution x lc w))"

definition handle_planning :: "'w exec" where
  "handle_planning lc w =
     reply (''Let me think about the path forward...'' @ nl @ nl @
            (case active_task lc of
               None \<Rightarrow> [] | Some t \<Rightarrow> ''Current execution: '' @ te_status t @ nl) @
            nl @ lines [''Suggested path:'', ''1. Investigate current state'',
                        ''2. Identify required changes'', ''3. Apply fixes via execution'',
                        ''4. Validate results'', []] @
            ''Would you like me to proceed with any of these steps?'') lc w"

definition handle_prioritization :: "'w exec" where
  "handle_prioritization lc w =
     reply (''Analyzing operational priorities...'' @ nl @ nl @
            (case active_task lc of None \<Rightarrow> [] | Some t \<Rightarrow> ''Active: '' @ te_status t @ nl) @
            nl @ lines [''Priority order:'', ''1. Execution readiness'', ''2. Repository health'',
                        ''3. Validation status'', []] @
            ''Would you like me to address any of these?'') lc w"

definition history_line :: "string \<Rightarrow> string \<Rightarrow> string \<Rightarrow> nat \<Rightarrow> message \<Rightarrow> string" where
  "history_line a b c n m = a @ msg_role m @ b @ cut_text n (msg_content m) @ c"

text \<open>The loop skips every entry but the newest five.\<close>

definition handle_auditing :: "'w exec" where
  "handle_auditing lc w =
     reply (''Auditing repository state...'' @ nl @ nl @ ''Recent activity:'' @ nl @
            concat (map (history_line ''- ['' ''] '' nl 50) (keep_last 5 (lc_history lc))) @
            nl @ ''What would you like me to audit in detail?'') lc w"

definition handle_clarification :: "'w exec" where
  "handle_clarification lc w =
     reply (if active_task lc \<noteq> None
            then ''There'' @ squote @
                 ''s an active execution in progress. Would you like me to stop it or continue?''
            else ''I want to make sure I understand correctly. Would you like me to:'' @ nl @
                 ''- Analyze the current state?'' @ nl @ ''- Execute fixes?'' @ nl @
                 ''- Explain what I found?'' @ nl @ ''- Stop any running execution?'') lc w"

definition handle_acknowledgment :: "'w exec" where
  "handle_acknowledgment lc w =
     reply (case active_task lc of
              None \<Rightarrow> ''Understood. What would you like me to do next?''
            | Some t \<Rightarrow>
                if te_status t = ''COMPLETED''
                then ''Execution completed: '' @ te_description t @ nl @ nl @
                     ''Would you like me to review the results?''
                else ''Understood. Current execution: '' @ te_status t @ nl @ nl @
                     ''What would you like me to do?'') lc w"

definition execute ::
    "unicode_tables \<Rightarrow> 'w net \<Rightarrow> json_lib \<Rightarrow> intent option \<Rightarrow> string \<Rightarrow> string \<Rightarrow> 'w exec" where
  "execute u N L iopt msg repo lc w =
     (let it = (case iopt of Some it \<Rightarrow> it | None \<Rightarrow> infer_missing u msg)
      in case it_type it of
           IntentBlocking \<Rightarrow> handle_blocking lc w
         | IntentInvestigation \<Rightarrow> handle_investigation N L msg lc w
         | IntentExecution \<Rightarrow> handle_execution N L it msg lc w
         | IntentPlanning \<Rightarrow> handle_planning lc w
         | IntentPrioritization \<Rightarrow> handle_prioritization lc w
         | IntentAuditing \<Rightarrow> handle_auditing lc w
         | IntentClarification \<Rightarrow> handle_clarification lc w
         | IntentAcknowledgment \<Rightarrow> handle_acknowledgment lc w
         | IntentUnknown \<Rightarrow>
             reply (''I'' @ squote @ ''m not sure what you'' @ squote @
                    ''d like me to do. Could you clarify?'') lc w)"

text \<open>\<open>dispatchExecution\<close>, the asynchronous form; nothing in the sources calls it.\<close>

definition dispatch_execution ::
    "'w net \<Rightarrow> json_lib \<Rightarrow> string \<Rightarrow> lifecycle \<Rightarrow> 'w \<Rightarrow> (unit outcome \<times> lifecycle \<times> 'w) option" where
  "dispatch_execution N L desc lc w =
     (let high = (case active_task lc of
                    Some t \<Rightarrow> (case te_intent t of Some it \<Rightarrow> urgency it = ''high'' | None \<Rightarrow> False)
                  | None \<Rightarrow> False);
          timeout = (if high then 5 * minute else 10 * minute)
      in case lc_client lc of
           None \<Rightarrow> Some (Panic ''nil pointer dereference'', lc, w)
         | Some c \<Rightarrow>
             (case dispatch N L c desc timeout w of
                None \<Rightarrow> None
              | Some (Panic p, w) \<Rightarrow> Some (Panic p, lc, w)
              | Some (Ret x, w) \<Rightarrow>
                  (case active_task lc of
                     None \<Rightarrow> Some (Ret (), lc, w)
                   | Some t \<Rightarrow>
                       (case x of
                          Inl e \<Rightarrow>
                            Some (Ret (), lc\<lparr>active_task := Some (t\<lparr>te_status := ''FAILED'',
                              te_result := Some (zero_result\<lparr>er_status := ''failed'', er_error := e\<rparr>)\<rparr>)\<rparr>, w)
                        | Inr r \<Rightarrow>
                            Some (Ret (), lc\<lparr>active_task := Some (t\<lparr>te_id := er_task_id r,
                              te_result := Some r, te_status := er_status r\<rparr>)\<rparr>, w)))))"

section \<open>The other operations\<close>

definition lc_get_status :: "'w net \<Rightarrow> lifecycle \<Rightarrow> 'w \<Rightarrow> string \<times> 'w" where
  "lc_get_status N lc w =
     (case active_task lc of
        None \<Rightarrow> (''Ready for operational tasks'', w)
      | Some t \<Rightarrow>
          (case time_now N w of (now, w) \<Rightarrow>
             (te_status t @ '': '' @ te_description t @
              '' ('' @ show_duration (round_second (now - te_start t)) @ '')'', w)))"

definition push_message :: "message \<Rightarrow> lifecycle \<Rightarrow> lifecycle" where
  "push_message m lc = lc\<lparr>lc_history := keep_last 50 (lc_history lc @ [m])\<rparr>"

definition lc_add_to_history ::
    "'w net \<Rightarrow> string \<Rightarrow> string \<Rightarrow> lifecycle \<Rightarrow> 'w \<Rightarrow> lifecycle \<times> 'w" where
  "lc_add_to_history N role content lc w =
     (case time_now N w of (now, w) \<Rightarrow>
        (push_message \<lparr>msg_role = role, msg_content = content, msg_time = now\<rparr> lc, w))"

definition lc_get_history :: "int \<Rightarrow> lifecycle \<Rightarrow> message list outcome" where
  "lc_get_history count lc = recent (lc_history lc) count"

definition stop_execution :: "lifecycle \<Rightarrow> goerr option outcome \<times> lifecycle" where
  "stop_execution lc =
     (case active_task lc of
        None \<Rightarrow> (Ret (Some ''no active execution''), lc)
      | Some t \<Rightarrow>
          (let lc = lc\<lparr>is_cancelled := True\<rparr>
           in case (if cancel_chan lc = None then Ret lc else renew_chan lc) of
                Panic p \<Rightarrow> (Panic p, lc)
              | Ret lc \<Rightarrow> (Ret None, set_status ''CANCELLED'' lc)))"

definition is_executing :: "lifecycle \<Rightarrow> bool" where
  "is_executing lc \<longleftrightarrow>
     (case active_task lc of
        None \<Rightarrow> False
      | Some t \<Rightarrow> te_status t = ''RUNNING'' \<or> te_status t = ''IN_PROGRESS'' \<or> te_status t = ''STARTING'')"

definition get_active_execution :: "lifecycle \<Rightarrow> task_execution option" where
  "get_active_execution lc = active_task lc"

definition has_openhands :: "lifecycle \<Rightarrow> bool" where
  "has_openhands lc \<longleftrightarrow> lc_client lc \<noteq> None"

definition format_lifecycle_status :: "'w net \<Rightarrow> lifecycle \<Rightarrow> 'w \<Rightarrow> string outcome \<times> 'w" where
  "format_lifecycle_status N lc w =
     (case lc_get_status N lc w of (status, w) \<Rightarrow>
        (obind (lc_get_history 3 lc) (\<lambda>history.
           Ret (''=== Execution Lifecycle ==='' @ nl @
                (if has_openhands lc then ''OpenHands: configured'' @ nl
                 else ''OpenHands: not configured'' @ nl) @
                ''Status: '' @ status @ nl @
                (if history \<noteq> []
                 then ''Recent:'' @ nl @ concat (map (history_line ''  '' '': '' nl 40) history)
                 else []))), w))"

section \<open>Histories\<close>

interpretation lc_log: bounded_log push_message lc_history 50
  by unfold_locales (simp_all add: push_message_def)

definition add_messages ::
    "'w net \<Rightarrow> (string \<times> string) list \<Rightarrow> lifecycle \<times> 'w \<Rightarrow> lifecycle \<times> 'w" where
  "add_messages N ms s = fold (\<lambda>(r, c) (lc, w). lc_add_to_history N r c lc w) ms s"

lemma add_messages_push:
  "\<exists>es. map (\<lambda>m. (msg_role m, msg_content m)) es = ms \<and>
     fst (add_messages N ms (lc, w)) = fold push_message es lc"
proof (induction ms arbitrary: lc w)
  case Nil
  then show ?case by (simp add: add_messages_def)
next
  case (Cons a ms)
  obtain r c where a: "a = (r, c)" by (cases a)
  obtain now w1 where t: "time_now N w = (now, w1)" by (cases "time_now N w")
  let ?m = "\<lparr>msg_role = r, msg_content = c, msg_time = now\<rparr>"
  from Cons.IH [of "push_message ?m lc" w1] obtain es where
    "map (\<lambda>m. (msg_role m, msg_content m)) es = ms"
    "fst (add_messages N ms (push_message ?m lc, w1)) = fold push_message es (push_message ?m lc)"
    by blast
  then show ?case
    by (intro exI [of _ "?m # es"]) (simp add: add_messages_def lc_add_to_history_def a t)
qed

lemma map_keep_last: "map f (keep_last n xs) = keep_last n (map f xs)"
  by (simp add: keep_last_def drop_map)

section \<open>Frames\<close>

text \<open>What no handler but the blocking one touches.\<close>

definition same_frame :: "lifecycle \<Rightarrow> lifecycle \<Rightarrow> bool" where
  "same_frame lc lc' \<longleftrightarrow>
     lc_client lc' = lc_client lc \<and> lc_history lc' = lc_history lc \<and>
     cancel_chan lc' = cancel_chan lc \<and> closed_chans lc' = closed_chans lc \<and>
     next_chan lc' = next_chan lc"

named_theorems handler_defs \<open>the handlers and their building blocks\<close>

lemmas [handler_defs] =
  reply_def handle_planning_def handle_prioritization_def handle_auditing_def
  handle_clarification_def handle_acknowledgment_def

lemma same_frame_refl [simp]: "same_frame lc lc"
  by (simp add: same_frame_def)

lemma same_frame_set_status [simp]: "same_frame lc (set_status st lc') = same_frame lc lc'"
  by (auto simp: same_frame_def set_status_def split: option.splits)

lemma same_frame_task [simp]:
  "same_frame lc (lc'\<lparr>active_task := t\<rparr>) = same_frame lc lc'"
  "same_frame lc (lc'\<lparr>is_cancelled := b\<rparr>) = same_frame lc lc'"
  by (simp_all add: same_frame_def)

lemma finish_execution_frame:
  "finish_execution x lc w = Some (y, lc', w') \<Longrightarrow> same_frame lc lc'"
  by (auto simp: finish_execution_def reply_def Let_def split: sum.splits if_splits option.splits)

lemma handle_investigation_state:
  "handle_investigation N L msg lc w = Some (y, lc', w') \<Longrightarrow> lc' = lc"
  by (auto simp: handle_investigation_def finish_analysis_def reply_def
      split: option.splits sum.splits outcome.splits if_splits prod.splits)

lemma handle_execution_frame:
  assumes "handle_execution N L it msg lc w = Some (y, lc', w')"
  shows "same_frame lc lc'"
  using assms finish_execution_frame
  by (fastforce simp: handle_execution_def record_task_def reply_def Let_def same_frame_def
      split: option.splits outcome.splits if_splits prod.splits)

lemma execute_frame:
  assumes "execute u N L iopt msg repo lc w = Some (y, lc', w')"
    and "\<forall>it. iopt = Some it \<longrightarrow> it_type it \<noteq> IntentBlocking"
  shows "same_frame lc lc'"
proof -
  have "it_type (infer_missing u msg) \<noteq> IntentBlocking"
    by (simp add: infer_missing_def simple_intent_def Let_def)
  with assms show ?thesis
    by (auto simp: execute_def handler_defs Let_def
        dest: handle_execution_frame handle_investigation_state
        split: option.splits intent_type.splits)
qed

section \<open>Reachable states\<close>

datatype lc_op =
    OpExecute "intent option" string string
  | OpAddToHistory string string
  | OpStopExecution

fun lc_apply ::
    "unicode_tables \<Rightarrow> 'w net \<Rightarrow> json_lib \<Rightarrow> lc_op \<Rightarrow> lifecycle \<times> 'w \<Rightarrow> (lifecycle \<times> 'w) option" where
  "lc_apply u N L (OpExecute iopt msg repo) (lc, w) = map_option snd (execute u N L iopt msg repo lc w)"
| "lc_apply u N L (OpAddToHistory r c) (lc, w) = Some (lc_add_to_history N r c lc w)"
| "lc_apply u N L OpStopExecution (lc, w) = Some (snd (stop_execution lc), w)"

inductive lc_step ::
    "unicode_tables \<Rightarrow> 'w net \<Rightarrow> json_lib \<Rightarrow> lifecycle \<times> 'w \<Rightarrow> lifecycle \<times> 'w \<Rightarrow> bool"
  for u N L where
  lc_does: "lc_apply u N L op s = Some s' \<Longrightarrow> lc_step u N L s s'"

inductive_simps lc_step_iff: "lc_step u N L s s'"

abbreviation lc_reach ::
    "unicode_tables \<Rightarrow> 'w net \<Rightarrow> json_lib \<Rightarrow> lifecycle \<times> 'w \<Rightarrow> lifecycle \<times> 'w \<Rightarrow> bool" where
  "lc_reach u N L \<equiv> reaches (lc_step u N L)"

definition lc_ok :: "lifecycle \<Rightarrow> bool" where
  "lc_ok lc \<longleftrightarrow>
     cancel_chan lc \<noteq> None \<and> the (cancel_chan lc) \<notin> set (closed_chans lc) \<and>
     the (cancel_chan lc) < next_chan lc \<and>
     list_all (\<lambda>ch. ch < next_chan lc) (closed_chans lc) \<and> length (lc_history lc) \<le> 50"

lemma lc_ok_frame: "same_frame lc lc' \<Longrightarrow> lc_ok lc' = lc_ok lc"
  by (simp add: lc_ok_def same_frame_def)

lemma renew_chan_ok:
  assumes "lc_ok lc"
  shows "\<exists>lc'. renew_chan lc = Ret lc' \<and> lc_ok lc' \<and> active_task lc' = active_task lc"
  using assms by (auto simp: renew_chan_def lc_ok_def list_all_iff split: option.splits)

lemma handle_blocking_ok:
  assumes "lc_ok lc"
  shows "\<exists>lc'. handle_blocking lc w =
      Some (Ret (Inr ''Execution cancelled. What would you like me to do next?''), lc', w) \<and>
    lc_ok lc' \<and> active_task lc' = None"
proof -
  have "lc_ok (lc\<lparr>is_cancelled := True\<rparr>)" using assms by (simp add: lc_ok_def)
  then obtain lc' where "renew_chan (lc\<lparr>is_cancelled := True\<rparr>) = Ret lc'" "lc_ok lc'"
    using renew_chan_ok by blast
  then show ?thesis by (simp add: handle_blocking_def reply_def lc_ok_def)
qed

lemma stop_execution_ok:
  assumes "lc_ok lc"
  shows "\<exists>e lc'. stop_execution lc = (Ret e, lc') \<and> lc_ok lc'"
proof -
  have ok: "lc_ok (lc\<lparr>is_cancelled := True\<rparr>)" and c: "cancel_chan lc \<noteq> None"
    using assms by (auto simp: lc_ok_def)
  from renew_chan_ok [OF ok] obtain lc' where
    "renew_chan (lc\<lparr>is_cancelled := True\<rparr>) = Ret lc'" "lc_ok lc'" by blast
  moreover from this have "lc_ok (set_status st lc')" for st
    using lc_ok_frame [of lc' "set_status st lc'"] by simp
  ultimately show ?thesis
    using assms c by (auto simp: stop_execution_def split: option.splits)
qed

lemma stop_execution_clears:
  assumes "lc_ok lc"
  shows "\<not> task_running (snd (stop_execution lc))"
proof -
  have ok: "lc_ok (lc\<lparr>is_cancelled := True\<rparr>)" and c: "cancel_chan lc \<noteq> None"
    using assms by (auto simp: lc_ok_def)
  from renew_chan_ok [OF ok] obtain lc' where
    "renew_chan (lc\<lparr>is_cancelled := True\<rparr>) = Ret lc'" "active_task lc' = active_task lc" by auto
  then show ?thesis
    using c by (auto simp: stop_execution_def task_running_def set_status_def is_running_def
        split: option.splits)
qed

lemma execute_ok:
  assumes "lc_ok lc" and "execute u N L iopt msg repo lc w = Some (y, lc', w')"
  shows "lc_ok lc'"
proof (cases "\<exists>it. iopt = Some it \<and> it_type it = IntentBlocking")
  case True
  with assms(2) have "handle_blocking lc w = Some (y, lc', w')" by (auto simp: execute_def)
  with handle_blocking_ok [OF assms(1), of w] show ?thesis by auto
next
  case False
  with execute_frame [OF assms(2)] lc_ok_frame assms(1) show ?thesis by blast
qed

lemma push_message_ok: "lc_ok lc \<Longrightarrow> lc_ok (push_message m lc)"
  using lc_log.length_push [of m lc] by (simp add: lc_ok_def push_message_def)

lemma lc_apply_ok: "lc_ok (fst s) \<Longrightarrow> lc_apply u N L op s = Some s' \<Longrightarrow> lc_ok (fst s')"
proof (cases op)
  case OpStopExecution
  moreover assume "lc_ok (fst s)" "lc_apply u N L op s = Some s'"
  ultimately show ?thesis using stop_execution_ok [of "fst s"] by (cases s) auto
qed (cases s; auto simp: execute_ok push_message_ok lc_add_to_history_def split: prod.splits)+

interpretation lc_inv: preserved "lc_step u N L" "\<lambda>s. lc_ok (fst s)" for u N L
  by unfold_locales (auto simp: lc_step_iff intro: lc_apply_ok)

lemma new_lifecycle_ok: "\<exists>lc. new_execution_lifecycle env = Inr lc \<and> lc_ok lc \<and> active_task lc = None"
  by (simp add: new_execution_lifecycle_def Let_def lc_ok_def split: sum.splits)

section \<open>A running task\<close>

fun stops :: "lc_op \<Rightarrow> bool" where
  "stops (OpExecute (Some it) msg repo) \<longleftrightarrow> it_type it = IntentBlocking"
| "stops OpStopExecution \<longleftrightarrow> True"
| "stops _ \<longleftrightarrow> False"

lemma infer_missing_type:
  "it_type (infer_missing u msg) = IntentExecution \<or> it_type (infer_missing u msg) = IntentInvestigation"
  by (simp add: infer_missing_def simple_intent_def Let_def)

lemma handle_execution_running:
  "task_running lc \<Longrightarrow> lc_client lc \<noteq> None \<Longrightarrow>
     handle_execution N L it msg lc w = Some (Ret (Inr already_running), lc, w)"
  by (auto simp: handle_execution_def reply_def)

lemma running_refuses:
  assumes "task_running lc" and "lc_client lc \<noteq> None"
    and "it_type (case iopt of Some it \<Rightarrow> it | None \<Rightarrow> infer_missing u msg) = IntentExecution"
  shows "execute u N L iopt msg repo lc w = Some (Ret (Inr already_running), lc, w)"
  using assms by (simp add: execute_def handle_execution_running Let_def)

lemma execute_running:
  assumes "task_running lc" and "lc_client lc \<noteq> None"
    and "execute u N L iopt msg repo lc w = Some (y, lc', w')"
    and "\<not> stops (OpExecute iopt msg repo)"
  shows "lc' = lc"
proof -
  obtain it where it: "it = (case iopt of Some it \<Rightarrow> it | None \<Rightarrow> infer_missing u msg)" by simp
  have "it_type it \<noteq> IntentBlocking"
    using assms(4) infer_missing_type [of u msg] it by (cases iopt) auto
  with assms(3) show ?thesis
    unfolding execute_def it [symmetric] Let_def
    by (auto simp: handler_defs handle_execution_running [OF assms(1,2)]
        dest: handle_investigation_state split: intent_type.splits)
qed

lemma lc_apply_running:
  assumes "task_running (fst s)" and "lc_client (fst s) \<noteq> None" and "\<not> stops op"
    and "lc_apply u N L op s = Some s'"
  shows "active_task (fst s') = active_task (fst s) \<and> lc_client (fst s') = lc_client (fst s)"
proof (cases op)
  case (OpExecute iopt msg repo)
  with assms show ?thesis
    by (cases s) (auto dest: execute_running [rotated 2])
next
  case (OpAddToHistory r c)
  with assms show ?thesis
    by (cases s) (auto simp: lc_add_to_history_def push_message_def split: prod.splits)
next
  case OpStopExecution
  with assms show ?thesis by simp
qed

primrec lc_run ::
    "unicode_tables \<Rightarrow> 'w net \<Rightarrow> json_lib \<Rightarrow> lc_op list \<Rightarrow> lifecycle \<times> 'w \<Rightarrow> (lifecycle \<times> 'w) option" where
  "lc_run u N L [] s = Some s"
| "lc_run u N L (op # ops) s = Option.bind (lc_apply u N L op s) (lc_run u N L ops)"

lemma lc_run_running:
  assumes "lc_run u N L ops s = Some s'" and "task_running (fst s)"
    and "lc_client (fst s) \<noteq> None" and "list_all (\<lambda>op. \<not> stops op) ops"
  shows "active_task (fst s') = active_task (fst s) \<and> lc_client (fst s') = lc_client (fst s)"
  using assms
proof (induction ops arbitrary: s)
  case Nil
  then show ?case by simp
next
  case (Cons op ops)
  then obtain s1 where s1: "lc_apply u N L op s = Some s1" "lc_run u N L ops s1 = Some s'"
    by (auto simp: bind_eq_Some_conv)
  note a = lc_apply_running [OF Cons.prems(2,3) _ s1(1)]
  with Cons.prems have "task_running (fst s1)" "lc_client (fst s1) \<noteq> None"
    by (auto simp: task_running_def)
  from Cons.IH [OF s1(2) this] a Cons.prems(4) show ?case by simp
qed

lemma lc_run_ok: "lc_run u N L ops s = Some s' \<Longrightarrow> lc_ok (fst s) \<Longrightarrow> lc_ok (fst s')"
proof (induction ops arbitrary: s)
  case Nil
  then show ?case by simp
next
  case (Cons op ops)
  then obtain s1 where "lc_apply u N L op s = Some s1" "lc_run u N L ops s1 = Some s'"
    by (auto simp: bind_eq_Some_conv)
  with Cons lc_apply_ok show ?case by blast
qed

section \<open>Answers\<close>

lemma finish_execution_answers:
  "\<exists>s lc' w'. finish_execution x lc w = Some (Ret (Inr s), lc', w') \<and> s \<noteq> []"
  by (auto simp: finish_execution_def reply_def Let_def split: sum.splits)

text \<open>
  An outcome that is an answer, or the panic of the client the lifecycle has.
\<close>

definition answers_or_slice_panic ::
    "'w net \<Rightarrow> json_lib \<Rightarrow> lifecycle \<Rightarrow> string res outcome \<Rightarrow> bool" where
  "answers_or_slice_panic N L lc x \<longleftrightarrow>
     (case x of
        Ret (Inr s) \<Rightarrow> s \<noteq> []
      | Ret (Inl e) \<Rightarrow> False
      | Panic p \<Rightarrow> \<exists>c. lc_client lc = Some c \<and> only_slice_panic N L c (Panic p :: string outcome))"

lemma answers_or_slice_panic_simps [simp]:
  "answers_or_slice_panic N L lc (Ret (Inr s)) \<longleftrightarrow> s \<noteq> []"
  "\<not> answers_or_slice_panic N L lc (Ret (Inl e))"
  "answers_or_slice_panic N L lc (Panic p) \<longleftrightarrow>
     (\<exists>c. lc_client lc = Some c \<and> p = slice_panic \<and>
        (\<exists>task_id v. task_id \<noteq> [] \<and> titled_short N L c task_id v))"
  by (auto simp: answers_or_slice_panic_def)

lemma handle_execution_answers:
  assumes "clock_ok N"
  shows "\<exists>x lc' w'. handle_execution N L it msg lc w = Some (x, lc', w') \<and>
    answers_or_slice_panic N L lc x"
proof (cases "lc_client lc = None \<or> task_running lc")
  case True
  then show ?thesis
    by (auto simp: handle_execution_def reply_def already_running_def split: option.splits)
next
  case False
  then obtain c where c: "lc_client lc = Some c" and nr: "\<not> task_running lc" by auto
  define lc1 where "lc1 = record_task it msg (fst (time_now N w)) lc"
  obtain x w2 where d: "dispatch N L c (execution_task it msg) (execution_timeout it)
      (snd (time_now N w)) = Some (x, w2)" and p: "only_slice_panic N L c x"
    using dispatch_returns [OF assms] by blast
  have "handle_execution N L it msg lc w =
      (case x of Panic p \<Rightarrow> Some (Panic p, lc1, w2) | Ret y \<Rightarrow> finish_execution y lc1 w2)"
    using c nr d by (simp add: handle_execution_def case_prod_beta lc1_def split: outcome.splits)
  then show ?thesis
    using finish_execution_answers [of _ lc1 w2] p c by (cases x) fastforce+
qed

lemma handle_investigation_answers:
  assumes "clock_ok N"
  shows "\<exists>x lc' w'. handle_investigation N L msg lc w = Some (x, lc', w') \<and>
    answers_or_slice_panic N L lc x"
proof (cases "lc_client lc")
  case None
  then show ?thesis by (simp add: handle_investigation_def reply_def)
next
  case (Some c)
  obtain x w2 where "dispatch N L c (analysis_task msg) (3 * minute) w = Some (x, w2)"
    and "only_slice_panic N L c x"
    using dispatch_returns [OF assms] by blast
  with Some show ?thesis
    by (auto simp: handle_investigation_def finish_analysis_def reply_def split: outcome.splits sum.splits)
qed

lemma handle_blocking_answers:
  "\<exists>x lc' w'. handle_blocking lc w = Some (x, lc', w') \<and>
    (\<forall>y. x = Ret y \<longrightarrow> (\<exists>s. y = Inr s \<and> s \<noteq> []))"
  by (cases "renew_chan (lc\<lparr>is_cancelled := True\<rparr>)")
    (simp_all add: handle_blocking_def reply_def Let_def)

text \<open>Only the blocking branch can panic by itself, and not in a reachable state.\<close>

lemma execute_answers_or_panics:
  assumes "clock_ok N" and "lc_ok lc \<or> iopt = None"
  shows "\<exists>x lc' w'. execute u N L iopt msg repo lc w = Some (x, lc', w') \<and>
    answers_or_slice_panic N L lc x"
proof -
  obtain it where it: "it = (case iopt of Some it \<Rightarrow> it | None \<Rightarrow> infer_missing u msg)" by simp
  show ?thesis
  proof (cases "it_type it = IntentBlocking")
    case True
    then have "lc_ok lc"
      using assms(2) infer_missing_type [of u msg] it by (cases iopt) auto
    from handle_blocking_ok [OF this, of w] True show ?thesis
      unfolding execute_def it [symmetric] Let_def by auto
  next
    case False
    then show ?thesis
      unfolding execute_def it [symmetric] Let_def
      using handle_execution_answers [OF assms(1), of L it msg lc w]
        handle_investigation_answers [OF assms(1), of L msg lc w]
      by (cases "it_type it") (auto simp: handler_defs split: option.splits)
  qed
qed

lemma execute_answers_helper:
  assumes "clock_ok N"
  shows "\<exists>x lc' w'. execute u N L iopt msg repo lc w = Some (x, lc', w') \<and>
    (\<forall>y. x = Ret y \<longrightarrow> (\<exists>s. y = Inr s \<and> s \<noteq> []))"
proof (cases "\<exists>it. iopt = Some it \<and> it_type it = IntentBlocking")
  case True
  then show ?thesis using handle_blocking_answers [of lc w] by (auto simp: execute_def)
next
  case False
  obtain it where it: "it = (case iopt of Some it \<Rightarrow> it | None \<Rightarrow> infer_missing u msg)" by simp
  have "it_type it \<noteq> IntentBlocking"
    using False infer_missing_type [of u msg] it by (cases iopt) auto
  then have "\<exists>x lc' w'. execute u N L iopt msg repo lc w = Some (x, lc', w') \<and>
      answers_or_slice_panic N L lc x"
    unfolding execute_def it [symmetric] Let_def
    using handle_execution_answers [OF assms, of L it msg lc w]
      handle_investigation_answers [OF assms, of L msg lc w]
    by (cases "it_type it") (auto simp: handler_defs split: option.splits)
  then show ?thesis by (fastforce simp: answers_or_slice_panic_def split: outcome.splits sum.splits)
qed

section \<open>Properties\<close>

text \<open>
  The lifecycle always answers: under the clock's documented behaviour \<open>Execute\<close> ends for
  every intent (or none), message and state with a proper cancel channel; it never returns an
  error and its answer is not the empty text. The one exception is the panic of its client on a
  titled conversation with a short identifier.
\<close>

theorem execute_answers:
  assumes "clock_ok N" and "lc_ok lc"
  shows "\<exists>x lc' w'. execute u N L iopt msg repo lc w = Some (x, lc', w') \<and>
    answers_or_slice_panic N L lc x"
  using execute_answers_or_panics [OF assms(1)] assms(2) by blast

definition idle_lifecycle :: "oh_client option \<Rightarrow> lifecycle" where
  "idle_lifecycle c = \<lparr>lc_client = c, lc_bridge = c, active_task = None, lc_history = [],
     cancel_chan = Some 0, is_cancelled = False, closed_chans = [], next_chan = 1\<rparr>"

theorem execute_answers_witness:
  "\<exists>x lc' w'. execute ascii_tables (answering (\<lambda>_. Inl ''refused'')) (scan_table []) None ''fix it'' ''o/r''
       (idle_lifecycle (Some sample_client)) 0 = Some (x, lc', w')"
proof -
  have "lc_ok (idle_lifecycle (Some sample_client))" by (simp add: lc_ok_def idle_lifecycle_def)
  then show ?thesis using execute_answers [OF clock_ok_answering] by blast
qed

text \<open>
  C8. No reachable lifecycle closes its cancel channel twice: from a new lifecycle, after any
  sequence of executions, stops and history entries (panics inside a dispatch included), the
  history holds at most 50 entries, a blocking intent is answered with the cancellation text
  and leaves no active task, and \<open>StopExecution\<close> does not panic.
\<close>

theorem lifecycle_reachable_safe:
  assumes "new_execution_lifecycle env = Inr lc0"
    and "lc_reach u N L (lc0, w0) (lc, w)"
  shows "length (lc_history lc) \<le> 50 \<and>
    (\<exists>lc'. handle_blocking lc w =
       Some (Ret (Inr ''Execution cancelled. What would you like me to do next?''), lc', w) \<and>
       active_task lc' = None) \<and>
    (\<exists>e. fst (stop_execution lc) = Ret e)"
proof -
  have "lc_ok lc" using lc_inv.ok_reaches [OF assms(2)] new_lifecycle_ok [of env] assms(1) by auto
  with handle_blocking_ok [OF this, of w] stop_execution_ok [OF this] show ?thesis
    by (auto simp: lc_ok_def)
qed

theorem lifecycle_reachable_safe_witness:
  "\<exists>lc. lc_reach ascii_tables (answering (\<lambda>_. Inl ''refused'')) (scan_table [])
      (idle_lifecycle None, 0) (lc, 0) \<and> lc_history lc \<noteq> [] \<and> (\<exists>e. fst (stop_execution lc) = Ret e)"
proof -
  let ?N = "answering (\<lambda>_. Inl ''refused'')"
  let ?lc = "push_message \<lparr>msg_role = ''user'', msg_content = ''oi'', msg_time = 0\<rparr> (idle_lifecycle None)"
  have new: "new_execution_lifecycle (\<lambda>_. None) = Inr (idle_lifecycle None)"
    by (simp add: new_execution_lifecycle_def idle_lifecycle_def new_client_from_env_def
        new_client_def getenv_def)
  have "lc_apply ascii_tables ?N (scan_table []) (OpAddToHistory ''user'' ''oi'') (idle_lifecycle None, 0)
      = Some (?lc, 0)"
    by (simp add: lc_add_to_history_def answering_def)
  then have r: "lc_reach ascii_tables ?N (scan_table []) (idle_lifecycle None, 0) (?lc, 0)"
    by (intro reaches_single lc_does)
  from lifecycle_reachable_safe [OF new r] r show ?thesis
    by (intro exI [of _ ?lc]) (simp add: push_message_def keep_last_def)
qed

text \<open>
  The history is the newest 50 messages in their order, whatever it held before, and
  \<open>GetHistory\<close> with a count that is not negative gives the newest of them.
\<close>

theorem history_keeps_newest:
  assumes "length (lc_history lc) \<le> 50" and "0 \<le> count"
  shows "\<exists>h. lc_get_history count (fst (add_messages N ms (lc, w))) = Ret h \<and>
    map (\<lambda>m. (msg_role m, msg_content m)) h =
      keep_last (nat count) (keep_last 50
        (map (\<lambda>m. (msg_role m, msg_content m)) (lc_history lc) @ ms))"
proof -
  let ?f = "\<lambda>m. (msg_role m, msg_content m)"
  obtain es where es: "map ?f es = ms" and fold: "fst (add_messages N ms (lc, w)) = fold push_message es lc"
    using add_messages_push [of ms N lc w] by (elim exE conjE)
  have h: "lc_history (fold push_message es lc) = keep_last 50 (lc_history lc @ es)"
  proof (cases "es = []")
    case True
    then show ?thesis using assms(1) by simp
  next
    case False
    then show ?thesis by (rule lc_log.entries_fold)
  qed
  have "map ?f (lc_history (fold push_message es lc)) =
      keep_last 50 (map ?f (lc_history lc) @ ms)"
    by (simp only: h map_keep_last map_append es)
  then show ?thesis
    unfolding fold lc_get_history_def recent_nonneg [OF assms(2)] by (simp add: map_keep_last)
qed

theorem history_keeps_newest_witness:
  "\<exists>h. lc_get_history 1 (fst (add_messages (answering (\<lambda>_. Inl [])) [(''user'', ''oi''), (''bot'', ''ok'')]
        (idle_lifecycle None, 0))) = Ret h \<and>
     map (\<lambda>m. (msg_role m, msg_content m)) h = [(''bot'', ''ok'')]"
  using history_keeps_newest [of "idle_lifecycle None" 1 "answering (\<lambda>_. Inl [])"
      "[(''user'', ''oi''), (''bot'', ''ok'')]" 0]
  by (simp add: idle_lifecycle_def keep_last_def)

text \<open>
  While a task runs, nothing but a stop touches it: with a client configured, after any
  sequence of executions and history entries without a blocking intent and without
  \<open>StopExecution\<close> the active task is still the same, and each further execution is refused
  without any request.
\<close>

theorem running_until_stopped:
  assumes "lc_run u N L ops (lc, w) = Some (lc', w')"
    and "task_running lc" and "lc_client lc \<noteq> None" and "list_all (\<lambda>op. \<not> stops op) ops"
  shows "active_task lc' = active_task lc \<and>
    (\<forall>it msg repo w. it_type it = IntentExecution \<longrightarrow>
       execute u N L (Some it) msg repo lc' w = Some (Ret (Inr already_running), lc', w))"
proof -
  from lc_run_running [OF assms(1)] assms(2-4)
  have a: "active_task lc' = active_task lc" "lc_client lc' = lc_client lc" by simp_all
  with assms(2,3) have "task_running lc'" "lc_client lc' \<noteq> None" by (simp_all add: task_running_def)
  with a show ?thesis by (simp add: execute_def handle_execution_running)
qed

definition busy_lifecycle :: lifecycle where
  "busy_lifecycle = (idle_lifecycle (Some sample_client))\<lparr>active_task :=
     Some \<lparr>te_id = ''t1'', te_intent = None, te_description = ''fix'', te_status = ''RUNNING'',
       te_start = 0, te_result = None\<rparr>\<rparr>"

theorem running_until_stopped_witness:
  "lc_run ascii_tables (answering (\<lambda>_. Inl ''refused'')) (scan_table [])
      [OpExecute (Some (simple_intent IntentExecution ''fix'' True)) ''fix'' ''o/r'']
      (busy_lifecycle, 0) = Some (busy_lifecycle, 0) \<and>
   execute ascii_tables (answering (\<lambda>_. Inl ''refused'')) (scan_table [])
      (Some (simple_intent IntentExecution ''fix'' True)) ''fix'' ''o/r'' busy_lifecycle 5
      = Some (Ret (Inr already_running), busy_lifecycle, 5)"
proof -
  let ?N = "answering (\<lambda>_. Inl ''refused'')"
  let ?ops = "[OpExecute (Some (simple_intent IntentExecution ''fix'' True)) ''fix'' ''o/r'']"
  have b: "task_running busy_lifecycle" "lc_client busy_lifecycle \<noteq> None"
    by (simp_all add: busy_lifecycle_def idle_lifecycle_def task_running_def is_running_def)
  then have run: "lc_run ascii_tables ?N (scan_table []) ?ops (busy_lifecycle, 0) = Some (busy_lifecycle, 0)"
    by (simp add: execute_def simple_intent_def handle_execution_running)
  moreover have "list_all (\<lambda>op. \<not> stops op) ?ops" by (simp add: simple_intent_def)
  moreover have "it_type (simple_intent IntentExecution ''fix'' True) = IntentExecution"
    by (simp add: simple_intent_def)
  ultimately show ?thesis using running_until_stopped [OF run b] by blast
qed

text \<open>
  C9. A task can be left running until someone stops it: when the dispatch comes back with a result
  whose status is a running one (the client returns such a result as soon as the service attaches
  an error text to a task that has not finished), the lifecycle keeps it as its running task. The
  call has returned and nothing polls the task any more; after any further calls and history
  entries among which there is no blocking intent and no \<open>StopExecution\<close>, the task is
  still the active one, and every execution is refused without a request: one asked for by an
  explicit intent, and one inferred from the message of a call without an intent. A blocking
  intent or \<open>StopExecution\<close> ends this, from a state with a proper cancel channel (C8: every
  reachable one).
\<close>

theorem unfinished_result_blocks:
  assumes "lc_client lc = Some c" and "\<not> task_running lc" and "it_type it = IntentExecution"
    and "dispatch N L c (execution_task it msg) (execution_timeout it) (snd (time_now N w))
         = Some (Ret (Inr r), w1)"
    and "is_running (er_status r)"
  shows "\<exists>lc'. execute u N L (Some it) msg repo lc w =
      Some (Ret (Inr (''Execution status: '' @ er_status r)), lc', w1) \<and>
    map_option te_status (active_task lc') = Some (er_status r) \<and>
    (\<forall>ops w' lc'' v. list_all (\<lambda>op. \<not> stops op) ops \<longrightarrow>
       lc_run u N L ops (lc', w') = Some (lc'', v) \<longrightarrow>
       active_task lc'' = active_task lc' \<and>
       (\<forall>it' msg' repo' v'. it_type it' = IntentExecution \<longrightarrow>
          execute u N L (Some it') msg' repo' lc'' v' = Some (Ret (Inr already_running), lc'', v')) \<and>
       (\<forall>msg' repo' v'. it_type (infer_missing u msg') = IntentExecution \<longrightarrow>
          execute u N L None msg' repo' lc'' v' = Some (Ret (Inr already_running), lc'', v')) \<and>
       (lc_ok lc \<longrightarrow>
          (\<forall>v'. \<exists>a l. handle_blocking lc'' v' = Some (a, l, v') \<and> active_task l = None) \<and>
          \<not> task_running (snd (stop_execution lc''))))"
proof -
  have st: "er_status r \<noteq> ''COMPLETED''" "er_status r \<noteq> ''FAILED''"
    using assms(5) by (auto simp: is_running_def)
  obtain lc' where lc': "execute u N L (Some it) msg repo lc w =
      Some (Ret (Inr (''Execution status: '' @ er_status r)), lc', w1)"
    and run: "task_running lc'" "lc_client lc' \<noteq> None"
    and task: "map_option te_status (active_task lc') = Some (er_status r)"
    using assms st
    by (auto simp: execute_def handle_execution_def record_task_def finish_execution_def reply_def Let_def
        case_prod_beta set_status_def task_running_def)
  have later: "task_running lc'' \<and> lc_client lc'' \<noteq> None \<and> active_task lc'' = active_task lc'"
    if "lc_run u N L ops (lc', w') = Some (lc'', v)" "list_all (\<lambda>op. \<not> stops op) ops"
    for ops w' lc'' v
    using lc_run_running [OF that(1)] run that(2) by (auto simp: task_running_def)
  have ends: "(\<forall>v'. \<exists>a l. handle_blocking lc'' v' = Some (a, l, v') \<and> active_task l = None) \<and>
      \<not> task_running (snd (stop_execution lc''))" if "lc_ok lc''" for lc''
    using handle_blocking_ok [OF that] stop_execution_clears [OF that] by metis
  have ok: "lc_ok lc''" if "lc_run u N L ops (lc', w') = Some (lc'', v)" "lc_ok lc" for ops w' lc'' v
    using lc_run_ok [OF that(1)] execute_ok [OF that(2) lc'] by simp
  show ?thesis
  proof (intro exI [of _ lc'] conjI lc' task allI impI)
    fix ops w' lc'' v
    assume no: "list_all (\<lambda>op. \<not> stops op) ops" and run: "lc_run u N L ops (lc', w') = Some (lc'', v)"
    note l = later [OF run no]
    show "active_task lc'' = active_task lc'" using l by blast
    show "execute u N L (Some it') msg' repo' lc'' v' = Some (Ret (Inr already_running), lc'', v')"
      if "it_type it' = IntentExecution" for it' msg' repo' v'
      using l that by (simp add: running_refuses)
    show "execute u N L None msg' repo' lc'' v' = Some (Ret (Inr already_running), lc'', v')"
      if "it_type (infer_missing u msg') = IntentExecution" for msg' repo' v'
      using l that by (simp add: running_refuses)
    show "\<exists>a l. handle_blocking lc'' v' = Some (a, l, v') \<and> active_task l = None" if "lc_ok lc" for v'
      by (rule ends [OF ok [OF run that], THEN conjunct1, THEN spec])
    show "\<not> task_running (snd (stop_execution lc''))" if "lc_ok lc"
      by (rule ends [OF ok [OF run that], THEN conjunct2])
  qed
qed

text \<open>A service that reports a task in progress with a warning.\<close>

definition warning_service :: "http_request \<Rightarrow> goerr + response" where
  "warning_service r = ok_json (if rq_method r = ''POST'' then ''started'' else ''tasks'')"

definition warning_lib :: json_lib where
  "warning_lib = scan_table
     [(''started'', JObj [(''id'', JStr ''t1''), (''status'', JStr ''WORKING'')]),
      (''tasks'', JArr [JObj [(''id'', JStr ''t1''), (''status'', JStr ''IN_PROGRESS''),
                            (''error'', JStr ''low disk space'')]])]"

lemma warning_dispatch:
  "dispatch (answering warning_service) warning_lib sample_client ''fix'' (10 * minute) 0 =
     Some (Ret (Inr (zero_result\<lparr>er_task_id := ''t1'', er_status := ''RUNNING'',
                      er_error := ''low disk space''\<rparr>)), 0)"
proof -
  have "dispatch (answering warning_service) warning_lib sample_client ''fix'' (10 * minute) 0 =
      poll_execution_loop (answering warning_service) warning_lib sample_client ''t1'' (10 * minute)
        (5 * second) (10 * minute) 0"
    by code_simp
  also have "\<dots> = Some (Ret (Inr (zero_result\<lparr>er_task_id := ''t1'', er_status := ''RUNNING'',
                      er_error := ''low disk space''\<rparr>)), 0)"
    by (subst poll_execution_loop.simps, code_simp)
  finally show ?thesis .
qed

theorem unfinished_result_blocks_witness:
  "\<exists>lc'. execute ascii_tables (answering warning_service) warning_lib
      (Some (simple_intent IntentExecution ''fix'' True)) ''fix'' ''o/r''
      (idle_lifecycle (Some sample_client)) 0
      = Some (Ret (Inr ''Execution status: RUNNING''), lc', 0) \<and>
    (\<forall>v. execute ascii_tables (answering warning_service) warning_lib None ''fix'' ''o/r'' lc' v =
      Some (Ret (Inr already_running), lc', v))"
proof -
  let ?it = "simple_intent IntentExecution ''fix'' True"
  let ?lc = "idle_lifecycle (Some sample_client)"
  have lc: "lc_client ?lc = Some sample_client" "\<not> task_running ?lc"
    by (simp_all add: idle_lifecycle_def task_running_def)
  have it: "it_type ?it = IntentExecution" by (simp add: simple_intent_def)
  have d: "dispatch (answering warning_service) warning_lib sample_client
        (execution_task ?it ''fix'') (execution_timeout ?it)
        (snd (time_now (answering warning_service) 0))
      = Some (Ret (Inr (zero_result\<lparr>er_task_id := ''t1'', er_status := ''RUNNING'',
                      er_error := ''low disk space''\<rparr>)), 0)"
    using warning_dispatch
    by (simp add: simple_intent_def execution_task_def execution_timeout_def answering_def)
  have "is_running (er_status (zero_result\<lparr>er_task_id := ''t1'', er_status := ''RUNNING'',
                      er_error := ''low disk space''\<rparr>))"
    by (simp add: is_running_def)
  note blocks = unfinished_result_blocks [OF lc it d this, of ascii_tables "''o/r''"]
  have "it_type (infer_missing ascii_tables ''fix'') = IntentExecution" by code_simp
  with blocks show ?thesis by - (elim exE conjE, drule spec [of _ "[]"], auto)
qed

text \<open>
  Without an intent nothing stops: \<open>Execute\<close> with no intent never takes the blocking branch.
  A message the pattern analysis classifies as a request to stop, without an investigation
  word, is executed with the message itself as the task.
\<close>

theorem missing_intent_executes_stop_words:
  assumes "contains_any (to_lower u msg) blocking_patterns"
    and "\<not> list_ex (contains (to_lower u msg)) investigation_triggers"
  shows "(\<exists>it. fallback_analysis u msg = Inr it \<and> it_type it = IntentBlocking) \<and>
    execute u N L None msg repo lc w =
      handle_execution N L (simple_intent IntentExecution msg True) msg lc w"
  using blocking_wins [OF assms(1)] assms(2)
  by (auto simp: execute_def infer_missing_def simple_intent_def Let_def)

theorem missing_intent_executes_stop_words_witness:
  "execute ascii_tables (answering (\<lambda>_. Inl [])) (scan_table []) None ''pare agora'' ''o/r''
      (idle_lifecycle None) 0 =
   handle_execution (answering (\<lambda>_. Inl [])) (scan_table [])
      (simple_intent IntentExecution ''pare agora'' True) ''pare agora'' (idle_lifecycle None) 0"
proof -
  have "contains_any (to_lower ascii_tables ''pare agora'') blocking_patterns" by code_simp
  moreover have "\<not> list_ex (contains (to_lower ascii_tables ''pare agora'')) investigation_triggers"
    by code_simp
  ultimately show ?thesis by (blast dest: missing_intent_executes_stop_words)
qed

end
