(* ===== verification/Lifecycle_Threads.thy ===== *)
theory Lifecycle_Threads
  imports Lifecycle
begin

text \<open>
  The lifecycle of Lifecycle.thy under several threads. Every exported operation of
  \<open>internal/intent/lifecycle.go\<close> takes \<open>lc.mu\<close> first and leaves it in a \<open>defer\<close>, a panic included;
  \<open>Execute\<close> keeps it while the client dispatches a task and waits for the result, up to ten
  minutes. A thread is at a place of its call; its moves are the locking, the body (for a dispatch
  in two parts, before and after the waiting) and the unlocking, and the threads interleave freely.

  The atomic machine \<open>lc_calls\<close> serves whole calls one after the other. The locale \<open>threads\<close> is
  interpreted on the interleaved one: what it does is what the atomic one can do.
  What the world does while a task is dispatched is part of the dispatch; it changes by itself
  only while nobody holds the lock for writing. \<open>HasOpenHands\<close> takes no lock: it reads the
  client, which no operation writes.
\<close>

section \<open>Calls, one at a time\<close>

datatype lc_call =
    CallExecute "intent option" string string
  | CallAddToHistory string string
  | CallStopExecution
  | CallGetStatus
  | CallGetHistory int
  | CallIsExecuting
  | CallGetActiveExecution

datatype lc_answer =
    Answered "string res outcome"
  | Added
  | Stopped "goerr option outcome"
  | Status string
  | Messages "message list outcome"
  | Executing bool
  | Active "task_execution option"

text \<open>\<open>lc.mu.Lock()\<close> or \<open>lc.mu.RLock()\<close>\<close>

fun lc_locking :: "lc_call \<Rightarrow> hold" where
  "lc_locking (CallExecute iopt msg repo) = Write"
| "lc_locking (CallAddToHistory r c) = Write"
| "lc_locking CallStopExecution = Write"
| "lc_locking CallGetStatus = Read"
| "lc_locking (CallGetHistory n) = Read"
| "lc_locking CallIsExecuting = Read"
| "lc_locking CallGetActiveExecution = Read"

fun lc_serve ::
    "unicode_tables \<Rightarrow> 'w net \<Rightarrow> json_lib \<Rightarrow> lc_call \<Rightarrow> lifecycle \<times> 'w \<Rightarrow>
       (lc_answer \<times> lifecycle \<times> 'w) option" where
  "lc_serve u N L (CallExecute iopt msg repo) (lc, w) =
     map_option (\<lambda>(y, s). (Answered y, s)) (execute u N L iopt msg repo lc w)"
| "lc_serve u N L (CallAddToHistory r c) (lc, w) = Some (Added, lc_add_to_history N r c lc w)"
| "lc_serve u N L CallStopExecution (lc, w) =
     (case stop_execution lc of (x, lc) \<Rightarrow> Some (Stopped x, lc, w))"
| "lc_serve u N L CallGetStatus (lc, w) =
     (case lc_get_status N lc w of (x, w) \<Rightarrow> Some (Status x, lc, w))"
| "lc_serve u N L (CallGetHistory n) (lc, w) = Some (Messages (lc_get_history n lc), lc, w)"
| "lc_serve u N L CallIsExecuting (lc, w) = Some (Executing (is_executing lc), lc, w)"
| "lc_serve u N L CallGetActiveExecution (lc, w) = Some (Active (get_active_execution lc), lc, w)"

inductive lc_call_step ::
    "unicode_tables \<Rightarrow> 'w net \<Rightarrow> json_lib \<Rightarrow> lifecycle \<times> 'w \<Rightarrow> lifecycle \<times> 'w \<Rightarrow> bool"
  for u N L where
  lc_served: "lc_serve u N L c s = Some (a, s') \<Longrightarrow> lc_call_step u N L s s'"
| lc_world: "lc_call_step u N L (lc, w) (lc, w')"

abbreviation lc_calls ::
    "unicode_tables \<Rightarrow> 'w net \<Rightarrow> json_lib \<Rightarrow> lifecycle \<times> 'w \<Rightarrow> lifecycle \<times> 'w \<Rightarrow> bool" where
  "lc_calls u N L \<equiv> reaches (lc_call_step u N L)"

section \<open>Execute in two parts\<close>

datatype lc_wait = ForExecution | ForAnalysis

text \<open>
  \<open>Execute\<close> up to the dispatch: what is dispatched, with which timeout, and the state that is left;
  nothing when it answers without a dispatch.
\<close>

definition begin_execute ::
    "unicode_tables \<Rightarrow> 'w net \<Rightarrow> intent option \<Rightarrow> string \<Rightarrow> lifecycle \<Rightarrow> 'w \<Rightarrow>
       (lc_wait \<times> oh_client \<times> string \<times> int) option \<times> lifecycle \<times> 'w" where
  "begin_execute u N iopt msg lc w =
     (let it = (case iopt of Some it \<Rightarrow> it | None \<Rightarrow> infer_missing u msg)
      in case lc_client lc of
           None \<Rightarrow> (None, lc, w)
         | Some c \<Rightarrow>
             if it_type it = IntentInvestigation
             then (Some (ForAnalysis, c, analysis_task msg, 3 * minute), lc, w)
             else if it_type it = IntentExecution \<and> \<not> task_running lc
             then (case time_now N w of (now, w) \<Rightarrow>
                     (Some (ForExecution, c, execution_task it msg, execution_timeout it),
                      record_task it msg now lc, w))
             else (None, lc, w))"

definition end_execute :: "lc_wait \<Rightarrow> execution_result res outcome \<Rightarrow> 'w exec" where
  "end_execute k x lc w =
     (case x of
        Panic p \<Rightarrow> Some (Panic p, lc, w)
      | Ret r \<Rightarrow>
          (case k of
             ForExecution \<Rightarrow> finish_execution r lc w
           | ForAnalysis \<Rightarrow> finish_analysis r lc w))"

text \<open>The two parts with the dispatch between them are \<open>Execute\<close>.\<close>

lemma execute_split:
  assumes "begin_execute u N iopt msg lc w = (Some (k, c, desc, timeout), lc1, w1)"
  shows "execute u N L iopt msg repo lc w =
    (case dispatch N L c desc timeout w1 of
       None \<Rightarrow> None
     | Some (x, w2) \<Rightarrow> end_execute k x lc1 w2)"
proof -
  obtain it where it: "it = (case iopt of Some it \<Rightarrow> it | None \<Rightarrow> infer_missing u msg)" by simp
  show ?thesis
    using assms unfolding begin_execute_def execute_def it [symmetric] Let_def
    by (auto simp: handle_execution_def handle_investigation_def end_execute_def
        split: option.splits if_splits prod.splits outcome.splits)
qed

lemma begin_execute_task:
  assumes "begin_execute u N iopt msg lc w = (Some (ForExecution, cl, desc, timeout), lc', w')"
  shows "(\<exists>tk. active_task lc' = Some tk \<and> te_status tk = ''RUNNING'' \<and> te_description tk = desc) \<and>
    \<not> is_cancelled lc'"
proof -
  obtain it where it: "it = (case iopt of Some it \<Rightarrow> it | None \<Rightarrow> infer_missing u msg)" by simp
  show ?thesis
    using assms unfolding begin_execute_def it [symmetric] Let_def
    by (cases "lc_client lc"; cases "time_now N w") (auto simp: record_task_def split: if_splits)
qed

lemma end_execute_returns: "\<exists>y lc' w'. end_execute k x lc w = Some (y, lc', w')"
  by (auto simp: end_execute_def finish_execution_def finish_analysis_def reply_def Let_def
      split: outcome.splits lc_wait.splits sum.splits)

lemma lc_serve_returns:
  assumes "clock_ok N"
  shows "\<exists>a s'. lc_serve u N L c s = Some (a, s')"
proof (cases c)
  case (CallExecute iopt msg repo)
  with execute_answers_helper [OF assms, of u L iopt msg repo "fst s" "snd s"] show ?thesis
    by (cases s) auto
qed (cases s; auto split: prod.splits)+

section \<open>Calls, interleaved\<close>

datatype lc_place =
    Away
  | Waiting lc_call
  | Inside lc_call
  | Dispatching lc_call lc_wait oh_client string int
  | Leaving lc_call lc_answer

record 'w lc_shared =
  sh_lock :: rwmutex
  sh_lc :: lifecycle
  sh_world :: 'w

definition fresh_shared :: "lifecycle \<Rightarrow> 'w \<Rightarrow> 'w lc_shared" where
  "fresh_shared lc w = \<lparr>sh_lock = free_mutex, sh_lc = lc, sh_world = w\<rparr>"

fun lc_dispatches :: "unicode_tables \<Rightarrow> 'w net \<Rightarrow> lc_call \<Rightarrow> 'w lc_shared \<Rightarrow> bool" where
  "lc_dispatches u N (CallExecute iopt msg repo) s \<longleftrightarrow>
     fst (begin_execute u N iopt msg (sh_lc s) (sh_world s)) \<noteq> None"
| "lc_dispatches u N _ s \<longleftrightarrow> False"

inductive lc_move ::
    "unicode_tables \<Rightarrow> 'w net \<Rightarrow> json_lib \<Rightarrow> tid \<Rightarrow> 'w lc_shared \<Rightarrow> lc_place \<Rightarrow>
       'w lc_shared \<Rightarrow> lc_place \<Rightarrow> bool"
  for u N L where
  mv_call: "lc_move u N L t s Away s (Waiting c)"
| mv_lock: "lc_locking c = Write \<Longrightarrow> mu_lock t (sh_lock s) = Some m \<Longrightarrow>
    lc_move u N L t s (Waiting c) (s\<lparr>sh_lock := m\<rparr>) (Inside c)"
| mv_rlock: "lc_locking c = Read \<Longrightarrow> mu_rlock t (sh_lock s) = Some m \<Longrightarrow>
    lc_move u N L t s (Waiting c) (s\<lparr>sh_lock := m\<rparr>) (Inside c)"
| mv_body: "\<not> lc_dispatches u N c s \<Longrightarrow>
    lc_serve u N L c (sh_lc s, sh_world s) = Some (a, lc', w') \<Longrightarrow>
    lc_move u N L t s (Inside c) (s\<lparr>sh_lc := lc', sh_world := w'\<rparr>) (Leaving c a)"
| mv_dispatch: "c = CallExecute iopt msg repo \<Longrightarrow>
    begin_execute u N iopt msg (sh_lc s) (sh_world s) = (Some (k, cl, desc, timeout), lc', w') \<Longrightarrow>
    lc_move u N L t s (Inside c) (s\<lparr>sh_lc := lc', sh_world := w'\<rparr>) (Dispatching c k cl desc timeout)"
| mv_result: "dispatch N L cl desc timeout (sh_world s) = Some (x, w1) \<Longrightarrow>
    end_execute k x (sh_lc s) w1 = Some (y, lc', w') \<Longrightarrow>
    lc_move u N L t s (Dispatching c k cl desc timeout) (s\<lparr>sh_lc := lc', sh_world := w'\<rparr>)
      (Leaving c (Answered y))"
| mv_unlock: "lc_locking c = Write \<Longrightarrow>
    lc_move u N L t s (Leaving c a) (s\<lparr>sh_lock := mu_unlock (sh_lock s)\<rparr>) Away"
| mv_runlock: "lc_locking c = Read \<Longrightarrow>
    lc_move u N L t s (Leaving c a) (s\<lparr>sh_lock := mu_runlock t (sh_lock s)\<rparr>) Away"

inductive_cases lc_moveE: "lc_move u N L t s l s' l'"

inductive lc_env :: "'w lc_shared \<Rightarrow> 'w lc_shared \<Rightarrow> bool" where
  lc_env_world: "mu_writer (sh_lock s) = None \<Longrightarrow> lc_env s (s\<lparr>sh_world := w\<rparr>)"

abbreviation lc_pool ::
    "unicode_tables \<Rightarrow> 'w net \<Rightarrow> json_lib \<Rightarrow> lifecycle \<times> 'w \<Rightarrow>
       'w lc_shared \<times> (tid \<Rightarrow> lc_place) \<Rightarrow> bool" where
  "lc_pool u N L s0 \<equiv>
     reaches (pool_step (lc_move u N L) lc_env) (fresh_shared (fst s0) (snd s0), \<lambda>_. Away)"

section \<open>What each thread knows\<close>

fun lc_holds :: "lc_place \<Rightarrow> hold" where
  "lc_holds (Inside c) = lc_locking c"
| "lc_holds (Dispatching c k cl desc timeout) = lc_locking c"
| "lc_holds (Leaving c a) = lc_locking c"
| "lc_holds l = Free"

definition lc_served_before ::
    "unicode_tables \<Rightarrow> 'w net \<Rightarrow> json_lib \<Rightarrow> lifecycle \<times> 'w \<Rightarrow> lc_call \<Rightarrow> lc_answer \<Rightarrow> bool" where
  "lc_served_before u N L s0 c a \<longleftrightarrow>
     (\<exists>b b'. lc_calls u N L s0 b \<and> lc_serve u N L c b = Some (a, b'))"

definition lc_begun ::
    "unicode_tables \<Rightarrow> 'w net \<Rightarrow> json_lib \<Rightarrow> lifecycle \<times> 'w \<Rightarrow> lc_call \<Rightarrow> lc_wait \<Rightarrow> oh_client \<Rightarrow>
       string \<Rightarrow> int \<Rightarrow> lifecycle \<times> 'w \<Rightarrow> bool" where
  "lc_begun u N L s0 c k cl desc timeout s \<longleftrightarrow>
     (\<exists>iopt msg repo lc w. c = CallExecute iopt msg repo \<and> lc_calls u N L s0 (lc, w) \<and>
        begin_execute u N iopt msg lc w = (Some (k, cl, desc, timeout), s))"

fun lc_knows ::
    "unicode_tables \<Rightarrow> 'w net \<Rightarrow> json_lib \<Rightarrow> lifecycle \<times> 'w \<Rightarrow> lc_place \<Rightarrow> lifecycle \<times> 'w \<Rightarrow> bool" where
  "lc_knows u N L s0 (Inside c) s \<longleftrightarrow> (lc_locking c = Write \<longrightarrow> lc_calls u N L s0 s)"
| "lc_knows u N L s0 (Dispatching c k cl desc timeout) s \<longleftrightarrow>
     lc_begun u N L s0 c k cl desc timeout s"
| "lc_knows u N L s0 (Leaving c a) s \<longleftrightarrow>
     lc_served_before u N L s0 c a \<and> (lc_locking c = Write \<longrightarrow> lc_calls u N L s0 s)"
| "lc_knows u N L s0 l s \<longleftrightarrow> True"

definition lc_shared_ok ::
    "unicode_tables \<Rightarrow> 'w net \<Rightarrow> json_lib \<Rightarrow> lifecycle \<times> 'w \<Rightarrow> 'w lc_shared \<Rightarrow> bool" where
  "lc_shared_ok u N L s0 s \<longleftrightarrow>
     mutex_ok (sh_lock s) \<and>
     (mu_writer (sh_lock s) = None \<longrightarrow> lc_calls u N L s0 (sh_lc s, sh_world s))"

definition lc_here ::
    "unicode_tables \<Rightarrow> 'w net \<Rightarrow> json_lib \<Rightarrow> lifecycle \<times> 'w \<Rightarrow> tid \<Rightarrow> lc_place \<Rightarrow> 'w lc_shared \<Rightarrow> bool" where
  "lc_here u N L s0 t l s \<longleftrightarrow>
     held (sh_lock s) t = lc_holds l \<and> lc_knows u N L s0 l (sh_lc s, sh_world s)"

lemma lc_locking_not_free [simp]: "lc_locking c \<noteq> Free"
  by (cases c) simp_all

lemma lc_locking_cases: "lc_locking c = Read \<or> lc_locking c = Write"
  by (cases c) simp_all

text \<open>A thread without the lock, or with the read lock, knows nothing that a change could break.\<close>

lemma lc_knows_without:
  assumes "lc_knows u N L s0 l s" and "lc_holds l \<noteq> Write"
  shows "lc_knows u N L s0 l s'"
  using assms by (cases l) (auto simp: lc_begun_def)

lemma lc_begun_execute:
  assumes "lc_begun u N L s0 c k cl desc timeout (lc1, w1)"
    and "dispatch N L cl desc timeout w1 = Some (x, w2)" and "end_execute k x lc1 w2 = Some (y, s)"
  shows "lc_served_before u N L s0 c (Answered y) \<and> lc_calls u N L s0 s"
proof -
  from assms(1) obtain iopt msg repo lc w where c: "c = CallExecute iopt msg repo"
    and r: "lc_calls u N L s0 (lc, w)"
    and b: "begin_execute u N iopt msg lc w = (Some (k, cl, desc, timeout), lc1, w1)"
    by (auto simp: lc_begun_def)
  have served: "lc_serve u N L c (lc, w) = Some (Answered y, s)"
    using execute_split [OF b] assms(2,3) by (simp add: c)
  with r have "lc_served_before u N L s0 c (Answered y)" unfolding lc_served_before_def by blast
  with reaches_step [OF r lc_served [OF served]] show ?thesis by simp
qed

lemma lc_move_own:
  assumes "lc_shared_ok u N L s0 s" and "lc_here u N L s0 t l s" and "lc_move u N L t s l s' l'"
  shows "lc_shared_ok u N L s0 s' \<and> lc_here u N L s0 t l' s'"
  using assms(3)
proof cases
  case mv_call
  with assms show ?thesis by (simp add: lc_here_def)
next
  case (mv_lock c m)
  with assms show ?thesis
    by (auto simp: lc_here_def lc_shared_ok_def mu_lock_def mu_lock_held [OF mv_lock(5)])
next
  case (mv_rlock c m)
  with assms mu_rlock_held [OF _ _ mv_rlock(5)] show ?thesis
    by (auto simp: lc_here_def lc_shared_ok_def)
next
  case (mv_body c a lc' w')
  have calls: "lc_calls u N L s0 (sh_lc s, sh_world s)"
    using assms(1,2) lc_locking_cases [of c] read_no_writer [of "sh_lock s" t]
    by (auto simp: mv_body(1) lc_here_def lc_shared_ok_def)
  have "lc_calls u N L s0 (lc', w')"
    using calls by (rule reaches_step) (rule lc_served [OF mv_body(5)])
  moreover have "lc_served_before u N L s0 c a"
    using calls mv_body(5) unfolding lc_served_before_def by blast
  ultimately show ?thesis
    using assms(1,2) mv_body(1-3) by (simp add: lc_here_def lc_shared_ok_def)
next
  case (mv_dispatch c iopt msg repo k cl desc timeout lc' w')
  with assms(1,2) show ?thesis
    by (auto simp: lc_here_def lc_shared_ok_def lc_begun_def held_writer)
next
  case (mv_result cl desc timeout x w1 k y lc' w' c)
  with assms(2) have "lc_begun u N L s0 c k cl desc timeout (sh_lc s, sh_world s)"
    by (simp add: lc_here_def)
  from lc_begun_execute [OF this mv_result(4,5)] assms(1,2) mv_result show ?thesis
    by (auto simp: lc_here_def lc_shared_ok_def)
next
  case (mv_unlock c a)
  with assms mu_unlock_held [of "sh_lock s" t] show ?thesis
    by (auto simp: lc_here_def lc_shared_ok_def)
next
  case (mv_runlock c a)
  with assms mu_runlock_held [of "sh_lock s" t] show ?thesis
    by (auto simp: lc_here_def lc_shared_ok_def)
qed

text \<open>A move of a thread changes neither what another holds nor, if that one writes, the state.\<close>

lemma lc_move_others:
  assumes "mutex_ok (sh_lock s)" and "held (sh_lock s) t = lc_holds l" and "v \<noteq> t"
    and "lc_move u N L t s l s' l'"
  shows "held (sh_lock s') v = held (sh_lock s) v \<and>
    (held (sh_lock s) v = Write \<longrightarrow> s' = s)"
  using assms(4)
proof cases
  case mv_call
  then show ?thesis by simp
next
  case (mv_lock c m)
  with assms(3) show ?thesis by (simp add: mu_lock_held [OF mv_lock(5)])
next
  case (mv_rlock c m)
  with assms(1-3) mu_rlock_held [OF _ _ mv_rlock(5)] show ?thesis by (auto simp: held_writer)
next
  case (mv_body c a lc' w')
  with assms(1-3) writer_alone [OF assms(1), of v t] show ?thesis by auto
next
  case (mv_dispatch c iopt msg repo k cl desc timeout lc' w')
  with assms(1-3) writer_alone [OF assms(1), of v t] show ?thesis by auto
next
  case (mv_result cl desc timeout x w1 k y lc' w' c)
  with assms(1-3) writer_alone [OF assms(1), of v t] show ?thesis by auto
next
  case (mv_unlock c a)
  with assms writer_alone [OF assms(1), of t v] mu_unlock_held [OF assms(1), of t] show ?thesis by auto
next
  case (mv_runlock c a)
  with assms mu_runlock_held [OF assms(1), of t] show ?thesis by (auto simp: held_writer)
qed

interpretation lc_threads: threads "lc_move u N L" lc_env "lc_shared_ok u N L s0" "lc_here u N L s0"
  for u N L s0
proof unfold_locales
  fix s s' :: "'a lc_shared" and t v l l' m
  assume ok: "lc_shared_ok u N L s0 s"
  show "lc_here u N L s0 t l s \<Longrightarrow> lc_move u N L t s l s' l' \<Longrightarrow>
      lc_shared_ok u N L s0 s' \<and> lc_here u N L s0 t l' s'"
    by (rule lc_move_own [OF ok])
  show "lc_here u N L s0 v m s'"
    if here: "lc_here u N L s0 t l s" "lc_here u N L s0 v m s" "t \<noteq> v" and move: "lc_move u N L t s l s' l'"
  proof -
    have held: "held (sh_lock s') v = held (sh_lock s) v" "held (sh_lock s) v = Write \<Longrightarrow> s' = s"
      using lc_move_others [OF _ _ _ move, of v] ok here by (auto simp: lc_shared_ok_def lc_here_def)
    show ?thesis
    proof (cases "lc_holds m = Write")
      case True
      with here(2) held show ?thesis by (auto simp: lc_here_def)
    next
      case False
      with here(2) held(1) show ?thesis by (auto simp: lc_here_def intro: lc_knows_without)
    qed
  qed
  show "lc_shared_ok u N L s0 s' \<and> (\<forall>v m. lc_here u N L s0 v m s \<longrightarrow> lc_here u N L s0 v m s')"
    if "lc_env s s'"
    using that
  proof cases
    case (lc_env_world w)
    then have calls: "lc_calls u N L s0 (sh_lc s, w)"
      using ok by (auto simp: lc_shared_ok_def intro: reaches_step lc_world)
    have "lc_here u N L s0 v m s'" if "lc_here u N L s0 v m s" for v m
    proof -
      have "lc_holds m \<noteq> Write"
        using that lc_env_world(2) by (auto simp: lc_here_def held_writer [symmetric])
          (metis held_writer option.distinct(1))
      with that lc_env_world show ?thesis by (auto simp: lc_here_def intro: lc_knows_without)
    qed
    with calls lc_env_world ok show ?thesis by (auto simp: lc_shared_ok_def)
  qed
qed

lemma lc_pool_ok:
  assumes "lc_pool u N L s0 (s, f)"
  shows "lc_shared_ok u N L s0 s \<and> (\<forall>t. lc_here u N L s0 t (f t) s)"
proof -
  have "case (s, f) of (s, f) \<Rightarrow> lc_shared_ok u N L s0 s \<and> (\<forall>t. lc_here u N L s0 t (f t) s)"
    by (rule lc_threads.ok_reaches [OF assms]) (simp add: lc_shared_ok_def lc_here_def fresh_shared_def)
  then show ?thesis by simp
qed

section \<open>What the calls keep\<close>

interpretation lc_call_inv: preserved "lc_call_step u N L" "\<lambda>s. lc_ok (fst s)" for u N L
proof unfold_locales
  fix s s' :: "lifecycle \<times> 'a"
  assume ok: "lc_ok (fst s)" and "lc_call_step u N L s s'"
  from this(2) show "lc_ok (fst s')"
  proof cases
    case (lc_served c a)
    then show ?thesis
      using ok stop_execution_ok [OF ok]
      by (cases c; cases s)
        (auto simp: execute_ok push_message_ok lc_add_to_history_def split: prod.splits)
  qed (use ok in simp)
qed

lemma begin_execute_ok:
  "begin_execute u N iopt msg lc w = (x, lc', w') \<Longrightarrow> lc_ok lc \<Longrightarrow> lc_ok lc'"
  by (auto simp: begin_execute_def record_task_def lc_ok_def Let_def
      split: option.splits if_splits prod.splits)

text \<open>Whoever holds the lock: the lifecycle is in good order, also in the middle of a dispatch.\<close>

lemma lc_pool_lc_ok:
  assumes pool: "lc_pool u N L s0 (s, f)" and "lc_ok (fst s0)"
  shows "lc_ok (sh_lc s)"
proof -
  note ok = lc_pool_ok [OF pool]
  have calls: "lc_ok (fst b)" if "lc_calls u N L s0 b" for b
    using that assms(2) by (rule lc_call_inv.ok_reaches)
  show ?thesis
  proof (cases "mu_writer (sh_lock s)")
    case None
    with ok calls [of "(sh_lc s, sh_world s)"] show ?thesis by (simp add: lc_shared_ok_def)
  next
    case (Some t)
    then have "lc_holds (f t) = Write" "lc_knows u N L s0 (f t) (sh_lc s, sh_world s)"
      using ok held_writer [of "sh_lock s" t] by (simp_all add: lc_here_def)
    then show ?thesis
      using calls by (cases "f t") (auto simp: lc_begun_def dest: begin_execute_ok)
  qed
qed

text \<open>
  A service that never leaves a dispatch unfinished: no result with the status of a task that is
  under way, and no panic.
\<close>

definition settles :: "'w net \<Rightarrow> json_lib \<Rightarrow> bool" where
  "settles N L \<longleftrightarrow>
     (\<forall>c desc timeout w x w'. dispatch N L c desc timeout w = Some (x, w') \<longrightarrow>
        (\<exists>y. x = Ret y \<and>
           (\<forall>r. y = Inr r \<longrightarrow> er_status r \<notin> {''RUNNING'', ''IN_PROGRESS'', ''STARTING''})))"

lemma is_executing_set_status:
  "is_executing (set_status st lc) \<Longrightarrow> st \<in> {''RUNNING'', ''IN_PROGRESS'', ''STARTING''}"
  by (auto simp: set_status_def is_executing_def split: option.splits)

lemma finish_execution_settled:
  assumes "finish_execution y lc w = Some (z, lc', w')"
    and "\<forall>r. y = Inr r \<longrightarrow> er_status r \<notin> {''RUNNING'', ''IN_PROGRESS'', ''STARTING''}"
  shows "\<not> is_executing lc'"
  using assms
  by (auto simp: finish_execution_def reply_def Let_def dest!: is_executing_set_status
      split: sum.splits if_splits)

lemma handle_execution_settled:
  assumes "settles N L" and "\<not> is_executing lc"
    and "handle_execution N L it msg lc w = Some (y, lc', w')"
  shows "\<not> is_executing lc'"
proof (cases "lc_client lc = None \<or> task_running lc")
  case True
  with assms(2,3) show ?thesis
    by (auto simp: handle_execution_def reply_def split: option.splits)
next
  case False
  then obtain c where c: "lc_client lc = Some c" and nr: "\<not> task_running lc" by auto
  from assms(3) c nr obtain x w1 where
    d: "dispatch N L c (execution_task it msg) (execution_timeout it) (snd (time_now N w)) = Some (x, w1)"
    by (auto simp: handle_execution_def case_prod_beta Let_def split: option.splits)
  with assms(1) obtain z where z: "x = Ret z"
    "\<forall>r. z = Inr r \<longrightarrow> er_status r \<notin> {''RUNNING'', ''IN_PROGRESS'', ''STARTING''}"
    unfolding settles_def by blast
  with assms(3) c nr d have
    "finish_execution z (record_task it msg (fst (time_now N w)) lc) w1 = Some (y, lc', w')"
    by (simp add: handle_execution_def case_prod_beta)
  then show ?thesis by (rule finish_execution_settled) (rule z)
qed

lemma execute_settled:
  assumes "settles N L" and "\<not> is_executing lc"
    and "execute u N L iopt msg repo lc w = Some (y, lc', w')"
  shows "\<not> is_executing lc'"
proof -
  obtain it where it: "it = (case iopt of Some it \<Rightarrow> it | None \<Rightarrow> infer_missing u msg)" by simp
  have blocked: "\<not> is_executing lc'" if "handle_blocking lc w = Some (y, lc', w')"
    using that assms(2)
    by (auto simp: handle_blocking_def reply_def Let_def is_executing_def split: outcome.splits option.splits)
  from assms(2,3) show ?thesis
    unfolding execute_def it [symmetric] Let_def
    by (cases "it_type it")
      (auto simp: handler_defs blocked dest: handle_execution_settled [OF assms(1,2)]
        handle_investigation_state)
qed

lemma stop_execution_settled: "\<not> is_executing lc \<Longrightarrow> \<not> is_executing (snd (stop_execution lc))"
  by (auto simp: stop_execution_def is_executing_def renew_chan_def set_status_def Let_def
      split: option.splits outcome.splits if_splits)

interpretation lc_settled: preserved "lc_call_step u N L" "\<lambda>s. settles N L \<and> \<not> is_executing (fst s)"
  for u N L
proof unfold_locales
  fix s s' :: "lifecycle \<times> 'a"
  assume ok: "settles N L \<and> \<not> is_executing (fst s)" and "lc_call_step u N L s s'"
  from this(2) show "settles N L \<and> \<not> is_executing (fst s')"
  proof cases
    case (lc_served c a)
    obtain lc w where s: "s = (lc, w)" by (cases s)
    have "\<not> is_executing (fst s')"
    proof (cases c)
      case (CallExecute iopt msg repo)
      with lc_served s ok show ?thesis by (cases s') (auto dest: execute_settled)
    next
      case (CallAddToHistory r t)
      with lc_served s ok show ?thesis
        by (auto simp: lc_add_to_history_def push_message_def is_executing_def split: prod.splits)
    next
      case CallStopExecution
      with lc_served s ok stop_execution_settled [of lc] show ?thesis by (auto split: prod.splits)
    qed (use lc_served s ok in \<open>auto split: prod.splits\<close>)
    with ok show ?thesis by simp
  qed (use ok in simp)
qed

section \<open>Properties\<close>

text \<open>
  C4. The lock makes the calls atomic: however the calls of any number of threads interleave, every
  answer is the one the call gives on a lifecycle that whole calls, one after the other, have
  produced; while nobody writes, the lifecycle is such a one. In every state, also while a task
  is dispatched, the history holds at most 50 entries, and no call of \<open>StopExecution\<close> panics.
\<close>

theorem interleaved_calls_are_atomic:
  assumes "new_execution_lifecycle env = Inr lc0" and "lc_pool u N L (lc0, w0) (s, f)"
  shows "(\<forall>t c a. f t = Leaving c a \<longrightarrow>
      (\<exists>b b'. lc_calls u N L (lc0, w0) b \<and> lc_serve u N L c b = Some (a, b'))) \<and>
    (mu_writer (sh_lock s) = None \<longrightarrow> lc_calls u N L (lc0, w0) (sh_lc s, sh_world s)) \<and>
    length (lc_history (sh_lc s)) \<le> 50 \<and>
    (\<forall>t c x. f t = Leaving c (Stopped x) \<longrightarrow> (\<exists>e. x = Ret e))"
proof -
  note ok = lc_pool_ok [OF assms(2)]
  have new: "lc_ok lc0" using new_lifecycle_ok [of env] assms(1) by auto
  have served: "\<exists>b b'. lc_calls u N L (lc0, w0) b \<and> lc_serve u N L c b = Some (a, b')"
    if "f t = Leaving c a" for t c a
    using ok that by (metis lc_here_def lc_knows.simps(3) lc_served_before_def)
  have "\<exists>e. x = Ret e" if at: "f t = Leaving c (Stopped x)" for t c x
  proof -
    from served [OF at] obtain b b' where b: "lc_calls u N L (lc0, w0) b"
      and a: "lc_serve u N L c b = Some (Stopped x, b')" by blast
    have "lc_ok (fst b)" by (rule lc_call_inv.ok_reaches [OF b]) (simp add: new)
    from stop_execution_ok [OF this] a show ?thesis
      by (cases c; cases b) (auto split: prod.splits)
  qed
  moreover have "length (lc_history (sh_lc s)) \<le> 50"
    using lc_pool_lc_ok [OF assms(2)] new by (simp add: lc_ok_def)
  ultimately show ?thesis using ok served by (auto simp: lc_shared_ok_def)
qed

text \<open>
  C5. A dispatch keeps the lock: while one thread waits for a dispatched task, the lifecycle shows
  this task as running and not cancelled, every other thread is outside or waits for the lock,
  and nothing another thread or the world does changes the shared state. So a stop cannot reach
  a task that is being dispatched: it waits until the task has ended.
\<close>

theorem dispatch_keeps_the_lock:
  assumes "lc_pool u N L s0 (s, f)" and "f t = Dispatching c k cl desc timeout"
  shows "(k = ForExecution \<longrightarrow> (\<exists>tk. active_task (sh_lc s) = Some tk \<and> te_status tk = ''RUNNING'' \<and>
      te_description tk = desc) \<and> \<not> is_cancelled (sh_lc s)) \<and>
    (\<forall>v. v \<noteq> t \<longrightarrow> f v = Away \<or> (\<exists>c'. f v = Waiting c')) \<and>
    (\<forall>v s' l. v \<noteq> t \<and> lc_move u N L v s (f v) s' l \<longrightarrow>
       s' = s \<and> f v = Away \<and> (\<exists>c'. l = Waiting c')) \<and>
    (\<forall>s'. \<not> lc_env s s')"
proof -
  note ok = lc_pool_ok [OF assms(1)]
  then have begun: "lc_begun u N L s0 c k cl desc timeout (sh_lc s, sh_world s)"
    and holds: "held (sh_lock s) t = lc_locking c"
    using assms(2) by (metis lc_here_def lc_knows.simps(2), metis lc_here_def lc_holds.simps(2))
  from begun have "lc_locking c = Write" by (auto simp: lc_begun_def)
  with holds have writes: "held (sh_lock s) t = Write" by simp
  have mutex: "mutex_ok (sh_lock s)" using ok by (simp add: lc_shared_ok_def)
  have others: "f v = Away \<or> (\<exists>c'. f v = Waiting c')" if "v \<noteq> t" for v
  proof -
    have "lc_holds (f v) = Free"
      using ok writer_alone [OF mutex writes that] by (simp add: lc_here_def)
    then show ?thesis by (cases "f v") auto
  qed
  have blocked: "mu_lock v (sh_lock s) = None" "mu_rlock v (sh_lock s) = None" for v
    using writes by (simp_all add: held_writer mu_lock_def mu_rlock_def)
  have "s' = s \<and> f v = Away \<and> (\<exists>c'. l = Waiting c')"
    if "v \<noteq> t" and move: "lc_move u N L v s (f v) s' l" for v s' l
    using move others [OF that(1)] blocked by (auto elim!: lc_moveE)
  moreover have "\<not> lc_env s s'" for s'
    using writes by (auto simp: held_writer elim!: lc_env.cases)
  moreover have "(\<exists>tk. active_task (sh_lc s) = Some tk \<and> te_status tk = ''RUNNING'' \<and>
      te_description tk = desc) \<and> \<not> is_cancelled (sh_lc s)" if "k = ForExecution"
    using begun that by (auto simp: lc_begun_def dest: begin_execute_task)
  ultimately show ?thesis using others by blast
qed

text \<open>
  C7. Nobody ever sees a running task: with a service that settles every dispatch, however the calls
  interleave, \<open>IsExecuting\<close> never answers true, although tasks run, and whoever gets the lock
  finds no task under way: the refusal of a second execution and the stop are never needed.
\<close>

theorem running_task_never_seen:
  assumes "settles N L" and "new_execution_lifecycle env = Inr lc0"
    and "lc_pool u N L (lc0, w0) (s, f)"
  shows "(\<forall>t c b. f t = Leaving c (Executing b) \<longrightarrow> \<not> b) \<and>
    (\<forall>t c. f t = Inside c \<longrightarrow> \<not> is_executing (sh_lc s) \<and> \<not> task_running (sh_lc s))"
proof -
  note ok = lc_pool_ok [OF assms(3)]
  have new: "\<not> is_executing lc0" using new_lifecycle_ok [of env] assms(2) by (auto simp: is_executing_def)
  have calls: "\<not> is_executing (fst b)" if "lc_calls u N L (lc0, w0) b" for b
    using lc_settled.ok_reaches [OF that] assms(1) new by simp
  have "\<not> b" if at: "f t = Leaving c (Executing b)" for t c b
  proof -
    from ok at obtain x y where "lc_calls u N L (lc0, w0) x"
      and "lc_serve u N L c x = Some (Executing b, y)"
      by (metis lc_here_def lc_knows.simps(3) lc_served_before_def)
    with calls show ?thesis by (cases c; cases x) (auto split: prod.splits)
  qed
  moreover have "\<not> is_executing (sh_lc s)" if at: "f t = Inside c" for t c
  proof -
    have "lc_calls u N L (lc0, w0) (sh_lc s, sh_world s)"
      using ok at lc_locking_cases [of c] read_no_writer [of "sh_lock s" t]
      by (metis lc_here_def lc_holds.simps(1) lc_knows.simps(1) lc_shared_ok_def)
    with calls show ?thesis by fastforce
  qed
  moreover have "task_running lc \<Longrightarrow> is_executing lc" for lc
    by (auto simp: task_running_def is_executing_def is_running_def split: option.splits)
  ultimately show ?thesis by blast
qed

text \<open>
  C6. The lock never deadlocks: with a clock that keeps its documented behaviour, in every state of
  every interleaving in which some thread has not finished its call, one of these threads can
  move.
\<close>

theorem calls_never_deadlock:
  assumes "clock_ok N" and "lc_pool u N L s0 (s, f)" and "f t \<noteq> Away"
  shows "\<exists>v s' l. f v \<noteq> Away \<and> lc_move u N L v s (f v) s' l"
proof -
  note ok = lc_pool_ok [OF assms(2)]
  have inside: "\<exists>s' l. lc_move u N L v s (f v) s' l" if "lc_holds (f v) \<noteq> Free" for v
  proof (cases "f v")
    case (Inside c)
    obtain a b where serve: "lc_serve u N L c (sh_lc s, sh_world s) = Some (a, b)"
      using lc_serve_returns [OF assms(1)] by blast
    obtain lc' w' where b: "b = (lc', w')" by (cases b)
    show ?thesis
    proof (cases "lc_dispatches u N c s")
      case False
      from mv_body [OF False serve [unfolded b]] Inside show ?thesis by auto
    next
      case True
      then obtain iopt msg repo k cl desc timeout lc1 w1 where "c = CallExecute iopt msg repo"
        and "begin_execute u N iopt msg (sh_lc s) (sh_world s) = (Some (k, cl, desc, timeout), lc1, w1)"
        by (cases c) (auto, metis prod.exhaust_sel prod.sel)
      from mv_dispatch [OF this] Inside show ?thesis by auto
    qed
  next
    case (Dispatching c k cl desc timeout)
    obtain x w1 where d: "dispatch N L cl desc timeout (sh_world s) = Some (x, w1)"
      using dispatch_returns [OF assms(1)] by blast
    obtain y lc' w' where "end_execute k x (sh_lc s) w1 = Some (y, lc', w')"
      using end_execute_returns [of k x "sh_lc s" w1] by (elim exE)
    with d have "lc_move u N L v s (f v) (s\<lparr>sh_lc := lc', sh_world := w'\<rparr>) (Leaving c (Answered y))"
      unfolding Dispatching by (rule mv_result)
    then show ?thesis by blast
  next
    case (Leaving c a)
    then show ?thesis using lc_locking_cases [of c] mv_unlock mv_runlock by metis
  qed (use that in simp_all)
  show ?thesis
  proof (cases "\<exists>v. held (sh_lock s) v \<noteq> Free")
    case True
    then obtain v where "lc_holds (f v) \<noteq> Free" using ok by (auto simp: lc_here_def)
    moreover from this have "f v \<noteq> Away" by auto
    ultimately show ?thesis using inside by blast
  next
    case False
    then have free: "lc_holds (f t) = Free" "mutex_ok (sh_lock s)"
      "\<And>v. held (sh_lock s) v = Free"
      using ok by (auto simp: lc_here_def lc_shared_ok_def)
    with assms(3) obtain c where c: "f t = Waiting c" by (cases "f t") auto
    from nobody_locks [OF free(2,3), of t] lc_locking_cases [of c] mv_lock mv_rlock
    have "\<exists>s' l. lc_move u N L t s (f t) s' l" unfolding c by metis
    with assms(3) show ?thesis by blast
  qed
qed

section \<open>A run of two threads\<close>

text \<open>One thread executes a task with a service that refuses, another asks whether a task runs.\<close>

definition key_env :: environ where
  "key_env = [''OPENHANDS_API_KEY'' \<mapsto> ''key'']"

definition key_lifecycle :: lifecycle where
  "key_lifecycle = (case new_execution_lifecycle key_env of Inr lc \<Rightarrow> lc | Inl e \<Rightarrow> idle_lifecycle None)"

definition fix_call :: lc_call where
  "fix_call = CallExecute (Some (simple_intent IntentExecution ''fix'' True)) ''fix'' ''o/r''"

abbreviation refusing :: "int net" where
  "refusing \<equiv> answering (\<lambda>_. Inl ''refused'')"

lemma key_lifecycle_new: "new_execution_lifecycle key_env = Inr key_lifecycle"
  using new_lifecycle_ok [of key_env] by (auto simp: key_lifecycle_def)

lemma refusing_settles: "settles refusing L"
proof -
  have "\<exists>e. fst (start_execution refusing L c t w) = Inl e" for c t w
    by (auto simp: start_execution_def answering_def split: sum.splits)
  then show ?thesis
    unfolding settles_def dispatch_def
    by (auto split: prod.splits sum.splits) (metis Inl_Inr_False fst_conv)+
qed

definition fix_started :: lifecycle where
  "fix_started = record_task (simple_intent IntentExecution ''fix'' True) ''fix'' 0 key_lifecycle"

definition key_client :: oh_client where
  "key_client = the (lc_client key_lifecycle)"

definition fix_ended :: "int lc_shared" where
  "fix_ended = \<lparr>sh_lock = free_mutex, sh_lc = set_status ''FAILED'' fix_started, sh_world = 0\<rparr>"

lemma key_lifecycle_fields:
  "lc_client key_lifecycle = Some key_client" "active_task key_lifecycle = None"
proof -
  have "lc_client key_lifecycle \<noteq> None" by code_simp
  then show "lc_client key_lifecycle = Some key_client" by (auto simp: key_client_def)
  show "active_task key_lifecycle = None" using new_lifecycle_ok [of key_env] key_lifecycle_new by auto
qed

lemma sample_begin:
  "begin_execute ascii_tables refusing (Some (simple_intent IntentExecution ''fix'' True)) ''fix'' key_lifecycle 0 =
     (Some (ForExecution, key_client, ''fix'', 10 * minute), fix_started, 0)"
  by (simp add: begin_execute_def key_lifecycle_fields simple_intent_def task_running_def answering_def
      execution_task_def execution_timeout_def fix_started_def)

lemma sample_dispatch:
  "\<exists>e. dispatch refusing (scan_table []) key_client ''fix'' (10 * minute) 0 = Some (Ret (Inl e), 0)"
  by (auto simp: dispatch_def start_execution_def answering_def split: sum.splits prod.splits)

lemma lc_pool_moves:
  "lc_pool u N L s0 (s, f) \<Longrightarrow> lc_move u N L t s (f t) s' l \<Longrightarrow> lc_pool u N L s0 (s', f(t := l))"
  by (rule pool_moves [OF _ refl])

lemma sample_dispatching:
  "lc_pool ascii_tables refusing (scan_table []) (key_lifecycle, 0)
     (\<lparr>sh_lock = \<lparr>mu_writer = Some 0, mu_readers = []\<rparr>, sh_lc = fix_started, sh_world = 0\<rparr>,
      (\<lambda>_. Away)(0 := Dispatching fix_call ForExecution key_client ''fix'' (10 * minute)))"
proof -
  let ?move = "lc_move ascii_tables refusing (scan_table [])"
  let ?p = "lc_pool ascii_tables refusing (scan_table []) (key_lifecycle, 0)"
  let ?s = "fresh_shared key_lifecycle (0 :: int)"
  let ?m = "\<lparr>mu_writer = Some 0, mu_readers = []\<rparr>"
  have "?p (?s, \<lambda>_. Away)" by simp
  then have p: "?p (?s, (\<lambda>_. Away)(0 := Waiting fix_call))"
    by (rule lc_pool_moves) (rule mv_call)
  have "mu_lock 0 (sh_lock ?s) = Some ?m" by (simp add: mu_lock_def fresh_shared_def free_mutex_def)
  then have "?move 0 ?s (Waiting fix_call) (?s\<lparr>sh_lock := ?m\<rparr>) (Inside fix_call)"
    by (intro mv_lock) (simp_all add: fix_call_def)
  with lc_pool_moves [OF p, of 0] have p: "?p (?s\<lparr>sh_lock := ?m\<rparr>, (\<lambda>_. Away)(0 := Inside fix_call))" by simp
  have "?move 0 (?s\<lparr>sh_lock := ?m\<rparr>) (Inside fix_call)
      (?s\<lparr>sh_lock := ?m, sh_lc := fix_started, sh_world := 0\<rparr>)
      (Dispatching fix_call ForExecution key_client ''fix'' (10 * minute))"
    by (rule mv_dispatch [OF fix_call_def]) (simp add: fresh_shared_def sample_begin)
  with lc_pool_moves [OF p, of 0] show ?thesis by (simp add: fresh_shared_def)
qed

lemma sample_asked:
  "\<exists>e. lc_pool ascii_tables refusing (scan_table []) (key_lifecycle, 0)
     (fix_ended\<lparr>sh_lock := \<lparr>mu_writer = None, mu_readers = [1]\<rparr>\<rparr>,
      (\<lambda>_. Away)(1 := Leaving CallIsExecuting (Executing e)))"
proof -
  let ?move = "lc_move ascii_tables refusing (scan_table [])"
  let ?p = "lc_pool ascii_tables refusing (scan_table []) (key_lifecycle, 0)"
  let ?m = "\<lparr>mu_writer = Some 0, mu_readers = []\<rparr>" and ?r = "\<lparr>mu_writer = None, mu_readers = [1]\<rparr>"
  let ?s = "\<lparr>sh_lock = ?m, sh_lc = fix_started, sh_world = (0 :: int)\<rparr>"
  obtain e where "dispatch refusing (scan_table []) key_client ''fix'' (10 * minute) (sh_world ?s) =
      Some (Ret (Inl e), 0)"
    using sample_dispatch by auto
  moreover have "end_execute ForExecution (Ret (Inl e)) (sh_lc ?s) 0 =
      Some (Ret (Inr (''OpenHands execution error: '' @ e)), set_status ''FAILED'' fix_started, 0)"
    by (simp add: end_execute_def finish_execution_def reply_def)
  ultimately have "?move 0 ?s (Dispatching fix_call ForExecution key_client ''fix'' (10 * minute))
      (?s\<lparr>sh_lc := set_status ''FAILED'' fix_started, sh_world := 0\<rparr>)
      (Leaving fix_call (Answered (Ret (Inr (''OpenHands execution error: '' @ e)))))"
    by (rule mv_result)
  with lc_pool_moves [OF sample_dispatching, of 0] have
    "?p (fix_ended\<lparr>sh_lock := ?m\<rparr>, (\<lambda>_. Away)(0 := Leaving fix_call (Answered (Ret (Inr (''OpenHands execution error: '' @ e))))))"
    by (simp add: fix_ended_def)
  then obtain a where p: "?p (fix_ended\<lparr>sh_lock := ?m\<rparr>, (\<lambda>_. Away)(0 := Leaving fix_call a))" by blast
  have "?move 0 (fix_ended\<lparr>sh_lock := ?m\<rparr>) (Leaving fix_call a) fix_ended Away"
    using mv_unlock [of fix_call _ _ _ 0 "fix_ended\<lparr>sh_lock := ?m\<rparr>"]
    by (simp add: fix_call_def fix_ended_def mu_unlock_def free_mutex_def)
  with lc_pool_moves [OF p, of 0] have "?p (fix_ended, (\<lambda>_. Away)(0 := Away))" by simp
  then have "?p (fix_ended, \<lambda>_. Away)" by (simp only: fun_upd_idem)
  then have p: "?p (fix_ended, (\<lambda>_. Away)(1 := Waiting CallIsExecuting))"
    by (rule lc_pool_moves) (rule mv_call)
  have "mu_rlock 1 (sh_lock fix_ended) = Some ?r" by (simp add: mu_rlock_def fix_ended_def free_mutex_def)
  with lc_pool_moves [OF p, of 1] mv_rlock [of CallIsExecuting 1 fix_ended] have
    p: "?p (fix_ended\<lparr>sh_lock := ?r\<rparr>, (\<lambda>_. Away)(1 := Inside CallIsExecuting))" by simp
  have "?move 1 (fix_ended\<lparr>sh_lock := ?r\<rparr>) (Inside CallIsExecuting) (fix_ended\<lparr>sh_lock := ?r\<rparr>)
      (Leaving CallIsExecuting (Executing (is_executing (sh_lc fix_ended))))"
    using mv_body [of ascii_tables refusing CallIsExecuting "fix_ended\<lparr>sh_lock := ?r\<rparr>" "scan_table []"]
    by (simp add: fix_ended_def)
  with lc_pool_moves [OF p, of 1] have "?p (fix_ended\<lparr>sh_lock := ?r\<rparr>,
      (\<lambda>_. Away)(1 := Leaving CallIsExecuting (Executing (is_executing (sh_lc fix_ended)))))" by simp
  then show ?thesis by blast
qed

theorem interleaved_calls_are_atomic_witness:
  "\<exists>e b b'. lc_calls ascii_tables refusing (scan_table []) (key_lifecycle, 0) b \<and>
     lc_serve ascii_tables refusing (scan_table []) CallIsExecuting b = Some (Executing e, b')"
  using sample_asked interleaved_calls_are_atomic [OF key_lifecycle_new] by fastforce

theorem dispatch_keeps_the_lock_witness:
  "\<exists>tk. active_task fix_started = Some tk \<and> te_status tk = ''RUNNING'' \<and> te_description tk = ''fix''"
  using dispatch_keeps_the_lock [OF sample_dispatching, where t = 0] by simp

theorem running_task_never_seen_witness:
  "lc_pool ascii_tables refusing (scan_table []) (key_lifecycle, 0)
     (fix_ended\<lparr>sh_lock := \<lparr>mu_writer = None, mu_readers = [1]\<rparr>\<rparr>,
      (\<lambda>_. Away)(1 := Leaving CallIsExecuting (Executing False)))"
proof -
  obtain e where e: "lc_pool ascii_tables refusing (scan_table []) (key_lifecycle, 0)
     (fix_ended\<lparr>sh_lock := \<lparr>mu_writer = None, mu_readers = [1]\<rparr>\<rparr>,
      (\<lambda>_. Away)(1 := Leaving CallIsExecuting (Executing e)))"
    using sample_asked by blast
  have "\<not> e"
    using running_task_never_seen [OF refusing_settles key_lifecycle_new e]
    by (metis fun_upd_same)
  with e show ?thesis by simp
qed

theorem calls_never_deadlock_witness:
  "\<exists>v s' l. v = 0 \<and> lc_move ascii_tables refusing (scan_table []) v
     \<lparr>sh_lock = \<lparr>mu_writer = Some 0, mu_readers = []\<rparr>, sh_lc = fix_started, sh_world = 0\<rparr>
     (Dispatching fix_call ForExecution key_client ''fix'' (10 * minute)) s' l"
proof -
  obtain v s' l where "((\<lambda>_. Away)(0 := Dispatching fix_call ForExecution key_client ''fix'' (10 * minute))) v \<noteq> Away"
    and "lc_move ascii_tables refusing (scan_table []) v
     \<lparr>sh_lock = \<lparr>mu_writer = Some 0, mu_readers = []\<rparr>, sh_lc = fix_started, sh_world = 0\<rparr>
     (((\<lambda>_. Away)(0 := Dispatching fix_call ForExecution key_client ''fix'' (10 * minute))) v) s' l"
    using calls_never_deadlock [OF clock_ok_answering sample_dispatching, of 0] by auto
  then show ?thesis by (auto split: if_splits)
qed

end
