(* ===== verification/Dispatcher.thy ===== *)
theory Dispatcher
  imports Poll System
begin

text \<open>
  \<open>internal/workflow/dispatcher.go\<close>: dispatching a GitHub Actions workflow and following its
  runs. The dispatcher keeps the runs it started in a map from the decimal run number to the
  run; \<open>GetRunStatus\<close> updates the stored run through its pointer.

  \<open>OperationalPayload\<close> and \<open>SimplifiedPayload\<close> are different types, so the two calls that pass
  the first to \<open>Dispatch\<close> do not compile; the model reads them as passing its task and
  repository. \<open>time.Parse(time.RFC3339, s)\<close> is the parameter \<open>rfc3339\<close>, an instant or
  nothing.
\<close>

section \<open>Data\<close>

record workflow_run =
  wr_id :: string
  wr_run_id :: int
  wr_task :: string
  wr_status :: string
  wr_conclusion :: string
  wr_created :: int
  wr_updated :: int
  wr_result :: string

definition zero_run :: workflow_run where
  "zero_run = \<lparr>wr_id = [], wr_run_id = 0, wr_task = [], wr_status = [], wr_conclusion = [],
     wr_created = 0, wr_updated = 0, wr_result = []\<rparr>"

record dispatcher =
  d_token :: string
  d_owner :: string
  d_repo :: string
  d_workflow :: string
  d_runs :: "(string, workflow_run) gomap"

record simplified_payload =
  sp_task :: string
  sp_repository :: string

record operational_payload =
  op_task :: string
  op_repository :: string
  op_context :: string
  op_findings :: string
  op_roadmap :: string
  op_intent :: string
  op_urgency :: string

definition new_payload ::
    "string \<Rightarrow> string \<Rightarrow> string \<Rightarrow> string \<Rightarrow> string \<Rightarrow> string \<Rightarrow> string \<Rightarrow> operational_payload" where
  "new_payload task repo ctx findings roadmap intent_name urg =
     \<lparr>op_task = task, op_repository = repo, op_context = ctx, op_findings = findings,
      op_roadmap = roadmap, op_intent = intent_name, op_urgency = urg\<rparr>"

text \<open>
  \<open>NewDispatcher\<close>. The owner and repository are split from the full path only when the
  variable is empty and not empty at once.
\<close>

definition new_dispatcher :: "environ \<Rightarrow> dispatcher" where
  "new_dispatcher env =
     (let token = getenv env ''GITHUB_TOKEN'';
          token = (if token = [] then getenv env ''GITHUB_API_TOKEN'' else token);
          owner = getenv env ''GITHUB_OWNER'';
          repo = getenv env ''GITHUB_REPOSITORY'';
          parts = split_on (CHR ''/'') (getenv env ''GITHUB_REPOSITORY'');
          (owner, repo) =
            (if repo = [] \<and> getenv env ''GITHUB_REPOSITORY'' \<noteq> [] \<and> 2 \<le> length parts
             then (parts ! 0, parts ! 1) else (owner, repo))
      in \<lparr>d_token = token, d_owner = owner, d_repo = repo, d_workflow = ''operational-runtime'',
          d_runs = []\<rparr>)"

definition new_dispatcher_from_env :: "environ \<Rightarrow> dispatcher" where
  "new_dispatcher_from_env env = new_dispatcher env"

definition d_is_configured :: "dispatcher \<Rightarrow> bool" where
  "d_is_configured d \<longleftrightarrow> d_token d \<noteq> [] \<and> d_owner d \<noteq> [] \<and> d_repo d \<noteq> []"

section \<open>Dispatching\<close>

definition repo_url :: "dispatcher \<Rightarrow> string \<Rightarrow> string" where
  "repo_url d rest =
     ''https://api.github.com/repos/'' @ d_owner d @ ''/'' @ d_repo d @ ''/actions/'' @ rest"

definition dispatch_body :: "string \<Rightarrow> string \<Rightarrow> json" where
  "dispatch_body task repository =
     JObj [(''inputs'', JObj [(''repository'', jtext repository), (''task'', jtext task)]),
           (''ref'', JStr ''main'')]"

definition dec_run_id :: "int decoder" where
  "dec_run_id = dec_struct (\<lambda>_. dec_int) [''run_id'']"

definition bearer :: "dispatcher \<Rightarrow> http_request \<Rightarrow> http_request" where
  "bearer d r = set_header ''Authorization'' (''Bearer '' @ d_token d) r"

definition accept_github :: "http_request \<Rightarrow> http_request" where
  "accept_github r = set_header ''Accept'' ''application/vnd.github+json'' r"

text \<open>The error of \<open>json.Unmarshal\<close> is dropped: the run number stays what it was, zero.\<close>

definition dispatch_simplified ::
    "'w net \<Rightarrow> json_lib \<Rightarrow> string \<Rightarrow> string \<Rightarrow> dispatcher \<Rightarrow> 'w \<Rightarrow>
       workflow_run res \<times> dispatcher \<times> 'w" where
  "dispatch_simplified N L task repository d w =
     (if d_token d = [] then (Inl ''GITHUB_TOKEN is required for workflow dispatch'', d, w)
      else
        (case new_request N ''POST''
                (repo_url d (''workflows/'' @ d_workflow d @ ''/dispatches''))
                (Some (dispatch_body task repository)) of
           Inl e \<Rightarrow> (Inl (''failed to create request: '' @ e), d, w)
         | Inr req \<Rightarrow>
             (case http_do N (accept_github
                     (set_header ''Content-Type'' ''application/json'' (bearer d req))) w of
                (Inl e, w) \<Rightarrow> (Inl (''failed to dispatch workflow: '' @ e), d, w)
              | (Inr resp, w) \<Rightarrow>
                  if status_code resp \<noteq> 204 \<and> status_code resp \<noteq> 201 \<and> status_code resp \<noteq> 200
                  then (Inl (''workflow dispatch failed: status '' @ show_int (status_code resp) @
                             '', body: '' @ resp_body resp), d, w)
                  else
                    (let run_id = fst (unmarshal L dec_run_id (resp_body resp) 0);
                         (now, w) = time_now N w;
                         run = zero_run\<lparr>wr_id := show_int run_id, wr_run_id := run_id,
                                 wr_task := task, wr_status := ''queued'', wr_created := now\<rparr>
                     in (Inr run, d\<lparr>d_runs := put (wr_id run) run (d_runs d)\<rparr>, w)))))"

definition dispatch_payload ::
    "'w net \<Rightarrow> json_lib \<Rightarrow> simplified_payload \<Rightarrow> dispatcher \<Rightarrow> 'w \<Rightarrow>
       workflow_run res \<times> dispatcher \<times> 'w" where
  "dispatch_payload N L p d w = dispatch_simplified N L (sp_task p) (sp_repository p) d w"

section \<open>Following a run\<close>

record run_update =
  ru_status :: string
  ru_conclusion :: string
  ru_updated_at :: string

definition set_run_update :: "string \<Rightarrow> run_update decoder" where
  "set_run_update n v s =
     (if n = ''status'' then (let (x, e) = dec_string v (ru_status s) in (s\<lparr>ru_status := x\<rparr>, e))
      else if n = ''conclusion'' then
        (let (x, e) = dec_string v (ru_conclusion s) in (s\<lparr>ru_conclusion := x\<rparr>, e))
      else (let (x, e) = dec_string v (ru_updated_at s) in (s\<lparr>ru_updated_at := x\<rparr>, e)))"

definition dec_run_update :: "run_update decoder" where
  "dec_run_update = dec_struct set_run_update [''status'', ''conclusion'', ''updated_at'']"

text \<open>
  The status URL is formatted with \<open>%s\<close> for the run number, an integer: package \<open>fmt\<close> writes
  \<open>%!s(int=N)\<close>.
\<close>

definition run_status_url :: "dispatcher \<Rightarrow> workflow_run \<Rightarrow> string" where
  "run_status_url d run = repo_url d (''runs/%!s(int='' @ show_int (wr_run_id run) @ '')'')"

definition update_run :: "(string \<Rightarrow> int option) \<Rightarrow> run_update \<Rightarrow> workflow_run \<Rightarrow> workflow_run" where
  "update_run rfc3339 u run =
     (let run = run\<lparr>wr_status := ru_status u, wr_conclusion := ru_conclusion u\<rparr>;
          run = (case rfc3339 (ru_updated_at u) of Some t \<Rightarrow> run\<lparr>wr_updated := t\<rparr> | None \<Rightarrow> run)
      in if ru_status u = ''completed''
         then run\<lparr>wr_status := if ru_conclusion u = ''success'' then ''completed'' else ''failed''\<rparr>
         else run)"

definition get_run_status ::
    "'w net \<Rightarrow> json_lib \<Rightarrow> (string \<Rightarrow> int option) \<Rightarrow> string \<Rightarrow> dispatcher \<Rightarrow> 'w \<Rightarrow>
       workflow_run res \<times> dispatcher \<times> 'w" where
  "get_run_status N L rfc3339 run_id d w =
     (case map_of (d_runs d) run_id of
        None \<Rightarrow> (Inr (zero_run\<lparr>wr_status := ''not_found''\<rparr>), d, w)
      | Some run \<Rightarrow>
          if d_token d = [] then (Inr run, d, w)
          else
            (case new_request N ''GET'' (run_status_url d run) None of
               Inl e \<Rightarrow> (Inr run, d, w)
             | Inr req \<Rightarrow>
                 (case http_do N (accept_github (bearer d req)) w of
                    (Inl e, w) \<Rightarrow> (Inr run, d, w)
                  | (Inr resp, w) \<Rightarrow>
                      if status_code resp \<noteq> 200 then (Inr run, d, w)
                      else
                        (let u = fst (unmarshal L dec_run_update (resp_body resp)
                                   \<lparr>ru_status = [], ru_conclusion = [], ru_updated_at = []\<rparr>);
                             run = update_run rfc3339 u run
                         in (Inr run, d\<lparr>d_runs := put run_id run (d_runs d)\<rparr>, w)))))"

definition run_final :: "workflow_run \<Rightarrow> bool" where
  "run_final r \<longleftrightarrow>
     wr_status r = ''completed'' \<or> wr_status r = ''failed'' \<or> wr_status r = ''not_found''"

definition run_timeout :: "string \<Rightarrow> workflow_run" where
  "run_timeout run_id = zero_run\<lparr>wr_id := run_id, wr_status := ''timeout'', wr_task := ''unknown''\<rparr>"

partial_function (option) poll_run_loop ::
    "'w net \<Rightarrow> json_lib \<Rightarrow> (string \<Rightarrow> int option) \<Rightarrow> string \<Rightarrow> int \<Rightarrow> int \<Rightarrow> dispatcher \<Rightarrow> 'w \<Rightarrow>
       (workflow_run res \<times> dispatcher \<times> 'w) option" where
  "poll_run_loop N L rfc3339 run_id interval deadline d w =
     (case time_now N w of (now, w1) \<Rightarrow>
        if now < deadline then
          (case get_run_status N L rfc3339 run_id d w1 of
             (Inl e, d2, w2) \<Rightarrow> Some (Inl e, d2, w2)
           | (Inr run, d2, w2) \<Rightarrow>
               if run_final run then Some (Inr run, d2, w2)
               else poll_run_loop N L rfc3339 run_id interval deadline d2 (time_sleep N interval w2))
        else Some (Inr (run_timeout run_id), d, w1))"

definition poll_run ::
    "'w net \<Rightarrow> json_lib \<Rightarrow> (string \<Rightarrow> int option) \<Rightarrow> string \<Rightarrow> int \<Rightarrow> int \<Rightarrow> dispatcher \<Rightarrow> 'w \<Rightarrow>
       (workflow_run res \<times> dispatcher \<times> 'w) option" where
  "poll_run N L rfc3339 run_id timeout interval d w =
     (case time_now N w of (now, w) \<Rightarrow>
        poll_run_loop N L rfc3339 run_id interval (now + timeout) d w)"

definition dispatch_and_wait ::
    "'w net \<Rightarrow> json_lib \<Rightarrow> (string \<Rightarrow> int option) \<Rightarrow> operational_payload \<Rightarrow> int \<Rightarrow> dispatcher \<Rightarrow> 'w \<Rightarrow>
       (workflow_run res \<times> dispatcher \<times> 'w) option" where
  "dispatch_and_wait N L rfc3339 p timeout d w =
     (case dispatch_payload N L \<lparr>sp_task = op_task p, sp_repository = op_repository p\<rparr> d w of
        (Inl e, d, w) \<Rightarrow> Some (Inl e, d, w)
      | (Inr run, d, w) \<Rightarrow>
          if wr_status run = ''queued'' then poll_run N L rfc3339 (wr_id run) timeout (10 * second) d w
          else Some (Inr run, d, w))"

section \<open>Cancelling and reporting\<close>

definition cancel_run ::
    "'w net \<Rightarrow> string \<Rightarrow> dispatcher \<Rightarrow> 'w \<Rightarrow> goerr option \<times> dispatcher \<times> 'w" where
  "cancel_run N run_id d w =
     (if d_token d = [] then (Some ''GITHUB_TOKEN required'', d, w)
      else
        (case new_request N ''POST'' (repo_url d (''runs/'' @ run_id @ ''/cancel'')) None of
           Inl e \<Rightarrow> (Some e, d, w)
         | Inr req \<Rightarrow>
             (case http_do N (accept_github (bearer d req)) w of
                (Inl e, w) \<Rightarrow> (Some e, d, w)
              | (Inr resp, w) \<Rightarrow>
                  if status_code resp \<noteq> 204 \<and> status_code resp \<noteq> 200
                  then (Some (''cancel failed: status '' @ show_int (status_code resp)), d, w)
                  else
                    (None,
                     (case map_of (d_runs d) run_id of
                        None \<Rightarrow> d
                      | Some run \<Rightarrow>
                          d\<lparr>d_runs := put run_id (run\<lparr>wr_status := ''cancelled''\<rparr>) (d_runs d)\<rparr>),
                     w))))"

definition d_get_status :: "dispatcher \<Rightarrow> string" where
  "d_get_status d =
     (if \<not> d_is_configured d then ''not_configured''
      else
        (let active = length (filter (\<lambda>(k, r). wr_status r = ''queued'' \<or> wr_status r = ''in_progress'')
                                (d_runs d))
         in if 0 < active then ''active: '' @ show_nat active @ '' runs'' else ''ready''))"

definition format_run_status :: "workflow_run option \<Rightarrow> string" where
  "format_run_status r =
     (case r of
        None \<Rightarrow> ''No run data''
      | Some run \<Rightarrow>
          ''Workflow: '' @ wr_status run @
          (if wr_task run \<noteq> [] then nl @ ''Task: '' @ wr_task run else []) @
          (if wr_conclusion run \<noteq> [] then nl @ ''Conclusion: '' @ wr_conclusion run else []))"

section \<open>The polling loop is a poller\<close>

lemma get_run_status_clock:
  "clock_ok N \<Longrightarrow>
     fst (time_now N w) \<le> fst (time_now N (snd (snd (get_run_status N L p i d w))))"
  using clock_okD(2) [of N w]
  by (auto simp: get_run_status_def Let_def split: option.splits sum.splits prod.splits)
    (metis order.refl snd_conv)+

fun run_stop :: "workflow_run res \<Rightarrow> bool" where
  "run_stop (Inl e) = True"
| "run_stop (Inr r) = run_final r"

lemma clock_beside_fst: "clock_ok (beside N :: ('d \<times> 'w) net) \<Longrightarrow> clock_ok N"
  unfolding clock_ok_def
  by (simp add: beside_def map_prod_def case_prod_beta)

interpretation gh: poller
  "beside :: 'w net \<Rightarrow> (dispatcher \<times> 'w) net"
  "\<lambda>N (L, rfc3339, run_id) (d, w). get_run_status N L rfc3339 run_id d w"
  "\<lambda>_. run_stop"
  "\<lambda>(L, rfc3339, run_id). Inr (run_timeout run_id)"
  "\<lambda>N (L, rfc3339, run_id) interval deadline (d, w).
     poll_run_loop N L rfc3339 run_id interval deadline d w"
proof (unfold_locales, goal_cases)
  case (1 N c interval deadline s)
  obtain L p i where c: "c = (L, p, i)" by (cases c) auto
  obtain d w where s: "s = (d, w)" by (cases s) auto
  obtain x d2 w2 where "get_run_status N L p i d (snd (time_now N w)) = (x, d2, w2)"
    by (cases "get_run_status N L p i d (snd (time_now N w))") auto
  then show ?case
    unfolding c s
    by (cases x)
      (simp_all add: poll_run_loop.simps [of N L p i interval deadline d w] case_prod_beta)
next
  case (2 N s c)
  then show ?case
    using get_run_status_clock [OF clock_beside_fst] by (cases c; cases s) auto
qed

section \<open>The runs of a dispatcher\<close>

definition same_config :: "dispatcher \<Rightarrow> dispatcher \<Rightarrow> bool" where
  "same_config d d' \<longleftrightarrow>
     d_token d' = d_token d \<and> d_owner d' = d_owner d \<and> d_repo d' = d_repo d \<and>
     d_workflow d' = d_workflow d"

lemma same_config_simps [simp]:
  "same_config d d" "same_config d (d'\<lparr>d_runs := m\<rparr>) = same_config d d'"
  by (simp_all add: same_config_def)

lemma same_config_trans: "same_config a b \<Longrightarrow> same_config b c \<Longrightarrow> same_config a c"
  by (simp add: same_config_def)

text \<open>Every run is stored under its own identifier, once.\<close>

definition runs_ok :: "(string, workflow_run) gomap \<Rightarrow> bool" where
  "runs_ok m \<longleftrightarrow> gomap_ok m \<and> (\<forall>k r. map_of m k = Some r \<longrightarrow> wr_id r = k)"

lemma runs_ok_Nil [simp]: "runs_ok []"
  by (simp add: runs_ok_def)

lemma runs_ok_put: "runs_ok m \<Longrightarrow> wr_id r = k \<Longrightarrow> runs_ok (put k r m)"
  by (simp add: runs_ok_def gomap_ok_put)

lemma update_run_id [simp]: "wr_id (update_run p u r) = wr_id r"
  by (simp add: update_run_def Let_def split: option.splits)

lemma dispatch_simplified_runs:
  assumes "dispatch_simplified N L task repository d w = (x, d', w')"
  shows "same_config d d' \<and> (runs_ok (d_runs d) \<longrightarrow> runs_ok (d_runs d'))"
  using assms
  by (auto simp: dispatch_simplified_def Let_def runs_ok_put
      split: if_splits sum.splits prod.splits)

lemma get_run_status_runs:
  assumes "get_run_status N L p i d w = (x, d', w')"
  shows "same_config d d' \<and> (runs_ok (d_runs d) \<longrightarrow> runs_ok (d_runs d'))"
  using assms
  by (auto simp: get_run_status_def Let_def runs_ok_def gomap_ok_put
      split: if_splits sum.splits prod.splits option.splits)

lemma cancel_run_runs:
  assumes "cancel_run N i d w = (x, d', w')"
  shows "same_config d d' \<and> (runs_ok (d_runs d) \<longrightarrow> runs_ok (d_runs d'))"
  using assms
  by (auto simp: cancel_run_def runs_ok_def gomap_ok_put
      split: if_splits sum.splits prod.splits option.splits)

inductive d_step ::
    "'w net \<Rightarrow> json_lib \<Rightarrow> (string \<Rightarrow> int option) \<Rightarrow> dispatcher \<Rightarrow> dispatcher \<Rightarrow> bool"
  for N L p where
  d_dispatch: "dispatch_simplified N L task repository d w = (x, d', w') \<Longrightarrow> d_step N L p d d'"
| d_status: "get_run_status N L p i d w = (y, d', w') \<Longrightarrow> d_step N L p d d'"
| d_cancel: "cancel_run N i d w = (z, d', w') \<Longrightarrow> d_step N L p d d'"

abbreviation d_reach ::
    "'w net \<Rightarrow> json_lib \<Rightarrow> (string \<Rightarrow> int option) \<Rightarrow> dispatcher \<Rightarrow> dispatcher \<Rightarrow> bool" where
  "d_reach N L p \<equiv> reaches (d_step N L p)"

lemma d_step_runs:
  "d_step N L p d d' \<Longrightarrow> same_config d d' \<and> (runs_ok (d_runs d) \<longrightarrow> runs_ok (d_runs d'))"
  by (auto elim!: d_step.cases dest: dispatch_simplified_runs get_run_status_runs cancel_run_runs)

interpretation d_inv: preserved "d_step N L p" "\<lambda>d. same_config d0 d \<and> runs_ok (d_runs d)" for N L p d0
  by unfold_locales (auto dest: d_step_runs intro: same_config_trans)

lemma new_dispatcher_fields [simp]:
  "d_runs (new_dispatcher env) = []"
  "d_owner (new_dispatcher env) = getenv env ''GITHUB_OWNER''"
  "d_repo (new_dispatcher env) = getenv env ''GITHUB_REPOSITORY''"
  by (auto simp: new_dispatcher_def Let_def)

section \<open>The status URL\<close>

definition plain_name :: "string \<Rightarrow> bool" where
  "plain_name s \<longleftrightarrow> list_all (\<lambda>c. c \<noteq> CHR ''%'' \<and> c \<noteq> CHR ''?'' \<and> c \<noteq> CHR ''#'') s"

lemma plain_nameD:
  "plain_name s \<Longrightarrow> CHR ''%'' \<notin> set s"
  "plain_name s \<Longrightarrow> CHR ''?'' \<notin> set s"
  "plain_name s \<Longrightarrow> CHR ''#'' \<notin> set s"
  by (auto simp: plain_name_def list_all_iff)

lemma dropWhile_first: "c \<notin> set a \<Longrightarrow> dropWhile (\<lambda>x. x \<noteq> c) (a @ c # s) = c # s"
  by (induction a) auto

lemma show_digits_plain: "0 \<le> n \<Longrightarrow> plain_name (show_digits n)"
proof -
  assume "0 \<le> n"
  have "c \<noteq> CHR ''%'' \<and> c \<noteq> CHR ''?'' \<and> c \<noteq> CHR ''#''" if "c \<in> set (show_digits n)" for c
    using show_digits_digits [OF \<open>0 \<le> n\<close> that] by auto
  then show ?thesis by (simp add: plain_name_def list_all_iff)
qed

lemma show_int_plain: "plain_name (show_int i)"
  using show_digits_plain [of i] show_digits_plain [of "- i"]
  by (auto simp: show_int_def plain_name_def)

lemma run_status_url_refused:
  assumes "plain_name (d_owner d)" and "plain_name (d_repo d)"
  shows "\<not> url_parse_ok (run_status_url d run)"
proof -
  let ?n = "show_int (wr_run_id run)"
  let ?a = "''repos/'' @ d_owner d @ ''/'' @ d_repo d @ ''/actions/runs/''"
  have plain: "CHR ''%'' \<notin> set ?a" "CHR ''?'' \<notin> set ?a" "CHR ''#'' \<notin> set ?a"
    "CHR ''?'' \<notin> set ?n" "CHR ''#'' \<notin> set ?n"
    using plain_nameD [OF assms(1)] plain_nameD [OF assms(2)] plain_nameD [OF show_int_plain]
    by simp_all
  have "\<not> url_parse_ok (''https://api.github.com/'' @ (?a @ ''%!s(int='' @ ?n @ '')''))"
  proof (rule github_url_refused)
    show "prefix ''%!'' (dropWhile (\<lambda>c. c \<noteq> CHR ''%'') (?a @ ''%!s(int='' @ ?n @ '')''))"
      using dropWhile_first [OF plain(1), of "''!s(int='' @ ?n @ '')''"] by simp
  qed (use plain in simp_all)
  then show ?thesis by (simp add: run_status_url_def repo_url_def)
qed

lemma get_run_status_stale:
  assumes "plain_name (d_owner d)" and "plain_name (d_repo d)" and "map_of (d_runs d) i = Some run"
  shows "get_run_status N L p i d w = (Inr run, d, w)"
  using assms run_status_url_refused
  by (simp add: get_run_status_def new_request_def)

lemma poll_run_stale:
  assumes "clock_ok N" and "0 < interval" and "plain_name (d_owner d)" and "plain_name (d_repo d)"
    and "map_of (d_runs d) i = Some run" and "\<not> run_final run"
  shows "\<exists>w'. poll_run N L p i timeout interval d w = Some (Inr (run_timeout i), d, w')"
proof -
  let ?s = "(d, snd (time_now N w))" and ?dl = "fst (time_now N w) + timeout"
  have stale: "get_run_status N L p i d w = (Inr run, d, w)" for w
    by (rule get_run_status_stale [OF assms(3-5)])
  have "\<exists>s'. (case ?s of (d, w) \<Rightarrow> poll_run_loop N L p i interval ?dl d w) =
      Some (Inr (run_timeout i), s') \<and> fst s' = d"
    using gh.loop_never_final [OF clock_ok_beside [OF assms(1)] assms(2),
        of "\<lambda>s. fst s = d" ?s "(L, p, i)" ?dl] assms(6)
    by (auto simp: case_prod_beta stale)
  then show ?thesis by (auto simp: poll_run_def case_prod_beta)
qed

section \<open>Properties\<close>

text \<open>
  C24. The status of a tracked run is never read from GitHub: for an owner and repository whose
  names hold no \<open>%\<close>, \<open>?\<close> and \<open>#\<close>, \<open>GetRunStatus\<close> of a tracked run returns the stored run and
  sends nothing, because the URL it formats is refused by the URL parser.
\<close>

theorem run_status_never_read:
  assumes "plain_name (d_owner d)" and "plain_name (d_repo d)" and "map_of (d_runs d) i = Some run"
  shows "get_run_status N L p i d w = (Inr run, d, w) \<and> \<not> url_parse_ok (run_status_url d run)"
  using get_run_status_stale [OF assms] run_status_url_refused [OF assms(1,2)] by simp

definition sample_dispatcher :: dispatcher where
  "sample_dispatcher = \<lparr>d_token = ''token'', d_owner = ''owner'', d_repo = ''repo'',
     d_workflow = ''operational-runtime'', d_runs = []\<rparr>"

definition queued_run :: workflow_run where
  "queued_run = zero_run\<lparr>wr_id := ''7'', wr_run_id := 7, wr_task := ''fix'', wr_status := ''queued''\<rparr>"

theorem run_status_never_read_witness:
  "get_run_status (answering (\<lambda>_. ok_json ''done'')) (scan_table []) (\<lambda>_. None) ''7''
      (sample_dispatcher\<lparr>d_runs := [(''7'', queued_run)]\<rparr>) 0
     = (Inr queued_run, sample_dispatcher\<lparr>d_runs := [(''7'', queued_run)]\<rparr>, 0)"
proof -
  let ?d = "sample_dispatcher\<lparr>d_runs := [(''7'', queued_run)]\<rparr>"
  have "plain_name (d_owner ?d)" "plain_name (d_repo ?d)" "map_of (d_runs ?d) ''7'' = Some queued_run"
    by (simp_all add: sample_dispatcher_def plain_name_def)
  then show ?thesis by (blast dest: run_status_never_read)
qed

text \<open>
  C25. Waiting for a dispatched workflow always times out: for such an owner and repository, a
  positive number of intervals and a clock that behaves, once the dispatch is accepted
  \<open>DispatchAndWait\<close> returns, after its deadline and with status \<open>timeout\<close>, whatever becomes of the
  run on GitHub, and the tracked run stays queued.
\<close>

theorem dispatch_and_wait_times_out:
  assumes "clock_ok N" and "plain_name (d_owner d)" and "plain_name (d_repo d)"
    and "dispatch_payload N L \<lparr>sp_task = op_task pl, sp_repository = op_repository pl\<rparr> d w
         = (Inr run, d1, w1)"
  shows "\<exists>w2. dispatch_and_wait N L p pl timeout d w = Some (Inr (run_timeout (wr_id run)), d1, w2) \<and>
    map_of (d_runs d1) (wr_id run) = Some run \<and> wr_status run = ''queued''"
proof -
  have run: "wr_status run = ''queued''" "map_of (d_runs d1) (wr_id run) = Some run"
    using assms(4)
    by (auto simp: dispatch_payload_def dispatch_simplified_def Let_def
        split: if_splits sum.splits prod.splits)
  have "same_config d d1"
    using dispatch_simplified_runs [OF assms(4) [unfolded dispatch_payload_def]] by simp
  then have plain: "plain_name (d_owner d1)" "plain_name (d_repo d1)"
    using assms(2,3) by (simp_all add: same_config_def)
  have "\<not> run_final run" using run(1) by (simp add: run_final_def)
  with poll_run_stale [OF assms(1) _ plain run(2), of "10 * second" L p timeout w1]
  show ?thesis
    using assms(4) run by (auto simp: dispatch_and_wait_def second_def)
qed

definition sample_payload :: operational_payload where
  "sample_payload = new_payload ''fix'' ''o/r'' [] [] [] ''EXECUTION'' ''medium''"

definition accepted :: "http_request \<Rightarrow> goerr + response" where
  "accepted r = Inr \<lparr>status_code = 204, resp_body = [], read_err = None\<rparr>"

lemma accepted_dispatch:
  "dispatch_simplified (answering accepted) (scan_table []) task ''o/r'' sample_dispatcher w =
     (let run = zero_run\<lparr>wr_id := ''0'', wr_run_id := 0, wr_task := task, wr_status := ''queued'',
                  wr_created := w\<rparr>
      in (Inr run, sample_dispatcher\<lparr>d_runs := [(''0'', run)]\<rparr>, w))"
proof -
  have u: "url_parse_ok (repo_url sample_dispatcher
      (''workflows/'' @ d_workflow sample_dispatcher @ ''/dispatches''))"
    by code_simp
  have z: "show_int 0 = ''0''" by code_simp
  show ?thesis
    using u z
    by (simp add: dispatch_simplified_def new_request_def answering_def accepted_def Let_def
        unmarshal_def scan_table_def sample_dispatcher_def)
qed

theorem dispatch_and_wait_times_out_witness:
  "map_option fst (dispatch_and_wait (answering accepted) (scan_table []) (\<lambda>_. None) sample_payload
        minute sample_dispatcher 0) = Some (Inr (run_timeout ''0''))"
proof -
  let ?run = "zero_run\<lparr>wr_id := ''0'', wr_run_id := 0, wr_task := ''fix'', wr_status := ''queued'',
                  wr_created := 0\<rparr>"
  have "dispatch_payload (answering accepted) (scan_table [])
      \<lparr>sp_task = op_task sample_payload, sp_repository = op_repository sample_payload\<rparr> sample_dispatcher 0
      = (Inr ?run, sample_dispatcher\<lparr>d_runs := [(''0'', ?run)]\<rparr>, 0)"
    using accepted_dispatch [of "''fix''" 0]
    by (simp add: dispatch_payload_def sample_payload_def new_payload_def Let_def)
  from dispatch_and_wait_times_out [OF clock_ok_answering _ _ this, of "\<lambda>_. None" minute]
  show ?thesis by (auto simp: sample_dispatcher_def plain_name_def)
qed

text \<open>
  Dispatches collide: GitHub accepts a workflow dispatch with 204 and no body. With empty
  bodies, which are no JSON text, every dispatched run gets number 0 and is stored under the
  key \<open>0\<close>, so a second dispatch replaces the first run in the map.
\<close>

theorem dispatches_collide:
  assumes "\<forall>r w resp w'. http_do N r w = (Inr resp, w') \<longrightarrow> resp_body resp = []"
    and "js_parse L [] = Inl e"
    and "dispatch_simplified N L task1 repo1 d w = (Inr run1, d1, w1)"
    and "dispatch_simplified N L task2 repo2 d1 w1 = (Inr run2, d2, w2)"
  shows "wr_id run1 = ''0'' \<and> wr_id run2 = ''0'' \<and> wr_task run1 = task1 \<and> wr_task run2 = task2 \<and>
    map_of (d_runs d2) = (map_of (d_runs d))(''0'' \<mapsto> run2)"
proof -
  have z: "show_int 0 = ''0''" by code_simp
  have one: "wr_id run = ''0'' \<and> wr_task run = task \<and> map_of (d_runs d') = (map_of (d_runs d))(''0'' \<mapsto> run)"
    if "dispatch_simplified N L task repo d w = (Inr run, d', w')" for task repo d w run d' w'
    using that assms(2)
    by (auto simp: dispatch_simplified_def Let_def unmarshal_def z
        dest!: assms(1) [rule_format] split: if_splits sum.splits prod.splits)
  from one [OF assms(3)] one [OF assms(4)] show ?thesis by simp
qed

theorem dispatches_collide_witness:
  "\<exists>run1 run2 d1 d2.
     dispatch_simplified (answering accepted) (scan_table []) ''a'' ''o/r'' sample_dispatcher 0 = (Inr run1, d1, 0) \<and>
     dispatch_simplified (answering accepted) (scan_table []) ''b'' ''o/r'' d1 0 = (Inr run2, d2, 0) \<and>
     d_runs d1 = [(''0'', run1)] \<and> map_of (d_runs d2) = [''0'' \<mapsto> run2] \<and> run1 \<noteq> run2"
proof -
  let ?N = "answering accepted"
  obtain run1 d1 where one: "dispatch_simplified ?N (scan_table []) ''a'' ''o/r'' sample_dispatcher 0
      = (Inr run1, d1, 0)" "d_runs d1 = [(''0'', run1)]" "same_config sample_dispatcher d1"
    using accepted_dispatch [of "''a''" 0] by (auto simp: Let_def)
  have u: "url_parse_ok (repo_url sample_dispatcher
      (''workflows/'' @ d_workflow sample_dispatcher @ ''/dispatches''))"
    by code_simp
  have "d_token d1 = ''token''" "repo_url d1 = repo_url sample_dispatcher"
      "d_workflow d1 = d_workflow sample_dispatcher"
    using one(3) by (auto simp: same_config_def sample_dispatcher_def repo_url_def)
  with u have "fst (dispatch_simplified ?N (scan_table []) ''b'' ''o/r'' d1 0) \<noteq> Inl e \<and>
      snd (snd (dispatch_simplified ?N (scan_table []) ''b'' ''o/r'' d1 0)) = 0" for e
    by (simp add: dispatch_simplified_def new_request_def answering_def accepted_def Let_def
        unmarshal_def scan_table_def)
  then obtain run2 d2 where two:
    "dispatch_simplified ?N (scan_table []) ''b'' ''o/r'' d1 0 = (Inr run2, d2, 0)"
    by (cases "dispatch_simplified ?N (scan_table []) ''b'' ''o/r'' d1 0") (case_tac a; force)
  have empty: "\<forall>r w resp w'. http_do ?N r w = (Inr resp, w') \<longrightarrow> resp_body resp = []"
    by (auto simp: answering_def accepted_def)
  have "js_parse (scan_table []) [] = Inl ''invalid character''" by (simp add: scan_table_def)
  note c = dispatches_collide [OF empty this one(1) two]
  then have "run1 \<noteq> run2" "map_of (d_runs d2) = [''0'' \<mapsto> run2]"
    by (auto simp: sample_dispatcher_def)
  with one(1,2) two show ?thesis by blast
qed

text \<open>
  The map of runs keeps its shape: in every dispatcher reached from a new one by dispatches,
  status reads and cancellations (failed ones included), each run is stored once and under its
  own identifier, and the token, owner, repository and workflow are those of the start.
\<close>

theorem dispatcher_runs_invariant:
  assumes "d_reach N L p (new_dispatcher env) d"
  shows "gomap_ok (d_runs d) \<and> (\<forall>k r. map_of (d_runs d) k = Some r \<longrightarrow> wr_id r = k) \<and>
    d_token d = d_token (new_dispatcher env) \<and> d_owner d = d_owner (new_dispatcher env) \<and>
    d_repo d = d_repo (new_dispatcher env) \<and> d_workflow d = ''operational-runtime''"
proof -
  have "d_workflow (new_dispatcher env) = ''operational-runtime''" by (auto simp: new_dispatcher_def Let_def)
  with d_inv.ok_reaches [OF assms, of "new_dispatcher env"] show ?thesis by (simp add: same_config_def runs_ok_def)
qed

definition github_env :: environ where
  "github_env = map_of [(''GITHUB_TOKEN'', ''token''), (''GITHUB_OWNER'', ''owner''),
     (''GITHUB_REPOSITORY'', ''repo'')]"

lemma github_env_dispatcher: "new_dispatcher github_env = sample_dispatcher"
  by (simp add: new_dispatcher_def github_env_def getenv_def sample_dispatcher_def)

theorem dispatcher_runs_invariant_witness:
  "\<exists>d. d_reach (answering accepted) (scan_table []) (\<lambda>_. None) (new_dispatcher github_env) d \<and>
     gomap_ok (d_runs d) \<and> d_runs d \<noteq> []"
proof -
  obtain x d where d: "dispatch_simplified (answering accepted) (scan_table []) ''a'' ''o/r'' sample_dispatcher 0
      = (x, d, 0)" "d_runs d \<noteq> []"
    using accepted_dispatch [of "''a''" 0] by (auto simp: Let_def)
  have "d_reach (answering accepted) (scan_table []) (\<lambda>_. None) (new_dispatcher github_env) d"
    unfolding github_env_dispatcher by (intro reaches_single d_dispatch [OF d(1)])
  with dispatcher_runs_invariant [OF this] d(2) show ?thesis by blast
qed

text \<open>
  The owner is never taken out of \<open>GITHUB_REPOSITORY\<close>: a new dispatcher has the owner and
  repository of the two variables as they are, so it is configured exactly when a token,
  \<open>GITHUB_OWNER\<close> and \<open>GITHUB_REPOSITORY\<close> are all set.
\<close>

theorem new_dispatcher_configuration:
  "d_owner (new_dispatcher env) = getenv env ''GITHUB_OWNER'' \<and>
   d_repo (new_dispatcher env) = getenv env ''GITHUB_REPOSITORY'' \<and>
   (d_is_configured (new_dispatcher env) =
     ([] \<notin> {getenv env ''GITHUB_OWNER'', getenv env ''GITHUB_REPOSITORY''} \<and>
      {getenv env ''GITHUB_TOKEN'', getenv env ''GITHUB_API_TOKEN''} \<noteq> {[]}))"
  by (auto simp: d_is_configured_def) (auto simp: new_dispatcher_def Let_def split: if_splits)

end
