(* ===== verification/Engine.thy ===== *)
theory Engine
  imports Intent Dispatcher
begin

text \<open>
  \<open>internal/workflow/engine.go\<close>: the operational engine. It dispatches a task as a workflow run
  when its dispatcher is configured and answers with text otherwise; it keeps the active tasks
  in a map from the run identifier and a bounded list of completed ones.

  An operation is one step here. \<open>Execute\<close> and \<open>PollStatus\<close> hold the lock for a part only:
  Engine_Threads has the engine between its critical sections. The map \<open>cancelChans\<close> never gets an entry
  in the sources; it is kept, with its channels as identifiers.
\<close>

section \<open>State\<close>

record operational_task =
  ot_id :: string
  ot_intent :: "intent option"
  ot_repository :: string
  ot_status :: string
  ot_request_time :: int
  ot_start_time :: int
  ot_end_time :: int
  ot_result :: string
  ot_error :: string
  ot_workflow_id :: string
  ot_run_id :: string

definition zero_task :: operational_task where
  "zero_task = \<lparr>ot_id = [], ot_intent = None, ot_repository = [], ot_status = [],
     ot_request_time = 0, ot_start_time = 0, ot_end_time = 0, ot_result = [], ot_error = [],
     ot_workflow_id = [], ot_run_id = []\<rparr>"

record engine =
  en_dispatcher :: "dispatcher option"
  en_queue :: "operational_task list"
  en_active :: "(string, operational_task) gomap"
  en_completed :: "operational_task list"
  en_cancel_chans :: "(string, nat) gomap"

definition new_engine :: "environ \<Rightarrow> engine" where
  "new_engine env = \<lparr>en_dispatcher = Some (new_dispatcher env), en_queue = [], en_active = [],
     en_completed = [], en_cancel_chans = []\<rparr>"

definition en_is_configured :: "engine \<Rightarrow> bool" where
  "en_is_configured e \<longleftrightarrow>
     (case en_dispatcher e of None \<Rightarrow> False | Some d \<Rightarrow> d_is_configured d)"

section \<open>Executing\<close>

definition execute_investigate :: "string \<Rightarrow> string \<Rightarrow> string" where
  "execute_investigate task repo =
     ''=== Investigation ==='' @ nl @ nl @ ''Task: '' @ task @ nl @ ''Repository: '' @ repo @ nl @ nl @
     lines [''Analyzing current state...'', [], ''Repository Status:'', ''- Checking structure...'',
            ''- Analyzing dependencies...'', ''- Validating operational context...'', [],
            ''Investigation complete.''] @
     ''Would you like me to execute fixes?''"

text \<open>Both loops delete what they iterate over; the statuses they set are not seen again.\<close>

definition en_handle_blocking :: "engine \<Rightarrow> string \<times> engine" where
  "en_handle_blocking e =
     (let cancelled = length (en_cancel_chans e) + length (en_active e);
          e = e\<lparr>en_cancel_chans := [], en_active := []\<rparr>
      in (if 0 < cancelled
          then ''Execution cancelled. Stopped '' @ show_nat cancelled @ '' active task(s).''
          else ''No active executions to cancel.'', e))"

definition intent_name :: "intent option \<Rightarrow> string" where
  "intent_name iopt =
     (case iopt of None \<Rightarrow> ''execution'' | Some it \<Rightarrow> intent_type_string (it_type it))"

definition execute_locally ::
    "string \<Rightarrow> intent option \<Rightarrow> string \<Rightarrow> engine \<Rightarrow> string \<times> engine" where
  "execute_locally task iopt repo e =
     (if (case iopt of Some it \<Rightarrow> it_type it = IntentInvestigation | None \<Rightarrow> False)
      then (execute_investigate task repo, e)
      else if (case iopt of Some it \<Rightarrow> it_type it = IntentBlocking | None \<Rightarrow> False)
      then en_handle_blocking e
      else (''Analyzing operational request: '' @ repo @ nl @ ''Intent: '' @ intent_name iopt @ nl @ nl @
            ''This would execute: '' @ task, e))"

definition execution_payload :: "string \<Rightarrow> intent option \<Rightarrow> string \<Rightarrow> operational_payload" where
  "execution_payload task iopt repo =
     new_payload task repo [] [] [] (intent_name iopt)
       (case iopt of None \<Rightarrow> ''medium''
        | Some it \<Rightarrow> if urgency it = [] then ''medium'' else urgency it)"

definition en_execute ::
    "'w net \<Rightarrow> json_lib \<Rightarrow> string \<Rightarrow> intent option \<Rightarrow> string \<Rightarrow> engine \<Rightarrow> 'w \<Rightarrow>
       string \<times> engine \<times> 'w" where
  "en_execute N L task iopt repo e w =
     (case en_dispatcher e of
        None \<Rightarrow> (case execute_locally task iopt repo e of (s, e) \<Rightarrow> (s, e, w))
      | Some d \<Rightarrow>
          if \<not> d_is_configured d
          then (case execute_locally task iopt repo e of (s, e) \<Rightarrow> (s, e, w))
          else if (case iopt of Some it \<Rightarrow> \<not> should_execute it | None \<Rightarrow> False)
          then
            (if it_type (the iopt) = IntentInvestigation then (execute_investigate task repo, e, w)
             else if it_type (the iopt) = IntentBlocking
             then (case en_handle_blocking e of (s, e) \<Rightarrow> (s, e, w))
             else (''Operation not required for intent: '' @ intent_name iopt, e, w))
          else
            (let pl = execution_payload task iopt repo
             in case dispatch_payload N L \<lparr>sp_task = op_task pl, sp_repository = op_repository pl\<rparr> d w of
                  (Inl err, d, w) \<Rightarrow>
                    (case execute_locally task iopt repo (e\<lparr>en_dispatcher := Some d\<rparr>) of
                       (s, e) \<Rightarrow> (s, e, w))
                | (Inr run, d, w) \<Rightarrow>
                    (let (now, w) = time_now N w;
                         t = zero_task\<lparr>ot_id := wr_id run, ot_intent := iopt, ot_repository := repo,
                               ot_status := ''dispatched'', ot_request_time := now,
                               ot_workflow_id := wr_id run, ot_run_id := show_int (wr_run_id run)\<rparr>
                     in (''Operational workflow dispatched.'' @ nl @ ''Run ID: '' @ ot_run_id t @ nl @
                         ''Monitoring execution...'',
                         e\<lparr>en_dispatcher := Some d, en_active := put (ot_id t) t (en_active e)\<rparr>, w))))"

section \<open>Following and cancelling\<close>

definition poll_status ::
    "'w net \<Rightarrow> json_lib \<Rightarrow> (string \<Rightarrow> int option) \<Rightarrow> string \<Rightarrow> engine \<Rightarrow> 'w \<Rightarrow>
       string \<times> engine \<times> 'w" where
  "poll_status N L rfc3339 task_id e w =
     (case map_of (en_active e) task_id of
        None \<Rightarrow>
          (case List.find (\<lambda>t. ot_id t = task_id) (en_completed e) of
             Some t \<Rightarrow> (ot_status t, e, w)
           | None \<Rightarrow> (''not_found'', e, w))
      | Some t \<Rightarrow>
          (case en_dispatcher e of
             None \<Rightarrow> (ot_status t, e, w)
           | Some d \<Rightarrow>
               (case get_run_status N L rfc3339 (ot_run_id t) d w of
                  (Inl err, d, w) \<Rightarrow> (ot_status t, e\<lparr>en_dispatcher := Some d\<rparr>, w)
                | (Inr run, d, w) \<Rightarrow>
                    (let t = t\<lparr>ot_status := wr_status run\<rparr>;
                         (t, w) = (if wr_status run = ''completed'' \<or> wr_status run = ''failed''
                                   then (case time_now N w of (now, w) \<Rightarrow> (t\<lparr>ot_end_time := now\<rparr>, w))
                                   else (t, w))
                     in (wr_status run,
                         e\<lparr>en_dispatcher := Some d, en_active := put task_id t (en_active e)\<rparr>, w)))))"

text \<open>The error of \<open>CancelRun\<close> is dropped, and the task stays in the map.\<close>

definition en_cancel :: "'w net \<Rightarrow> string \<Rightarrow> engine \<Rightarrow> 'w \<Rightarrow> goerr option \<times> engine \<times> 'w" where
  "en_cancel N task_id e w =
     (case map_of (en_active e) task_id of
        None \<Rightarrow> (Some (''task not found: '' @ task_id), e, w)
      | Some t \<Rightarrow>
          (let e = e\<lparr>en_active := put task_id (t\<lparr>ot_status := ''cancelled''\<rparr>) (en_active e)\<rparr>
           in case en_dispatcher e of
                None \<Rightarrow> (None, e, w)
              | Some d \<Rightarrow>
                  if ot_run_id t = [] then (None, e, w)
                  else (case cancel_run N (ot_run_id t) d w of
                          (_, d, w) \<Rightarrow> (None, e\<lparr>en_dispatcher := Some d\<rparr>, w))))"

definition en_get_status :: "engine \<Rightarrow> string" where
  "en_get_status e =
     (if (case en_dispatcher e of None \<Rightarrow> False | Some d \<Rightarrow> \<not> d_is_configured d)
      then ''workflow_not_configured''
      else if 0 < length (en_active e)
      then ''active: '' @ show_nat (length (en_active e)) @ '', queued: '' @ show_nat (length (en_queue e))
      else if 0 < length (en_queue e) then ''queued: '' @ show_nat (length (en_queue e))
      else ''ready'')"

section \<open>History\<close>

definition en_add_to_history :: "operational_task \<Rightarrow> engine \<Rightarrow> engine" where
  "en_add_to_history t e = e\<lparr>en_completed := keep_last 50 (en_completed e @ [t])\<rparr>"

definition en_get_history :: "int \<Rightarrow> engine \<Rightarrow> operational_task list outcome" where
  "en_get_history count e = recent (en_completed e) count"

interpretation en_log: bounded_log en_add_to_history en_completed 50
  by unfold_locales (simp_all add: en_add_to_history_def)

section \<open>Handlers\<close>

definition en_handle_planning :: string where
  "en_handle_planning =
     ''=== Planning ==='' @ nl @ nl @ ''Analyzing path forward...'' @ nl @ nl @
     lines [''1. Investigate current state'', ''2. Identify required changes'', ''3. Apply fixes'',
            ''4. Validate results'', []] @
     ''Which step should I proceed with?''"

definition en_handle_prioritization :: string where
  "en_handle_prioritization =
     ''=== Prioritization ==='' @ nl @ nl @ ''Current priorities:'' @ nl @ nl @
     lines [''1. Execution readiness'', ''2. Repository health'', ''3. Build validation'', []] @
     ''Would you like me to address any of these?''"

definition en_handle_clarification :: "engine \<Rightarrow> string" where
  "en_handle_clarification e =
     ''I want to make sure I understand.'' @ nl @ nl @ ''Current status: '' @ en_get_status e @ nl @ nl @
     lines [''Would you like me to:'', ''- Investigate the current state?'',
            ''- Execute operational fixes?'', ''- Plan next steps?''] @
     ''- Stop any running execution?''"

definition en_handle_acknowledgment :: "engine \<Rightarrow> string outcome" where
  "en_handle_acknowledgment e =
     obind (en_get_history 1 e) (\<lambda>history.
       Ret (if history \<noteq> []
            then ''Understood. Last operation: '' @ ot_status (last history) @
                 '' ('' @ ot_id (last history) @ '')'' @ nl @ nl @ ''What should I do next?''
            else ''Understood. What would you like me to do next?''))"

definition handle_intent ::
    "'w net \<Rightarrow> json_lib \<Rightarrow> string \<Rightarrow> intent option \<Rightarrow> string \<Rightarrow> engine \<Rightarrow> 'w \<Rightarrow>
       string outcome \<times> engine \<times> 'w" where
  "handle_intent N L msg iopt repo e w =
     (case iopt of
        None \<Rightarrow> (case execute_locally msg None repo e of (s, e) \<Rightarrow> (Ret s, e, w))
      | Some it \<Rightarrow>
          (case it_type it of
             IntentBlocking \<Rightarrow> (case en_handle_blocking e of (s, e) \<Rightarrow> (Ret s, e, w))
           | IntentInvestigation \<Rightarrow> (Ret (execute_investigate msg repo), e, w)
           | IntentExecution \<Rightarrow>
               (case en_execute N L msg (Some it) repo e w of (s, e, w) \<Rightarrow> (Ret s, e, w))
           | IntentPlanning \<Rightarrow> (Ret en_handle_planning, e, w)
           | IntentPrioritization \<Rightarrow> (Ret en_handle_prioritization, e, w)
           | IntentAuditing \<Rightarrow> (Ret (execute_investigate msg repo), e, w)
           | IntentClarification \<Rightarrow> (Ret (en_handle_clarification e), e, w)
           | IntentAcknowledgment \<Rightarrow> (en_handle_acknowledgment e, e, w)
           | IntentUnknown \<Rightarrow>
               (Ret (''I understand what you'' @ squote @
                     ''re asking. Would you like me to investigate or execute?''), e, w)))"

definition format_engine_status :: "engine \<Rightarrow> string outcome" where
  "format_engine_status e =
     obind (en_get_history 3 e) (\<lambda>history.
       Ret (''=== Operational Engine ==='' @ nl @ ''Status: '' @ en_get_status e @
            (if en_is_configured e then nl @ ''Workflow: configured''
             else nl @ ''Workflow: local execution'') @
            (if history \<noteq> []
             then nl @ ''Recent:'' @
               concat (map (\<lambda>t. nl @ ''  - '' @ ot_status t @ '': '' @ ot_id t) history)
             else [])))"

section \<open>The tasks of an engine\<close>

text \<open>Every active task is stored once, under its own identifier; no cancel channel exists.\<close>

definition engine_ok :: "engine \<Rightarrow> bool" where
  "engine_ok e \<longleftrightarrow>
     gomap_ok (en_active e) \<and> (\<forall>k t. map_of (en_active e) k = Some t \<longrightarrow> ot_id t = k) \<and>
     en_cancel_chans e = [] \<and> length (en_completed e) \<le> 50"

lemma engine_ok_put:
  "engine_ok e \<Longrightarrow> ot_id t = k \<Longrightarrow> engine_ok (e\<lparr>en_active := put k t (en_active e)\<rparr>)"
  by (simp add: engine_ok_def gomap_ok_put)

lemma engine_ok_dispatcher [simp]: "engine_ok (e\<lparr>en_dispatcher := d\<rparr>) = engine_ok e"
  by (simp add: engine_ok_def)

lemma en_handle_blocking_ok: "engine_ok e \<Longrightarrow> engine_ok (snd (en_handle_blocking e))"
  by (simp add: en_handle_blocking_def engine_ok_def Let_def)

lemma execute_locally_ok: "engine_ok e \<Longrightarrow> engine_ok (snd (execute_locally t i r e))"
  by (simp add: execute_locally_def en_handle_blocking_ok)

lemma en_execute_ok:
  assumes "engine_ok e" and "en_execute N L task iopt repo e w = (s, e', w')"
  shows "engine_ok e'"
  using assms(2) execute_locally_ok [of e task iopt repo] en_handle_blocking_ok [OF assms(1)]
    execute_locally_ok [of "e\<lparr>en_dispatcher := d\<rparr>" task iopt repo for d] assms(1)
  by (auto simp: en_execute_def Let_def engine_ok_put split: option.splits if_splits prod.splits sum.splits)
    (metis engine_ok_dispatcher snd_conv, simp add: engine_ok_def gomap_ok_put)+

lemma poll_status_ok:
  assumes "engine_ok e" and "poll_status N L p i e w = (s, e', w')"
  shows "engine_ok e'"
  using assms
  by (auto simp: poll_status_def Let_def engine_ok_def gomap_ok_put
      split: option.splits if_splits prod.splits sum.splits)

lemma en_cancel_ok:
  assumes "engine_ok e" and "en_cancel N i e w = (x, e', w')"
  shows "engine_ok e'"
  using assms
  by (auto simp: en_cancel_def Let_def engine_ok_def gomap_ok_put
      split: option.splits if_splits prod.splits)

lemma add_to_history_ok: "engine_ok e \<Longrightarrow> engine_ok (en_add_to_history t e)"
  using en_log.length_push [of t e] by (simp add: engine_ok_def en_add_to_history_def)

lemma handle_intent_ok:
  assumes "engine_ok e" and "handle_intent N L msg iopt repo e w = (x, e', w')"
  shows "engine_ok e'"
proof (cases "\<exists>it. iopt = Some it \<and> it_type it = IntentExecution")
  case True
  with assms(2) obtain s where "en_execute N L msg iopt repo e w = (s, e', w')"
    by (auto simp: handle_intent_def split: prod.splits)
  then show ?thesis by (rule en_execute_ok [OF assms(1)])
next
  case False
  with assms en_handle_blocking_ok [OF assms(1)] execute_locally_ok [OF assms(1), of msg None repo]
  show ?thesis
    by (auto simp: handle_intent_def split: option.splits intent_type.splits prod.splits)
qed

inductive en_step ::
    "'w net \<Rightarrow> json_lib \<Rightarrow> (string \<Rightarrow> int option) \<Rightarrow> engine \<Rightarrow> engine \<Rightarrow> bool"
  for N L p where
  en_intent: "handle_intent N L msg iopt repo e w = (x, e', w') \<Longrightarrow> en_step N L p e e'"
| en_poll: "poll_status N L p i e w = (s, e', w') \<Longrightarrow> en_step N L p e e'"
| en_cancelling: "en_cancel N i e w = (y, e', w') \<Longrightarrow> en_step N L p e e'"
| en_history: "en_step N L p e (en_add_to_history t e)"

abbreviation en_reach ::
    "'w net \<Rightarrow> json_lib \<Rightarrow> (string \<Rightarrow> int option) \<Rightarrow> engine \<Rightarrow> engine \<Rightarrow> bool" where
  "en_reach N L p \<equiv> reaches (en_step N L p)"

interpretation en_inv: preserved "en_step N L p" engine_ok for N L p
  by unfold_locales
    (auto elim!: en_step.cases intro: handle_intent_ok poll_status_ok en_cancel_ok add_to_history_ok)

lemma new_engine_ok: "engine_ok (new_engine env)"
  by (simp add: new_engine_def engine_ok_def)

lemma dispatch_tracked:
  assumes "dispatch_payload N L pl d w = (Inr run, d1, w1)"
  shows "map_of (d_runs d1) (wr_id run) = Some run \<and> wr_status run = ''queued'' \<and>
    wr_id run = show_int (wr_run_id run) \<and> same_config d d1"
  using assms dispatch_simplified_runs [OF assms [unfolded dispatch_payload_def]]
  by (auto simp: dispatch_payload_def dispatch_simplified_def Let_def
      split: if_splits sum.splits prod.splits)

lemma poll_status_tracked:
  assumes "map_of (en_active e) i = Some t" and "en_dispatcher e = Some d"
    and "plain_name (d_owner d)" and "plain_name (d_repo d)"
    and "map_of (d_runs d) (ot_run_id t) = Some run"
  shows "fst (poll_status N L p i e w) = wr_status run"
  using assms(1,2) get_run_status_stale [OF assms(3-5), of N L p w]
  by (auto simp: poll_status_def Let_def split: prod.splits)

section \<open>Properties\<close>

text \<open>
  The engine keeps its books: in every engine reached from a new one by intents, status
  polls, cancellations and history entries, each active task is stored once and under its own
  identifier, the completed list holds at most 50 tasks, and no cancel channel exists, so the
  count a blocking intent reports is the number of active tasks.
\<close>

theorem engine_invariant:
  assumes "en_reach N L p (new_engine env) e"
  shows "gomap_ok (en_active e) \<and> (\<forall>k t. map_of (en_active e) k = Some t \<longrightarrow> ot_id t = k) \<and>
    length (en_completed e) \<le> 50 \<and> en_cancel_chans e = [] \<and>
    en_active (snd (en_handle_blocking e)) = [] \<and>
    (en_active e \<noteq> [] \<longrightarrow> fst (en_handle_blocking e) =
       ''Execution cancelled. Stopped '' @ show_nat (length (en_active e)) @ '' active task(s).'')"
  using en_inv.ok_reaches [OF assms new_engine_ok]
  by (auto simp: engine_ok_def en_handle_blocking_def Let_def)

theorem engine_invariant_witness:
  "en_reach (answering accepted) (scan_table []) (\<lambda>_. None) (new_engine github_env)
      (en_add_to_history zero_task (new_engine github_env)) \<and>
   en_cancel_chans (en_add_to_history zero_task (new_engine github_env)) = []"
proof
  show "en_reach (answering accepted) (scan_table []) (\<lambda>_. None) (new_engine github_env)
      (en_add_to_history zero_task (new_engine github_env))"
    by (intro reaches_single en_history)
  then show "en_cancel_chans (en_add_to_history zero_task (new_engine github_env)) = []"
    using engine_invariant by blast
qed

text \<open>
  A dispatched execution is visible: when the dispatcher is configured, the intent asks for
  execution and GitHub accepts the dispatch, the answer names the run, the task is active under
  the run's identifier, the dispatcher tracks the run, and polling the task says \<open>queued\<close>, now
  and (for an owner and repository with plain names) at any later time.
\<close>

theorem execute_then_poll:
  assumes "en_dispatcher e = Some d" and "d_is_configured d" and "should_execute it"
    and "plain_name (d_owner d)" and "plain_name (d_repo d)"
    and "dispatch_payload N L \<lparr>sp_task = task, sp_repository = repo\<rparr> d w = (Inr run, d1, w1)"
    and "en_execute N L task (Some it) repo e w = (s, e1, w2)"
  shows "s = ''Operational workflow dispatched.'' @ nl @ ''Run ID: '' @ wr_id run @ nl @
      ''Monitoring execution...'' \<and>
    (\<exists>t. map_of (en_active e1) (wr_id run) = Some t \<and> ot_status t = ''dispatched'') \<and>
    en_dispatcher e1 = Some d1 \<and> fst (poll_status N L p (wr_id run) e1 w3) = ''queued''"
proof -
  note t = dispatch_tracked [OF assms(6)]
  obtain tk where e1: "map_of (en_active e1) (wr_id run) = Some tk" "ot_status tk = ''dispatched''"
      "ot_run_id tk = wr_id run" "en_dispatcher e1 = Some d1"
    and s: "s = ''Operational workflow dispatched.'' @ nl @ ''Run ID: '' @ wr_id run @ nl @
      ''Monitoring execution...''"
    using assms(1-3,6,7) t
    by (auto simp: en_execute_def Let_def execution_payload_def new_payload_def split: prod.splits)
  have "plain_name (d_owner d1)" "plain_name (d_repo d1)"
    using t assms(4,5) by (simp_all add: same_config_def)
  moreover have "map_of (d_runs d1) (ot_run_id tk) = Some run" unfolding e1(3) using t by blast
  ultimately have "fst (poll_status N L p (wr_id run) e1 w3) = wr_status run"
    by (rule poll_status_tracked [OF e1(1,4)])
  moreover have "wr_status run = ''queued''" using t by blast
  ultimately show ?thesis using e1 s by simp
qed

definition run_intent :: intent where
  "run_intent = zero_intent\<lparr>it_type := IntentExecution, should_execute := True\<rparr>"

theorem execute_then_poll_witness:
  "\<exists>e1. fst (snd (en_execute (answering accepted) (scan_table []) ''fix'' (Some run_intent) ''o/r''
       (new_engine github_env) 0)) = e1 \<and>
     fst (poll_status (answering accepted) (scan_table []) (\<lambda>_. None) ''0'' e1 9) = ''queued''"
proof -
  let ?N = "answering accepted"
  let ?e = "new_engine github_env"
  let ?run = "zero_run\<lparr>wr_id := ''0'', wr_run_id := 0, wr_task := ''fix'', wr_status := ''queued'',
                  wr_created := 0\<rparr>"
  have d: "en_dispatcher ?e = Some sample_dispatcher"
    by (simp add: new_engine_def github_env_dispatcher)
  have c: "d_is_configured sample_dispatcher" "plain_name (d_owner sample_dispatcher)"
      "plain_name (d_repo sample_dispatcher)"
    by (simp_all add: sample_dispatcher_def d_is_configured_def plain_name_def)
  have x: "should_execute run_intent" by (simp add: run_intent_def)
  have p: "dispatch_payload ?N (scan_table []) \<lparr>sp_task = ''fix'', sp_repository = ''o/r''\<rparr>
      sample_dispatcher 0 = (Inr ?run, sample_dispatcher\<lparr>d_runs := [(''0'', ?run)]\<rparr>, 0)"
    using accepted_dispatch [of "''fix''" 0] by (simp add: dispatch_payload_def Let_def)
  obtain s e1 w2 where e1: "en_execute ?N (scan_table []) ''fix'' (Some run_intent) ''o/r'' ?e 0 = (s, e1, w2)"
    by (metis prod_cases3)
  from execute_then_poll [OF d c(1) x c(2,3) p e1, of "\<lambda>_. None" 9] e1 show ?thesis by simp
qed

text \<open>
  C37. Cancelling does not remove: \<open>Cancel\<close> of an active task reports success whatever the request
  to GitHub did, the number of active tasks stays, and with it the engine's status line. When
  the request failed, the tracked run is still the old one, and the next poll of the cancelled
  task gives the run's status back.
\<close>

theorem cancel_keeps_task:
  assumes "map_of (en_active e) i = Some t" and "en_dispatcher e = Some d"
    and "plain_name (d_owner d)" and "plain_name (d_repo d)"
    and "ot_run_id t \<noteq> []" and "map_of (d_runs d) (ot_run_id t) = Some run"
    and "cancel_run N (ot_run_id t) d w = (c, d1, w1)"
  shows "\<exists>e1. en_cancel N i e w = (None, e1, w1) \<and>
    length (en_active e1) = length (en_active e) \<and> en_get_status e1 = en_get_status e \<and>
    (if c = None then fst (poll_status N L p i e1 w2) = ''cancelled''
     else fst (poll_status N L p i e1 w2) = wr_status run)"
proof -
  let ?t = "t\<lparr>ot_status := ''cancelled''\<rparr>"
  let ?e1 = "e\<lparr>en_active := put i ?t (en_active e), en_dispatcher := Some d1\<rparr>"
  have e1: "en_cancel N i e w = (None, ?e1, w1)"
    using assms(1,2,5,7) by (simp add: en_cancel_def Let_def)
  have cfg: "same_config d d1" using cancel_run_runs [OF assms(7)] by simp
  have "i \<in> fst ` set (en_active e)" using assms(1) by (force dest: map_of_SomeD)
  then have len: "length (en_active ?e1) = length (en_active e)" by (simp add: length_put)
  have "d_is_configured d1 = d_is_configured d" using cfg by (simp add: d_is_configured_def same_config_def)
  with len assms(2) have st: "en_get_status ?e1 = en_get_status e" by (simp add: en_get_status_def)
  have run: "map_of (d_runs d1) (ot_run_id t) =
      Some (if c = None then run\<lparr>wr_status := ''cancelled''\<rparr> else run)"
    using assms(6,7)
    by (auto simp: cancel_run_def split: if_splits sum.splits prod.splits)
  have "fst (poll_status N L p i ?e1 w2) =
      wr_status (if c = None then run\<lparr>wr_status := ''cancelled''\<rparr> else run)"
    by (rule poll_status_tracked [of _ _ ?t d1])
      (use run cfg assms(3,4) in \<open>simp_all add: same_config_def\<close>)
  with e1 len st show ?thesis by (intro exI [of _ ?e1]) simp
qed

definition tracking_engine :: engine where
  "tracking_engine = \<lparr>en_dispatcher = Some (sample_dispatcher\<lparr>d_runs := [(''7'', queued_run)]\<rparr>),
     en_queue = [], en_active = [(''7'', zero_task\<lparr>ot_id := ''7'', ot_run_id := ''7''\<rparr>)],
     en_completed = [], en_cancel_chans = []\<rparr>"

theorem cancel_keeps_task_witness:
  "\<exists>e1. en_cancel (answering (\<lambda>_. Inl ''refused'')) ''7'' tracking_engine 0 = (None, e1, 0) \<and>
     en_get_status e1 = en_get_status tracking_engine \<and>
     fst (poll_status (answering (\<lambda>_. Inl ''refused'')) (scan_table []) (\<lambda>_. None) ''7'' e1 0) = ''queued''"
proof -
  let ?N = "answering (\<lambda>_. Inl ''refused'')"
  let ?d = "sample_dispatcher\<lparr>d_runs := [(''7'', queued_run)]\<rparr>"
  let ?t = "zero_task\<lparr>ot_id := ''7'', ot_run_id := ''7''\<rparr>"
  have e: "map_of (en_active tracking_engine) ''7'' = Some ?t" "en_dispatcher tracking_engine = Some ?d"
    by (simp_all add: tracking_engine_def)
  have d: "plain_name (d_owner ?d)" "plain_name (d_repo ?d)" "ot_run_id ?t \<noteq> []"
      "map_of (d_runs ?d) (ot_run_id ?t) = Some queued_run"
    by (simp_all add: sample_dispatcher_def plain_name_def)
  have "url_parse_ok (repo_url ?d (''runs/'' @ ''7'' @ ''/cancel''))" by code_simp
  then have c: "cancel_run ?N (ot_run_id ?t) ?d 0 = (Some ''refused'', ?d, 0)"
    by (simp add: cancel_run_def new_request_def answering_def sample_dispatcher_def)
  from cancel_keeps_task [OF e d c, of "scan_table []" "\<lambda>_. None" 0] show ?thesis
    by (auto simp: queued_run_def)
qed

text \<open>
  Handling an intent never panics and never answers with nothing; only an execution intent
  reaches the network, and only execution and blocking intents (and a call without an intent,
  never) change the engine.
\<close>

theorem handle_intent_total:
  "(\<exists>s. fst (handle_intent N L msg iopt repo e w) = Ret s \<and> s \<noteq> []) \<and>
   (snd (snd (handle_intent N L msg iopt repo e w)) = w \<or>
      map_option it_type iopt = Some IntentExecution) \<and>
   (fst (snd (handle_intent N L msg iopt repo e w)) = e \<or>
      map_option it_type iopt \<in> {Some IntentExecution, Some IntentBlocking})"
proof -
  have inv: "execute_investigate a b \<noteq> []" for a b by (simp add: execute_investigate_def)
  have blk: "fst (en_handle_blocking e) \<noteq> []" for e by (simp add: en_handle_blocking_def Let_def)
  have loc: "fst (execute_locally a i r e) \<noteq> []" for a i r e
    by (simp add: execute_locally_def inv blk)
  have loc_e: "snd (execute_locally a None r e) = e" for a r by (simp add: execute_locally_def)
  have exe: "fst (en_execute N L msg iopt repo e w) \<noteq> []"
    using loc inv blk
    by (auto simp: en_execute_def Let_def split: option.splits prod.splits sum.splits)
      (metis fst_conv)+
  have ack: "\<exists>s. en_handle_acknowledgment e = Ret s \<and> s \<noteq> []"
    by (simp add: en_handle_acknowledgment_def en_get_history_def recent_nonneg)
  show ?thesis
  proof (cases iopt)
    case None
    then show ?thesis
      using loc [of msg None repo e] loc_e [of msg repo] by (simp add: handle_intent_def case_prod_beta)
  next
    case (Some it)
    then show ?thesis
      using inv blk exe ack
      by (cases "it_type it")
        (simp_all add: handle_intent_def case_prod_beta en_handle_planning_def
          en_handle_prioritization_def en_handle_clarification_def)
  qed
qed

end
