(* ===== verification/Registry.thy ===== *)
theory Registry
  imports Engine
begin

text \<open>
  What the engine of Engine.thy promises its callers, without statuses, times and run objects: a
  registry of the runs that were dispatched and not stopped, each with its intent and repository,
  and the log of completed tasks. The registry is a machine over calls and answers: what a call may
  be answered and what becomes of the registry then is fixed by guards, so the record of calls and
  answers determines the registry. The locale \<open>simulation\<close> is interpreted on the engine with such a
  record beside it.
\<close>

section \<open>Calls and answers\<close>

datatype en_call =
    AskIntent "intent option" string
  | AskExecute "intent option" string
  | AskPoll string
  | AskCancel string
  | AskLog operational_task
  | AskStatus

datatype en_answer = Says string | Verdict "goerr option" | Logged

type_synonym en_record = "(en_call \<times> en_answer) list"

text \<open>The text a dispatched execution is answered with.\<close>

definition dispatched_text :: "string \<Rightarrow> string" where
  "dispatched_text i = ''Operational workflow dispatched.'' @ nl @ ''Run ID: '' @ i @ nl @
     ''Monitoring execution...''"

lemma dispatched_text_inj: "dispatched_text i = dispatched_text j \<Longrightarrow> i = j"
  by (simp add: dispatched_text_def)

text \<open>The call gives an intent or asks for its execution.\<close>

fun asks_text :: "en_call \<Rightarrow> bool" where
  "asks_text (AskIntent iopt repo) = True"
| "asks_text (AskExecute iopt repo) = True"
| "asks_text c = False"

text \<open>The call has a blocking intent.\<close>

fun asks_stop :: "en_call \<Rightarrow> bool" where
  "asks_stop (AskIntent (Some it) repo) = (it_type it = IntentBlocking)"
| "asks_stop (AskExecute (Some it) repo) = (it_type it = IntentBlocking)"
| "asks_stop c = False"

text \<open>
  What the call asks to be run: an intent is run if it is an execution to be executed, \<open>Execute\<close>
  runs whatever is not an intent not to be executed.
\<close>

fun asks_run :: "en_call \<Rightarrow> (intent option \<times> string) option" where
  "asks_run (AskIntent (Some it) repo) =
     (if it_type it = IntentExecution \<and> should_execute it then Some (Some it, repo) else None)"
| "asks_run (AskExecute None repo) = Some (None, repo)"
| "asks_run (AskExecute (Some it) repo) = (if should_execute it then Some (Some it, repo) else None)"
| "asks_run c = None"

section \<open>The registry\<close>

record registry =
  rg_active :: "(string, intent option \<times> string) map"
  rg_done :: "operational_task list"

definition empty_registry :: registry where
  "empty_registry = \<lparr>rg_active = Map.empty, rg_done = []\<rparr>"

text \<open>The status line, from the number of tracked runs.\<close>

definition rg_status :: "bool \<Rightarrow> registry \<Rightarrow> string" where
  "rg_status conf g =
     (if \<not> conf then ''workflow_not_configured''
      else if dom (rg_active g) = {} then ''ready''
      else ''active: '' @ show_nat (card (dom (rg_active g))) @ '', queued: 0'')"

text \<open>The answer to a stop: how many runs were tracked.\<close>

definition stop_text :: "registry \<Rightarrow> string" where
  "stop_text g =
     (if dom (rg_active g) = {} then ''No active executions to cancel.''
      else ''Execution cancelled. Stopped '' @ show_nat (card (dom (rg_active g))) @ '' active task(s).'')"

lemma stop_not_dispatched [simp]: "stop_text g \<noteq> dispatched_text i" "dispatched_text i \<noteq> stop_text g"
  by (simp_all add: stop_text_def dispatched_text_def)

text \<open>
  One call, its answer and the registry afterwards; \<open>conf\<close> says whether dispatching is configured.
  Whether a dispatch succeeds is decided by GitHub: the answer tells.
\<close>

inductive rg_serves :: "bool \<Rightarrow> en_call \<Rightarrow> en_answer \<Rightarrow> registry \<Rightarrow> registry \<Rightarrow> bool" for conf where
  rg_track: "conf \<Longrightarrow> asks_run c = Some entry \<Longrightarrow>
    rg_serves conf c (Says (dispatched_text i)) g (g\<lparr>rg_active := (rg_active g)(i \<mapsto> entry)\<rparr>)"
| rg_stop: "asks_stop c \<Longrightarrow> rg_serves conf c (Says (stop_text g)) g (g\<lparr>rg_active := Map.empty\<rparr>)"
| rg_text: "asks_text c \<Longrightarrow> \<not> asks_stop c \<Longrightarrow> (\<And>i. x \<noteq> dispatched_text i) \<Longrightarrow>
    rg_serves conf c (Says x) g g"
| rg_poll: "i \<in> dom (rg_active g) \<Longrightarrow> rg_serves conf (AskPoll i) (Says x) g g"
| rg_poll_done: "i \<notin> dom (rg_active g) \<Longrightarrow>
    x = (case List.find (\<lambda>t. ot_id t = i) (rg_done g) of Some t \<Rightarrow> ot_status t | None \<Rightarrow> ''not_found'') \<Longrightarrow>
    rg_serves conf (AskPoll i) (Says x) g g"
| rg_cancel: "rg_serves conf (AskCancel i)
    (Verdict (if i \<in> dom (rg_active g) then None else Some (''task not found: '' @ i))) g g"
| rg_log: "rg_serves conf (AskLog t) Logged g (g\<lparr>rg_done := keep_last 50 (rg_done g @ [t])\<rparr>)"
| rg_asked: "rg_serves conf AskStatus (Says (rg_status conf g)) g g"

inductive_cases rg_servesE: "rg_serves conf c x g g'"

lemma rg_serves_determined:
  "rg_serves conf c x g g1 \<Longrightarrow> rg_serves conf c x g g2 \<Longrightarrow> g1 = g2"
  by (erule rg_servesE; erule rg_servesE)
    (auto dest: dispatched_text_inj)

text \<open>The machine with its record.\<close>

inductive rg_step :: "bool \<Rightarrow> en_record \<times> registry \<Rightarrow> en_record \<times> registry \<Rightarrow> bool" for conf where
  rg_does: "rg_serves conf c x g g' \<Longrightarrow> rg_step conf (h, g) (h @ [(c, x)], g')"

inductive_cases rg_stepE: "rg_step conf q q'"

text \<open>The record determines the registry.\<close>

lemma rg_determined:
  assumes "reaches (rg_step conf) ([], g0) (h, g)" and "reaches (rg_step conf) ([], g0) (h, g')"
  shows "g' = g"
proof -
  have "g' = snd q" if "reaches (rg_step conf) ([], g0) q" "reaches (rg_step conf) ([], g0) (fst q, g')"
    for q g'
    using that
  proof (induction arbitrary: g' rule: reaches.induct)
    case reaches_refl
    then show ?case by (auto elim: reaches.cases rg_stepE)
  next
    case (reaches_step q1 q2)
    from reaches_step.hyps(2) obtain c x g1 g2 h1 where
      q: "q1 = (h1, g1)" "q2 = (h1 @ [(c, x)], g2)" and s: "rg_serves conf c x g1 g2"
      by (auto elim: rg_stepE)
    from reaches_step.prems obtain g1' where
      r: "reaches (rg_step conf) ([], g0) (h1, g1')" and s': "rg_serves conf c x g1' g'"
      by (cases rule: reaches.cases) (auto simp: q elim!: rg_stepE)
    from reaches_step.IH [of g1'] r have "g1' = g1" by (simp add: q)
    with s s' show ?case by (simp add: q rg_serves_determined)
  qed
  from this [of "(h, g)"] assms show ?thesis by simp
qed

section \<open>The engine as a registry\<close>

definition rg_entry :: "operational_task \<Rightarrow> intent option \<times> string" where
  "rg_entry t = (ot_intent t, ot_repository t)"

definition en_registry :: "engine \<Rightarrow> registry" where
  "en_registry e = \<lparr>rg_active = map_option rg_entry \<circ> map_of (en_active e), rg_done = en_completed e\<rparr>"

definition configured :: "environ \<Rightarrow> bool" where
  "configured env \<longleftrightarrow> d_is_configured (new_dispatcher env)"

text \<open>The engine's invariant, the empty queue, and a dispatcher configured as at the start.\<close>

definition en_tidy :: "bool \<Rightarrow> engine \<Rightarrow> bool" where
  "en_tidy conf e \<longleftrightarrow> engine_ok e \<and> en_queue e = [] \<and>
     (\<exists>d. en_dispatcher e = Some d \<and> d_is_configured d = conf)"

lemma same_config_configured: "same_config d d' \<Longrightarrow> d_is_configured d' = d_is_configured d"
  by (simp add: same_config_def d_is_configured_def)

lemma dispatch_configured:
  assumes "dispatch_payload N L pl d w = (x, d', w')"
  shows "d_is_configured d' = d_is_configured d"
  using dispatch_simplified_runs [OF assms [unfolded dispatch_payload_def]]
  by (simp add: same_config_configured)

text \<open>
  The engine with its record: every operation a caller has, with its answer. An intent is handled
  or executed directly (\<open>HandleIntent\<close>, \<open>Execute\<close>).
\<close>

inductive en_serves ::
    "'w net \<Rightarrow> json_lib \<Rightarrow> (string \<Rightarrow> int option) \<Rightarrow> en_record \<times> engine \<Rightarrow> en_record \<times> engine \<Rightarrow> bool"
  for N L p where
  sv_intent: "handle_intent N L msg iopt repo e w = (Ret x, e', w') \<Longrightarrow>
    en_serves N L p (h, e) (h @ [(AskIntent iopt repo, Says x)], e')"
| sv_execute: "en_execute N L task iopt repo e w = (x, e', w') \<Longrightarrow>
    en_serves N L p (h, e) (h @ [(AskExecute iopt repo, Says x)], e')"
| sv_poll: "poll_status N L p i e w = (x, e', w') \<Longrightarrow>
    en_serves N L p (h, e) (h @ [(AskPoll i, Says x)], e')"
| sv_cancel: "en_cancel N i e w = (x, e', w') \<Longrightarrow>
    en_serves N L p (h, e) (h @ [(AskCancel i, Verdict x)], e')"
| sv_history: "en_serves N L p (h, e) (h @ [(AskLog t, Logged)], en_add_to_history t e)"
| sv_status: "en_serves N L p (h, e) (h @ [(AskStatus, Says (en_get_status e))], e)"

inductive_cases en_servesE: "en_serves N L p q q'"

lemma en_registry_dispatcher [simp]: "en_registry (e\<lparr>en_dispatcher := d\<rparr>) = en_registry e"
  by (simp add: en_registry_def)

lemma en_registry_put:
  "en_registry (e\<lparr>en_active := put i t (en_active e)\<rparr>) =
     (en_registry e)\<lparr>rg_active := (rg_active (en_registry e))(i \<mapsto> rg_entry t)\<rparr>"
  by (auto simp: en_registry_def)

text \<open>A task that is stored again with its own intent and repository is no change.\<close>

lemma en_registry_put_same:
  assumes "map_of (en_active e) i = Some t" and "rg_entry t' = rg_entry t"
  shows "en_registry (e\<lparr>en_active := put i t' (en_active e)\<rparr>) = en_registry e"
  using assms by (auto simp: en_registry_def fun_eq_iff)

lemma en_registry_dom: "i \<in> dom (rg_active (en_registry e)) \<longleftrightarrow> map_of (en_active e) i \<noteq> None"
  by (auto simp: en_registry_def)

lemma gomap_dom_card: "gomap_ok m \<Longrightarrow> card (dom (map_of m)) = length m"
  using distinct_card [of "map fst m"] by (simp add: dom_map_of_conv_image_fst)

lemma en_registry_size:
  assumes "gomap_ok (en_active e)"
  shows "card (dom (rg_active (en_registry e))) = length (en_active e)"
    "dom (rg_active (en_registry e)) = {} \<longleftrightarrow> en_active e = []"
proof -
  have "dom (rg_active (en_registry e)) = dom (map_of (en_active e))"
    by (auto simp: en_registry_def)
  then show "card (dom (rg_active (en_registry e))) = length (en_active e)"
    "dom (rg_active (en_registry e)) = {} \<longleftrightarrow> en_active e = []"
    using gomap_dom_card [OF assms] by (simp_all add: dom_map_of_conv_image_fst)
qed

lemma en_status_registry:
  assumes "en_tidy conf e"
  shows "en_get_status e = rg_status conf (en_registry e)"
proof -
  from assms obtain d where d: "en_dispatcher e = Some d" "d_is_configured d = conf"
    and ok: "gomap_ok (en_active e)" "en_queue e = []"
    by (auto simp: en_tidy_def engine_ok_def)
  have "show_nat 0 = ''0''" by code_simp
  then show ?thesis using d ok en_registry_size [OF ok(1)] by (simp add: en_get_status_def rg_status_def)
qed

section \<open>Each operation serves its call\<close>

text \<open>Stopping, answering with a text, and dispatching, for any call that asks for it.\<close>

lemma blocking_serves:
  assumes "engine_ok e" and "asks_stop c"
  shows "rg_serves conf c (Says (fst (en_handle_blocking e))) (en_registry e)
    (en_registry (snd (en_handle_blocking e)))"
proof -
  have ok: "gomap_ok (en_active e)" "en_cancel_chans e = []" using assms(1) by (simp_all add: engine_ok_def)
  have "fst (en_handle_blocking e) = stop_text (en_registry e)"
    using ok(2) en_registry_size [OF ok(1)] by (simp add: en_handle_blocking_def stop_text_def Let_def)
  moreover have "en_registry (snd (en_handle_blocking e)) = (en_registry e)\<lparr>rg_active := Map.empty\<rparr>"
    by (auto simp: en_registry_def en_handle_blocking_def Let_def)
  ultimately show ?thesis using rg_stop [OF assms(2)] by simp
qed

lemma local_texts [simp]:
  "execute_investigate task repo \<noteq> dispatched_text i"
  "''Analyzing operational request: '' @ x \<noteq> dispatched_text i"
  "''Operation not required for intent: '' @ x \<noteq> dispatched_text i"
  by (simp_all add: execute_investigate_def dispatched_text_def)

definition local_stop :: "intent option \<Rightarrow> bool" where
  "local_stop iopt \<longleftrightarrow> (case iopt of Some it \<Rightarrow> it_type it = IntentBlocking | None \<Rightarrow> False)"

lemma locally_serves:
  assumes "engine_ok e" and "asks_text c" and "asks_stop c \<longleftrightarrow> local_stop iopt"
  shows "rg_serves conf c (Says (fst (execute_locally task iopt repo e))) (en_registry e)
    (en_registry (snd (execute_locally task iopt repo e)))"
proof (cases "local_stop iopt")
  case True
  then have "execute_locally task iopt repo e = en_handle_blocking e"
    by (auto simp: execute_locally_def local_stop_def split: option.splits)
  with blocking_serves [OF assms(1)] True assms(3) show ?thesis by simp
next
  case False
  have "execute_locally task iopt repo e = (fst (execute_locally task iopt repo e), e)"
    and "fst (execute_locally task iopt repo e) \<noteq> dispatched_text i" for i
    using False
    by (auto simp: execute_locally_def local_stop_def dispatched_text_def execute_investigate_def
        split: option.splits)
  with rg_text [OF assms(2)] False assms(3) show ?thesis by (metis snd_conv)
qed

text \<open>The ways \<open>Execute\<close> can go.\<close>

lemma en_execute_cases:
  assumes d: "en_dispatcher e = Some d" and run: "en_execute N L task iopt repo e w = (x, e', w')"
  obtains (at_home) d' where "execute_locally task iopt repo (e\<lparr>en_dispatcher := d'\<rparr>) = (x, e')"
  | (stopped) "local_stop iopt" "en_handle_blocking e = (x, e')"
  | (said) "\<not> local_stop iopt" "e' = e" "\<And>i. x \<noteq> dispatched_text i"
  | (tracked) i t d' where "d_is_configured d" "\<forall>it. iopt = Some it \<longrightarrow> should_execute it"
      "rg_entry t = (iopt, repo)" "x = dispatched_text i" "d_is_configured d'"
      "e' = e\<lparr>en_dispatcher := Some d', en_active := put i t (en_active e)\<rparr>"
proof -
  let ?no = "case iopt of Some it \<Rightarrow> \<not> should_execute it | None \<Rightarrow> False"
  have same: "e\<lparr>en_dispatcher := Some d\<rparr> = e" using d by simp
  consider "\<not> d_is_configured d" | "d_is_configured d" ?no | "d_is_configured d" "\<not> ?no" by blast
  then show ?thesis
  proof cases
    case 1
    then have "execute_locally task iopt repo (e\<lparr>en_dispatcher := Some d\<rparr>) = (x, e')"
      using run d by (simp add: en_execute_def same split: prod.splits)
    then show ?thesis by (rule at_home)
  next
    case 2
    then obtain it where it: "iopt = Some it" "\<not> should_execute it" by (auto split: option.splits)
    show ?thesis
      using run d 2(1) it
      by (cases "it_type it = IntentBlocking")
        (auto simp: en_execute_def local_stop_def dispatched_text_def execute_investigate_def
          intro: stopped said split: if_splits prod.splits)
  next
    case 3
    let ?pl = "execution_payload task iopt repo"
    obtain y d1 w1 where disp: "dispatch_payload N L
        \<lparr>sp_task = op_task ?pl, sp_repository = op_repository ?pl\<rparr> d w = (y, d1, w1)"
      by (metis prod_cases3)
    show ?thesis
    proof (cases y)
      case (Inl err)
      then have "execute_locally task iopt repo (e\<lparr>en_dispatcher := Some d1\<rparr>) = (x, e')"
        using run d disp 3 by (simp add: en_execute_def Let_def split: prod.splits)
      then show ?thesis by (rule at_home)
    next
      case (Inr r)
      have "\<forall>it. iopt = Some it \<longrightarrow> should_execute it" using 3(2) by auto
      moreover have "d_is_configured d1" using dispatch_configured [OF disp] 3(1) by simp
      ultimately show ?thesis
        using run d disp Inr 3 dispatch_tracked [OF disp [unfolded Inr]]
        by (intro tracked [of "zero_task\<lparr>ot_id := wr_id r, ot_intent := iopt, ot_repository := repo,
            ot_status := ''dispatched'', ot_request_time := fst (time_now N w1),
            ot_workflow_id := wr_id r, ot_run_id := show_int (wr_run_id r)\<rparr>" "wr_id r" d1])
          (auto simp: en_execute_def Let_def case_prod_beta dispatched_text_def rg_entry_def)
    qed
  qed
qed

lemma en_execute_serves:
  assumes tidy: "en_tidy conf e" and run: "en_execute N L task iopt repo e w = (x, e', w')"
    and c: "asks_text c" "asks_stop c \<longleftrightarrow> local_stop iopt"
      "\<forall>it. iopt = Some it \<longrightarrow> should_execute it \<Longrightarrow> asks_run c = Some (iopt, repo)"
  shows "rg_serves conf c (Says x) (en_registry e) (en_registry e')"
proof -
  from tidy obtain d where d: "en_dispatcher e = Some d" "d_is_configured d = conf" and ok: "engine_ok e"
    by (auto simp: en_tidy_def)
  from d(1) run show ?thesis
  proof (cases rule: en_execute_cases)
    case (at_home d')
    with locally_serves [of "e\<lparr>en_dispatcher := d'\<rparr>" c iopt conf task repo] ok c(1,2)
    show ?thesis by simp
  next
    case stopped
    with blocking_serves [OF ok, of c conf] c(2) show ?thesis by simp
  next
    case said
    with rg_text [OF c(1), of x conf] c(2) show ?thesis by simp
  next
    case (tracked i t d')
    then have "en_registry e' = (en_registry e)\<lparr>rg_active := (rg_active (en_registry e))(i \<mapsto> (iopt, repo))\<rparr>"
      using en_registry_put [of i t "e\<lparr>en_dispatcher := Some d'\<rparr>"] by simp
    with rg_track [of conf c "(iopt, repo)" i] tracked d(2) c(3) show ?thesis by simp
  qed
qed

lemma other_texts [simp]:
  "en_handle_planning \<noteq> dispatched_text i" "en_handle_prioritization \<noteq> dispatched_text i"
  "en_handle_clarification e \<noteq> dispatched_text i"
  "en_handle_acknowledgment e = Ret x \<Longrightarrow> x \<noteq> dispatched_text i"
  "c \<noteq> CHR ''O'' \<Longrightarrow> c # y \<noteq> dispatched_text i"
  by (auto simp: en_handle_planning_def en_handle_prioritization_def en_handle_clarification_def
      en_handle_acknowledgment_def dispatched_text_def outcome_simps split: if_splits)

lemma handle_intent_serves:
  assumes tidy: "en_tidy conf e" and run: "handle_intent N L msg iopt repo e w = (Ret x, e', w')"
  shows "rg_serves conf (AskIntent iopt repo) (Says x) (en_registry e) (en_registry e')"
proof -
  have ok: "engine_ok e" using tidy by (simp add: en_tidy_def)
  show ?thesis
  proof (cases iopt)
    case None
    then have "execute_locally msg None repo e = (x, e')"
      using run by (simp add: handle_intent_def split: prod.splits)
    with locally_serves [OF ok, of "AskIntent iopt repo" None conf msg repo] None
    show ?thesis by (simp add: local_stop_def)
  next
    case (Some it)
    show ?thesis
    proof (cases "it_type it")
      case IntentBlocking
      then have "en_handle_blocking e = (x, e')"
        using run Some by (simp add: handle_intent_def split: prod.splits)
      with blocking_serves [OF ok, of "AskIntent iopt repo" conf] Some IntentBlocking
      show ?thesis by simp
    next
      case IntentExecution
      then have "en_execute N L msg (Some it) repo e w = (x, e', w')"
        using run Some by (simp add: handle_intent_def split: prod.splits)
      from en_execute_serves [OF tidy this, of "AskIntent iopt repo"] Some IntentExecution
      show ?thesis by (simp add: local_stop_def)
    qed (use run Some in \<open>auto simp: handle_intent_def intro!: rg_text dest: other_texts(4)\<close>)
  qed
qed

lemma poll_status_registry:
  assumes "poll_status N L p i e w = (x, e', w')"
  shows "en_registry e' = en_registry e"
proof -
  have same: "en_registry (e\<lparr>en_dispatcher := d, en_active := put i t' (en_active e)\<rparr>) = en_registry e"
    if "map_of (en_active e) i = Some t" "rg_entry t' = rg_entry t" for d t t'
    using en_registry_put_same [of "e\<lparr>en_dispatcher := d\<rparr>" i t t'] that by simp
  show ?thesis
    using assms
    by (auto simp: poll_status_def Let_def same rg_entry_def
        split: option.splits if_splits prod.splits sum.splits)
qed

lemma poll_status_serves:
  assumes "poll_status N L p i e w = (x, e', w')"
  shows "rg_serves conf (AskPoll i) (Says x) (en_registry e) (en_registry e')"
proof (cases "map_of (en_active e) i")
  case None
  then have "x = (case List.find (\<lambda>t. ot_id t = i) (rg_done (en_registry e)) of
      Some t \<Rightarrow> ot_status t | None \<Rightarrow> ''not_found'')"
    using assms by (auto simp: poll_status_def en_registry_def split: option.splits)
  then show ?thesis
    using None unfolding poll_status_registry [OF assms] by (intro rg_poll_done) (auto simp: en_registry_def)
next
  case (Some t)
  then show ?thesis
    unfolding poll_status_registry [OF assms] by (intro rg_poll) (auto simp: en_registry_def)
qed

lemma en_cancel_registry:
  assumes "en_cancel N i e w = (x, e', w')"
  shows "en_registry e' = en_registry e"
proof -
  have same: "en_registry (e\<lparr>en_dispatcher := d, en_active := put i (t\<lparr>ot_status := st\<rparr>) (en_active e)\<rparr>) =
      en_registry e"
    "en_registry (e\<lparr>en_active := put i (t\<lparr>ot_status := st\<rparr>) (en_active e)\<rparr>) = en_registry e"
    if "map_of (en_active e) i = Some t" for d t st
    using en_registry_put_same [of "e\<lparr>en_dispatcher := d\<rparr>" i t "t\<lparr>ot_status := st\<rparr>"]
      en_registry_put_same [of e i t "t\<lparr>ot_status := st\<rparr>"] that
    by (simp_all add: rg_entry_def)
  show ?thesis
    using assms
    by (auto simp: en_cancel_def Let_def same split: option.splits if_splits prod.splits)
qed

lemma en_cancel_serves:
  assumes "en_cancel N i e w = (x, e', w')"
  shows "rg_serves conf (AskCancel i) (Verdict x) (en_registry e) (en_registry e')"
proof -
  have "x = (if i \<in> dom (rg_active (en_registry e)) then None else Some (''task not found: '' @ i))"
    using assms unfolding en_registry_dom
    by (auto simp: en_cancel_def Let_def split: option.splits if_splits prod.splits)
  then show ?thesis unfolding en_cancel_registry [OF assms] by (simp add: rg_cancel)
qed

section \<open>What every operation keeps\<close>

lemma blocking_tidy: "en_tidy conf e \<Longrightarrow> en_tidy conf (snd (en_handle_blocking e))"
  using en_handle_blocking_ok [of e] by (simp add: en_tidy_def en_handle_blocking_def Let_def)

lemma locally_tidy: "en_tidy conf e \<Longrightarrow> en_tidy conf (snd (execute_locally task iopt repo e))"
  using blocking_tidy by (simp add: execute_locally_def)

lemma execute_tidy:
  assumes tidy: "en_tidy conf e" and run: "en_execute N L task iopt repo e w = (x, e', w')"
  shows "en_tidy conf e'"
proof -
  from tidy obtain d where d: "en_dispatcher e = Some d" "d_is_configured d = conf" by (auto simp: en_tidy_def)
  have queue: "en_queue e' = en_queue e" and conf: "\<exists>d. en_dispatcher e' = Some d \<and> d_is_configured d = conf"
    using run d
    by (auto simp: en_execute_def execute_locally_def en_handle_blocking_def Let_def
        dest!: dispatch_configured split: option.splits if_splits prod.splits sum.splits)
  with tidy en_execute_ok [OF _ run] show ?thesis by (auto simp: en_tidy_def)
qed

lemma handle_intent_tidy:
  assumes tidy: "en_tidy conf e" and run: "handle_intent N L msg iopt repo e w = (x, e', w')"
  shows "en_tidy conf e'"
  using run tidy blocking_tidy [OF tidy] locally_tidy [OF tidy, of msg None repo]
  by (auto simp: handle_intent_def dest: execute_tidy [OF tidy]
      split: option.splits intent_type.splits prod.splits)

lemma poll_status_tidy:
  assumes "en_tidy conf e" and "poll_status N L p i e w = (x, e', w')"
  shows "en_tidy conf e'"
  using assms poll_status_ok [OF _ assms(2)]
  by (auto simp: en_tidy_def poll_status_def Let_def dest!: get_run_status_runs same_config_configured
      split: option.splits if_splits prod.splits sum.splits)

lemma en_cancel_tidy:
  assumes "en_tidy conf e" and "en_cancel N i e w = (x, e', w')"
  shows "en_tidy conf e'"
  using assms en_cancel_ok [OF _ assms(2)]
  by (auto simp: en_tidy_def en_cancel_def Let_def dest!: cancel_run_runs same_config_configured
      split: option.splits if_splits prod.splits)

lemma history_tidy: "en_tidy conf e \<Longrightarrow> en_tidy conf (en_add_to_history t e)"
  using add_to_history_ok [of e t] by (simp add: en_tidy_def en_add_to_history_def)

interpretation en_sim: simulation "en_serves N L p" "\<lambda>(h, e). en_tidy conf e" "rg_step conf"
    "\<lambda>(h, e). (h, en_registry e)" for N L p conf
proof unfold_locales
  fix q q' :: "en_record \<times> engine"
  assume tidy: "case q of (h, e) \<Rightarrow> en_tidy conf e" and step: "en_serves N L p q q'"
  from step tidy show "case q' of (h, e) \<Rightarrow> en_tidy conf e"
    by (auto elim!: en_servesE
        intro: handle_intent_tidy execute_tidy poll_status_tidy en_cancel_tidy history_tidy)
  have "\<exists>h c x e e'. q = (h, e) \<and> q' = (h @ [(c, x)], e') \<and>
      rg_serves conf c x (en_registry e) (en_registry e')"
    using step
  proof cases
    case (sv_execute task iopt repo e w x e' w' h)
    have "rg_serves conf (AskExecute iopt repo) (Says x) (en_registry e) (en_registry e')"
      by (rule en_execute_serves [OF _ sv_execute(3)])
        (use tidy sv_execute in \<open>cases iopt; auto simp: local_stop_def\<close>)+
    with sv_execute show ?thesis by blast
  next
    case (sv_history h e t)
    have "en_registry (en_add_to_history t e) =
        (en_registry e)\<lparr>rg_done := keep_last 50 (rg_done (en_registry e) @ [t])\<rparr>"
      by (simp add: en_registry_def en_add_to_history_def)
    with rg_log [of conf t "en_registry e"] sv_history show ?thesis by simp
  next
    case (sv_status h e)
    with tidy rg_asked [of conf "en_registry e"] show ?thesis by (simp add: en_status_registry)
  qed (use tidy in \<open>auto intro: handle_intent_serves poll_status_serves en_cancel_serves\<close>)
  then show "reaches (rg_step conf) (case q of (h, e) \<Rightarrow> (h, en_registry e))
      (case q' of (h, e) \<Rightarrow> (h, en_registry e))"
    by (auto intro: reaches_single rg_does)
qed

lemma new_engine_tidy: "en_tidy (configured env) (new_engine env)"
  using new_engine_ok [of env] by (simp add: en_tidy_def new_engine_def configured_def)

section \<open>Properties\<close>

text \<open>
  C26. The engine refines its registry: whatever sequence of intents, executions, polls, cancellations,
  history entries and status questions a new engine serves, the registry machine serves the same
  calls with the same answers and ends in the registry of what the engine tracks, with its
  intents and repositories, and has completed; that record of calls and answers leaves no other
  registry possible; and the status line is that of the registry. So a run is tracked exactly
  from the answer that names it to the next answered stop, a stop answers with the number of runs
  it drops, and a poll, a cancellation or a text answer changes nothing tracked.
\<close>

theorem engine_refines_registry:
  assumes "reaches (en_serves N L p) ([], new_engine env) (h, e)"
  shows "reaches (rg_step (configured env)) ([], empty_registry) (h, en_registry e) \<and>
    (\<forall>g. reaches (rg_step (configured env)) ([], empty_registry) (h, g) \<longrightarrow> g = en_registry e) \<and>
    en_get_status e = rg_status (configured env) (en_registry e)"
proof -
  have start: "case ([], new_engine env) of (h, e) \<Rightarrow> en_tidy (configured env) e"
    using new_engine_tidy [of env] by simp
  have "en_registry (new_engine env) = empty_registry"
    by (simp add: en_registry_def new_engine_def empty_registry_def)
  with en_sim.sim_reaches [OF assms start]
  have sim: "reaches (rg_step (configured env)) ([], empty_registry) (h, en_registry e)" by simp
  have "en_tidy (configured env) e" using en_sim.ok_reaches [OF assms start] by simp
  then have "en_get_status e = rg_status (configured env) (en_registry e)" by (rule en_status_registry)
  with sim rg_determined [OF sim] show ?thesis by blast
qed

theorem engine_refines_registry_witness:
  "\<exists>e. reaches (en_serves (answering accepted) (scan_table []) (\<lambda>_. None)) ([], new_engine github_env)
      ([(AskIntent (Some run_intent) ''o/r'', Says (dispatched_text ''0''))], e) \<and>
     rg_active (en_registry e) ''0'' = Some (Some run_intent, ''o/r'') \<and>
     en_get_status e = rg_status (configured github_env) (en_registry e)"
proof -
  let ?N = "answering accepted"
  let ?run = "zero_run\<lparr>wr_id := ''0'', wr_run_id := 0, wr_task := ''fix'', wr_status := ''queued'',
                  wr_created := 0\<rparr>"
  have p: "dispatch_payload ?N (scan_table []) \<lparr>sp_task = ''fix'', sp_repository = ''o/r''\<rparr>
      sample_dispatcher 0 = (Inr ?run, sample_dispatcher\<lparr>d_runs := [(''0'', ?run)]\<rparr>, 0)"
    using accepted_dispatch [of "''fix''" 0] by (simp add: dispatch_payload_def Let_def)
  have d: "en_dispatcher (new_engine github_env) = Some sample_dispatcher" "d_is_configured sample_dispatcher"
    by (simp_all add: new_engine_def github_env_dispatcher sample_dispatcher_def d_is_configured_def)
  obtain x e w where run: "handle_intent ?N (scan_table []) ''fix'' (Some run_intent) ''o/r'' (new_engine github_env) 0
      = (x, e, w)"
    by (metis prod_cases3)
  have zero: "show_int 0 = ''0''" by code_simp
  from run have act: "rg_active (en_registry e) ''0'' = Some (Some run_intent, ''o/r'')"
    and x: "x = Ret (dispatched_text ''0'')"
    using p d
    by (auto simp: dispatched_text_def handle_intent_def run_intent_def en_execute_def execution_payload_def new_payload_def
        Let_def en_registry_def rg_entry_def zero split: prod.splits)
  have reach: "reaches (en_serves ?N (scan_table []) (\<lambda>_. None)) ([], new_engine github_env)
      ([(AskIntent (Some run_intent) ''o/r'', Says (dispatched_text ''0''))], e)"
    using reaches_single [of "en_serves ?N (scan_table []) (\<lambda>_. None)", OF sv_intent [OF run [unfolded x], of _ "[]"]]
    by simp
  from act reach engine_refines_registry [OF reach] show ?thesis by blast
qed

end
