(* ===== verification/Engine_Threads.thy ===== *)
theory Engine_Threads
  imports Registry
begin

text \<open>
  The engine of \<open>internal/workflow/engine.go\<close> under several threads, between its critical sections.
  \<open>Execute\<close> dispatches the run first and takes \<open>e.mu\<close> only to store the task; \<open>PollStatus\<close> fetches
  the pointer of the task under \<open>e.mu.RLock\<close>, asks the dispatcher without a lock, and writes the
  status through the pointer without a lock. \<open>Cancel\<close>, \<open>handleBlocking\<close>, \<open>AddToHistory\<close> and
  \<open>GetStatus\<close> are one critical section each, and so one move. A move in which a call takes effect
  carries the call and its answer, and \<open>noted_pool\<close> keeps the record of them. An intent or an execution
  that is only answered with a text reads nothing that is shared and changes nothing: it is no move.

  Tasks are objects here: the map of active tasks gives the address of a task in a store, so that a
  poll whose task was dropped or replaced meanwhile writes to the old object. The queue and the
  cancel channels, which nothing fills, are left out. What one dispatch or one status request does
  with the dispatcher is one step of it (Dispatcher.thy).
\<close>

section \<open>The shared state\<close>

record 'w en_shared =
  es_dispatcher :: "dispatcher option"
  es_tasks :: "operational_task list"
  es_active :: "(string, nat) gomap"
  es_completed :: "operational_task list"
  es_world :: 'w

definition new_en_shared :: "environ \<Rightarrow> 'w \<Rightarrow> 'w en_shared" where
  "new_en_shared env w = \<lparr>es_dispatcher = Some (new_dispatcher env), es_tasks = [], es_active = [],
     es_completed = [], es_world = w\<rparr>"

datatype en_place =
    EnAway
  | Registering operational_task
  | Polling string nat
  | Polled nat workflow_run
  | Told string

text \<open>The three critical sections that change the active tasks.\<close>

definition es_register :: "operational_task \<Rightarrow> 'w en_shared \<Rightarrow> 'w en_shared" where
  "es_register t s =
     s\<lparr>es_tasks := es_tasks s @ [t], es_active := put (ot_id t) (length (es_tasks s)) (es_active s)\<rparr>"

definition set_cancelled :: "operational_task \<Rightarrow> operational_task" where
  "set_cancelled t = t\<lparr>ot_status := ''cancelled''\<rparr>"

definition es_blocking :: "'w en_shared \<Rightarrow> string \<times> 'w en_shared" where
  "es_blocking s =
     ((if es_active s \<noteq> []
       then ''Execution cancelled. Stopped '' @ show_nat (length (es_active s)) @ '' active task(s).''
       else ''No active executions to cancel.''),
      s\<lparr>es_tasks := fold (\<lambda>(_, a) ts. ts[a := set_cancelled (ts ! a)]) (es_active s) (es_tasks s),
        es_active := []\<rparr>)"

definition es_write :: "nat \<Rightarrow> workflow_run \<Rightarrow> int \<Rightarrow> 'w en_shared \<Rightarrow> 'w en_shared" where
  "es_write a run now s =
     (let t = (es_tasks s ! a)\<lparr>ot_status := wr_status run\<rparr>;
          t = (if wr_status run = ''completed'' \<or> wr_status run = ''failed''
               then t\<lparr>ot_end_time := now\<rparr> else t)
      in s\<lparr>es_tasks := (es_tasks s)[a := t]\<rparr>)"

definition dispatched_task :: "workflow_run \<Rightarrow> intent option \<Rightarrow> string \<Rightarrow> int \<Rightarrow> operational_task" where
  "dispatched_task run iopt repo now =
     zero_task\<lparr>ot_id := wr_id run, ot_intent := iopt, ot_repository := repo,
       ot_status := ''dispatched'', ot_request_time := now,
       ot_workflow_id := wr_id run, ot_run_id := show_int (wr_run_id run)\<rparr>"

text \<open>\<open>GetStatus\<close>, one critical section that reads; the queue is empty.\<close>

definition es_get_status :: "'w en_shared \<Rightarrow> string" where
  "es_get_status s =
     (if (case es_dispatcher s of None \<Rightarrow> False | Some d \<Rightarrow> \<not> d_is_configured d)
      then ''workflow_not_configured''
      else if 0 < length (es_active s)
      then ''active: '' @ show_nat (length (es_active s)) @ '', queued: '' @ show_nat 0
      else ''ready'')"

text \<open>
  The moves of a thread. A move in which a call takes effect and is answered carries that call and
  answer; the others carry none.
\<close>

inductive en_act ::
    "'w net \<Rightarrow> json_lib \<Rightarrow> (string \<Rightarrow> int option) \<Rightarrow> tid \<Rightarrow> (en_call \<times> en_answer) option \<Rightarrow>
       'w en_shared \<Rightarrow> en_place \<Rightarrow> 'w en_shared \<Rightarrow> en_place \<Rightarrow> bool"
  for N L p t where
  et_dispatch: "es_dispatcher s = Some d \<Longrightarrow> d_is_configured d \<Longrightarrow>
    (\<forall>it. iopt = Some it \<longrightarrow> should_execute it) \<Longrightarrow>
    dispatch_payload N L \<lparr>sp_task = task, sp_repository = repo\<rparr> d (es_world s) = (Inr run, d', w) \<Longrightarrow>
    time_now N w = (now, w') \<Longrightarrow>
    en_act N L p t None s EnAway (s\<lparr>es_dispatcher := Some d', es_world := w'\<rparr>)
      (Registering (dispatched_task run iopt repo now))"
| et_refused: "es_dispatcher s = Some d \<Longrightarrow>
    dispatch_payload N L \<lparr>sp_task = task, sp_repository = repo\<rparr> d (es_world s) = (Inl e, d', w) \<Longrightarrow>
    en_act N L p t None s EnAway (s\<lparr>es_dispatcher := Some d', es_world := w\<rparr>) EnAway"
| et_register: "x = ''Operational workflow dispatched.'' @ nl @ ''Run ID: '' @ ot_run_id tk @ nl @
      ''Monitoring execution...'' \<Longrightarrow>
    en_act N L p t (Some (AskExecute (ot_intent tk) (ot_repository tk), Says x)) s (Registering tk)
      (es_register tk s) (Told x)"
| et_blocking: "es_blocking s = (answer, s') \<Longrightarrow> asks_stop c \<Longrightarrow>
    en_act N L p t (Some (c, Says answer)) s EnAway s' (Told answer)"
| et_lookup: "map_of (es_active s) i = Some a \<Longrightarrow> en_act N L p t None s EnAway s (Polling i a)"
| et_untracked: "map_of (es_active s) i = None \<Longrightarrow>
    x = (case List.find (\<lambda>tk. ot_id tk = i) (es_completed s) of
           Some tk \<Rightarrow> ot_status tk | None \<Rightarrow> ''not_found'') \<Longrightarrow>
    en_act N L p t (Some (AskPoll i, Says x)) s EnAway s (Told x)"
| et_no_dispatcher: "es_dispatcher s = None \<Longrightarrow>
    en_act N L p t None s (Polling i a) s (Told (ot_status (es_tasks s ! a)))"
| et_failed: "es_dispatcher s = Some d \<Longrightarrow>
    get_run_status N L p (ot_run_id (es_tasks s ! a)) d (es_world s) = (Inl e, d', w) \<Longrightarrow>
    en_act N L p t None s (Polling i a) (s\<lparr>es_dispatcher := Some d', es_world := w\<rparr>)
      (Told (ot_status (es_tasks s ! a)))"
| et_asked: "es_dispatcher s = Some d \<Longrightarrow>
    get_run_status N L p (ot_run_id (es_tasks s ! a)) d (es_world s) = (Inr run, d', w) \<Longrightarrow>
    en_act N L p t None s (Polling i a) (s\<lparr>es_dispatcher := Some d', es_world := w\<rparr>) (Polled a run)"
| et_write: "time_now N (es_world s) = (now, w) \<Longrightarrow>
    en_act N L p t None s (Polled a run) ((es_write a run now s)\<lparr>es_world := w\<rparr>) (Told (wr_status run))"
| et_cancel: "map_of (es_active s) i = Some a \<Longrightarrow>
    s1 = s\<lparr>es_tasks := (es_tasks s)[a := set_cancelled (es_tasks s ! a)]\<rparr> \<Longrightarrow>
    (case es_dispatcher s of
       None \<Rightarrow> s' = s1
     | Some d \<Rightarrow>
         if ot_run_id (es_tasks s ! a) = [] then s' = s1
         else (\<exists>c d' w. cancel_run N (ot_run_id (es_tasks s ! a)) d (es_world s) = (c, d', w) \<and>
                 s' = s1\<lparr>es_dispatcher := Some d', es_world := w\<rparr>)) \<Longrightarrow>
    en_act N L p t (Some (AskCancel i, Verdict None)) s EnAway s' (Told [])"
| et_no_task: "map_of (es_active s) i = None \<Longrightarrow>
    en_act N L p t (Some (AskCancel i, Verdict (Some (''task not found: '' @ i)))) s EnAway s
      (Told (''task not found: '' @ i))"
| et_history: "en_act N L p t (Some (AskLog tk, Logged)) s EnAway
    (s\<lparr>es_completed := keep_last 50 (es_completed s @ [tk])\<rparr>) (Told [])"
| et_status: "en_act N L p t (Some (AskStatus, Says (es_get_status s))) s EnAway s
    (Told (es_get_status s))"
| et_next: "en_act N L p t None s (Told x) s EnAway"

inductive_cases en_actE: "en_act N L p t ev s l s' l'"

definition en_move ::
    "'w net \<Rightarrow> json_lib \<Rightarrow> (string \<Rightarrow> int option) \<Rightarrow> tid \<Rightarrow> 'w en_shared \<Rightarrow> en_place \<Rightarrow>
       'w en_shared \<Rightarrow> en_place \<Rightarrow> bool" where
  "en_move N L p t s l s' l' \<longleftrightarrow> (\<exists>ev. en_act N L p t ev s l s' l')"

lemma en_act_move: "en_act N L p t ev s l s' l' \<Longrightarrow> en_move N L p t s l s' l'"
  by (auto simp: en_move_def)

inductive en_env :: "'w en_shared \<Rightarrow> 'w en_shared \<Rightarrow> bool" where
  en_env_world: "en_env s (s\<lparr>es_world := w\<rparr>)"

abbreviation en_pool ::
    "'w net \<Rightarrow> json_lib \<Rightarrow> (string \<Rightarrow> int option) \<Rightarrow> 'w en_shared \<Rightarrow>
       'w en_shared \<times> (tid \<Rightarrow> en_place) \<Rightarrow> bool" where
  "en_pool N L p s0 \<equiv> reaches (pool_step (en_move N L p) en_env) (s0, \<lambda>_. EnAway)"

lemma en_pool_moves:
  "en_pool N L p s0 (s, f) \<Longrightarrow> f t = l \<Longrightarrow> en_move N L p t s l s' l' \<Longrightarrow>
     en_pool N L p s0 (s', f(t := l'))"
  by (rule pool_moves)

section \<open>Objects\<close>

text \<open>No move frees a task, or changes its identifiers, its intent or its repository.\<close>

definition same_objects :: "operational_task list \<Rightarrow> operational_task list \<Rightarrow> bool" where
  "same_objects ts ts' \<longleftrightarrow>
     length ts \<le> length ts' \<and>
     (\<forall>a < length ts. ot_id (ts' ! a) = ot_id (ts ! a) \<and> rg_entry (ts' ! a) = rg_entry (ts ! a))"

lemma same_objects_refl [simp]: "same_objects ts ts"
  by (simp add: same_objects_def)

lemma same_objects_trans: "same_objects ts us \<Longrightarrow> same_objects us vs \<Longrightarrow> same_objects ts vs"
  by (simp add: same_objects_def)

lemma same_objects_update:
  "ot_id t = ot_id (ts ! a) \<Longrightarrow> rg_entry t = rg_entry (ts ! a) \<Longrightarrow> same_objects ts (ts[a := t])"
  by (cases "a < length ts") (auto simp: same_objects_def nth_list_update list_update_beyond)

lemma same_objects_append [simp]: "same_objects ts (ts @ us)"
  by (simp add: same_objects_def nth_append)

lemma set_cancelled_same [simp]:
  "ot_id (set_cancelled t) = ot_id t" "rg_entry (set_cancelled t) = rg_entry t"
  by (simp_all add: set_cancelled_def rg_entry_def)

lemma cancel_all_same:
  "same_objects ts (fold (\<lambda>(_, a) ts. ts[a := set_cancelled (ts ! a)]) m ts)"
proof (induction m arbitrary: ts)
  case Nil
  then show ?case by simp
next
  case (Cons x m)
  obtain i a where x: "x = (i, a)" by (cases x)
  have "same_objects ts (ts[a := set_cancelled (ts ! a)])" by (simp add: same_objects_update)
  from same_objects_trans [OF this Cons.IH] show ?case by (simp add: x)
qed

lemma es_write_same: "same_objects (es_tasks s) (es_tasks (es_write a run now s))"
  by (auto simp: es_write_def Let_def rg_entry_def intro!: same_objects_update)

lemma es_write_fields [simp]:
  "es_active (es_write a run now s) = es_active s"
  "es_completed (es_write a run now s) = es_completed s"
  "es_dispatcher (es_write a run now s) = es_dispatcher s"
  by (simp_all add: es_write_def Let_def)

lemma en_act_objects: "en_act N L p t ev s l s' l' \<Longrightarrow> same_objects (es_tasks s) (es_tasks s')"
  by (erule en_actE)
    (auto simp: es_register_def es_blocking_def cancel_all_same es_write_same
      intro!: same_objects_update split: option.splits if_splits)

section \<open>What is kept\<close>

definition es_ok :: "bool \<Rightarrow> 'w en_shared \<Rightarrow> bool" where
  "es_ok conf s \<longleftrightarrow>
     gomap_ok (es_active s) \<and> length (es_completed s) \<le> 50 \<and>
     (\<forall>i a. map_of (es_active s) i = Some a \<longrightarrow> a < length (es_tasks s) \<and> ot_id (es_tasks s ! a) = i) \<and>
     (\<exists>d. es_dispatcher s = Some d \<and> d_is_configured d = conf)"

text \<open>A task to be stored is one that was asked to be run and has been dispatched, under its run.\<close>

fun et_knows :: "bool \<Rightarrow> en_place \<Rightarrow> 'w en_shared \<Rightarrow> bool" where
  "et_knows conf (Registering tk) s \<longleftrightarrow>
     ot_status tk = ''dispatched'' \<and> conf \<and> ot_run_id tk = ot_id tk \<and>
     (\<forall>it. ot_intent tk = Some it \<longrightarrow> should_execute it)"
| "et_knows conf (Polling i a) s \<longleftrightarrow> a < length (es_tasks s) \<and> ot_id (es_tasks s ! a) = i"
| "et_knows conf (Polled a run) s \<longleftrightarrow> a < length (es_tasks s)"
| "et_knows conf l s \<longleftrightarrow> True"

lemma et_knows_objects:
  "et_knows conf l s \<Longrightarrow> same_objects (es_tasks s) (es_tasks s') \<Longrightarrow> et_knows conf l s'"
  by (cases l) (auto simp: same_objects_def)

lemma es_ok_objects:
  assumes "es_ok conf s" and "same_objects (es_tasks s) (es_tasks s')"
    and "es_active s' = es_active s" and "es_completed s' = es_completed s"
    and "\<exists>d. es_dispatcher s' = Some d \<and> d_is_configured d = conf"
  shows "es_ok conf s'"
  using assms by (auto simp: es_ok_def same_objects_def) (metis order_less_le_trans)+

lemma es_ok_register: "es_ok conf s \<Longrightarrow> es_ok conf (es_register tk s)"
  by (auto simp: es_ok_def es_register_def gomap_ok_put nth_append intro: less_SucI)

lemma et_cancel_fields:
  assumes "s1 = s\<lparr>es_tasks := ts\<rparr>"
    and "case es_dispatcher s of
       None \<Rightarrow> s' = s1
     | Some d \<Rightarrow>
         if r = [] then s' = s1
         else (\<exists>c d' w. cancel_run N r d (es_world s) = (c, d', w) \<and>
                 s' = s1\<lparr>es_dispatcher := Some d', es_world := w\<rparr>)"
  shows "es_tasks s' = ts \<and> es_active s' = es_active s \<and> es_completed s' = es_completed s"
    and "es_ok conf s \<Longrightarrow> \<exists>d. es_dispatcher s' = Some d \<and> d_is_configured d = conf"
  using assms
  by (auto simp: es_ok_def dest!: cancel_run_runs same_config_configured split: option.splits if_splits)

lemma en_act_own:
  assumes "es_ok conf s" and "et_knows conf l s" and "en_act N L p t ev s l s' l'"
  shows "es_ok conf s' \<and> et_knows conf l' s'"
  using assms(3)
proof cases
  case (et_dispatch d iopt task repo run d' w now w')
  have "d_is_configured d" "conf" "d_is_configured d'"
    using assms(1) et_dispatch dispatch_configured [OF et_dispatch(8)] by (auto simp: es_ok_def)
  with assms(1) et_dispatch dispatch_tracked [OF et_dispatch(8)] show ?thesis
    by (simp add: es_ok_def dispatched_task_def)
next
  case (et_refused d task repo e d' w)
  with assms(1) dispatch_configured [OF et_refused(6)] show ?thesis by (simp add: es_ok_def)
next
  case (et_failed d a e d' w i)
  with assms(1) same_config_configured [of d d'] get_run_status_runs [OF et_failed(6)] show ?thesis
    by (simp add: es_ok_def)
next
  case (et_asked d a run d' w i)
  with assms same_config_configured [of d d'] get_run_status_runs [OF et_asked(6)] show ?thesis
    by (simp add: es_ok_def)
next
  case (et_blocking answer c)
  with assms(1) show ?thesis by (auto simp: es_blocking_def es_ok_def)
next
  case (et_cancel i a s1)
  note fields = et_cancel_fields [OF et_cancel(5,6)]
  have "es_ok conf s'"
    by (rule es_ok_objects [OF assms(1) en_act_objects [OF assms(3)]])
      (simp_all add: fields(1) fields(2) [OF assms(1)])
  with et_cancel show ?thesis by simp
next
  case (et_write now w a run)
  have "es_ok conf (es_write a run now s)"
    using assms(1) by (intro es_ok_objects [OF assms(1) es_write_same]) (simp_all add: es_ok_def)
  then show ?thesis using et_write by (simp add: es_ok_def)
qed (use assms in \<open>auto simp: es_ok_register, auto simp: es_ok_def\<close>)

lemma en_move_own:
  "es_ok conf s \<Longrightarrow> et_knows conf l s \<Longrightarrow> en_move N L p t s l s' l' \<Longrightarrow>
     es_ok conf s' \<and> et_knows conf l' s'"
  unfolding en_move_def using en_act_own by blast

lemma en_move_objects: "en_move N L p t s l s' l' \<Longrightarrow> same_objects (es_tasks s) (es_tasks s')"
  unfolding en_move_def using en_act_objects by blast

interpretation en_threads: threads "en_move N L p" en_env "es_ok conf" "\<lambda>t. et_knows conf" for N L p conf
proof unfold_locales
  fix s s' :: "'a en_shared" and t v l l' m
  assume ok: "es_ok conf s"
  show "et_knows conf l s \<Longrightarrow> en_move N L p t s l s' l' \<Longrightarrow> es_ok conf s' \<and> et_knows conf l' s'"
    by (rule en_move_own [OF ok])
  show "et_knows conf m s \<Longrightarrow> en_move N L p t s l s' l' \<Longrightarrow> et_knows conf m s'"
    by (blast intro: et_knows_objects en_move_objects)
  show "en_env s s' \<Longrightarrow> es_ok conf s' \<and> (\<forall>v m. et_knows conf m s \<longrightarrow> et_knows conf m s')"
  proof (elim en_env.cases)
    fix s0 :: "'a en_shared" and w
    assume "s = s0" "s' = s0\<lparr>es_world := w\<rparr>"
    then show "es_ok conf s' \<and> (\<forall>v m. et_knows conf m s \<longrightarrow> et_knows conf m s')"
      using ok et_knows_objects [of conf _ s s'] by (simp add: es_ok_def)
  qed
qed

definition es_registry :: "'w en_shared \<Rightarrow> registry" where
  "es_registry s = \<lparr>rg_active = (\<lambda>i. map_option (\<lambda>a. rg_entry (es_tasks s ! a)) (map_of (es_active s) i)),
     rg_done = es_completed s\<rparr>"

lemma es_registry_same:
  assumes "es_ok conf s" and "same_objects (es_tasks s) (es_tasks s')"
    and "es_active s' = es_active s" and "es_completed s' = es_completed s"
  shows "es_registry s' = es_registry s"
  using assms by (auto simp: es_registry_def es_ok_def same_objects_def fun_eq_iff map_option_case
      split: option.splits)

lemma es_registry_register:
  assumes "es_ok conf s"
  shows "es_registry (es_register tk s) =
    (es_registry s)\<lparr>rg_active := (rg_active (es_registry s))(ot_id tk \<mapsto> rg_entry tk)\<rparr>"
  using assms
  by (auto simp: es_registry_def es_register_def es_ok_def nth_append fun_eq_iff map_option_case
      split: option.splits)

lemma es_registry_blocking:
  "es_registry (snd (es_blocking s)) = (es_registry s)\<lparr>rg_active := Map.empty\<rparr>"
  by (simp add: es_registry_def es_blocking_def fun_eq_iff)

lemma es_registry_done [simp]: "rg_done (es_registry s) = es_completed s"
  by (simp add: es_registry_def)

lemma es_registry_dom: "dom (rg_active (es_registry s)) = dom (map_of (es_active s))"
  by (auto simp: es_registry_def)

lemma es_registry_size:
  assumes "es_ok conf s"
  shows "card (dom (rg_active (es_registry s))) = length (es_active s)"
    "dom (rg_active (es_registry s)) = {} \<longleftrightarrow> es_active s = []"
  using assms gomap_dom_card [of "es_active s"]
  by (simp_all add: es_registry_dom es_ok_def)

lemma es_blocking_text:
  assumes "es_ok conf s"
  shows "fst (es_blocking s) = stop_text (es_registry s)"
  using es_registry_size [OF assms] by (simp add: es_blocking_def stop_text_def)

lemma es_status_text:
  assumes "es_ok conf s"
  shows "es_get_status s = rg_status conf (es_registry s)"
proof -
  have "show_nat 0 = ''0''" by code_simp
  then show ?thesis
    using assms es_registry_size [OF assms] by (auto simp: es_get_status_def rg_status_def es_ok_def)
qed

text \<open>
  A move that carries a call and its answer is that call of the registry; every other move leaves the
  registry as it is.
\<close>

lemma en_act_registry:
  assumes ok: "es_ok conf s" and knows: "et_knows conf l s" and act: "en_act N L p t ev s l s' l'"
  shows "case ev of
      None \<Rightarrow> es_registry s' = es_registry s
    | Some (c, x) \<Rightarrow> rg_serves conf c x (es_registry s) (es_registry s')"
  using act
proof cases
  case (et_register x tk)
  have "asks_run (AskExecute (ot_intent tk) (ot_repository tk)) = Some (rg_entry tk)"
    using knows et_register(2) by (cases "ot_intent tk") (auto simp: rg_entry_def)
  moreover have "conf" "x = dispatched_text (ot_id tk)"
    using knows et_register by (simp_all add: dispatched_text_def)
  ultimately show ?thesis
    using rg_track [of conf "AskExecute (ot_intent tk) (ot_repository tk)" "rg_entry tk" "ot_id tk" "es_registry s"]
      es_registry_register [OF ok, of tk] et_register by simp
next
  case (et_blocking answer c)
  then show ?thesis
    using rg_stop [OF et_blocking(5), of conf "es_registry s"] es_blocking_text [OF ok]
      es_registry_blocking [of s] by simp
next
  case (et_untracked i x)
  have "i \<notin> dom (rg_active (es_registry s))" using et_untracked(5) by (simp add: es_registry_dom domIff)
  from rg_poll_done [OF this, of x conf] et_untracked show ?thesis by simp
next
  case (et_cancel i a s1)
  have "es_registry s' = es_registry s"
    by (rule es_registry_same [OF ok en_act_objects [OF act]])
      (simp_all add: et_cancel_fields(1) [OF et_cancel(5,6)])
  moreover have "i \<in> dom (rg_active (es_registry s))" using et_cancel(4) by (auto simp: es_registry_dom)
  ultimately show ?thesis using rg_cancel [of conf i "es_registry s"] et_cancel by simp
next
  case (et_no_task i)
  then have "i \<notin> dom (rg_active (es_registry s))" by (auto simp: es_registry_dom)
  with rg_cancel [of conf i "es_registry s"] et_no_task show ?thesis by simp
next
  case (et_history tk)
  then have "es_registry s' = (es_registry s)\<lparr>rg_done := keep_last 50 (rg_done (es_registry s) @ [tk])\<rparr>"
    by (simp add: es_registry_def)
  with et_history rg_log [of conf tk "es_registry s"] show ?thesis by simp
next
  case et_status
  then show ?thesis using rg_asked [of conf "es_registry s"] by (simp add: es_status_text [OF ok])
qed (use es_registry_same [OF ok en_act_objects [OF act]] in auto)

section \<open>The pool with its record\<close>

text \<open>The record of answered calls beside the shared state: it is written, and never read.\<close>

definition en_note :: "(en_call \<times> en_answer) option \<Rightarrow> en_record \<Rightarrow> en_record" where
  "en_note ev h = (case ev of None \<Rightarrow> h | Some x \<Rightarrow> h @ [x])"

inductive noted_move ::
    "'w net \<Rightarrow> json_lib \<Rightarrow> (string \<Rightarrow> int option) \<Rightarrow> tid \<Rightarrow> en_record \<times> 'w en_shared \<Rightarrow> en_place \<Rightarrow>
       en_record \<times> 'w en_shared \<Rightarrow> en_place \<Rightarrow> bool"
  for N L p t where
  noted: "en_act N L p t ev s l s' l' \<Longrightarrow> noted_move N L p t (h, s) l (en_note ev h, s') l'"

inductive noted_env :: "en_record \<times> 'w en_shared \<Rightarrow> en_record \<times> 'w en_shared \<Rightarrow> bool" where
  noted_world: "en_env s s' \<Longrightarrow> noted_env (h, s) (h, s')"

abbreviation noted_pool ::
    "'w net \<Rightarrow> json_lib \<Rightarrow> (string \<Rightarrow> int option) \<Rightarrow> 'w en_shared \<Rightarrow>
       (en_record \<times> 'w en_shared) \<times> (tid \<Rightarrow> en_place) \<Rightarrow> bool" where
  "noted_pool N L p s0 \<equiv> reaches (pool_step (noted_move N L p) noted_env) (([], s0), \<lambda>_. EnAway)"

lemma noted_step:
  assumes "pool_step (noted_move N L p) noted_env ((h, s), f) ((h', s'), f')"
  shows "pool_step (en_move N L p) en_env (s, f) (s', f')"
  using assms
  by (auto elim!: pool_stepE noted_move.cases noted_env.cases
      intro: pool_step.intros en_act_move)

text \<open>Every run of the pool has a record.\<close>

lemma en_pool_noted:
  assumes "en_pool N L p s0 (s, f)"
  shows "\<exists>h. noted_pool N L p s0 ((h, s), f)"
proof -
  have "\<exists>h. noted_pool N L p s0 ((h, fst q), snd q)" if "en_pool N L p s0 q" for q
    using that
  proof (induction rule: reaches.induct)
    case reaches_refl
    then show ?case by auto
  next
    case (reaches_step q q')
    then obtain h where h: "noted_pool N L p s0 ((h, fst q), snd q)" by blast
    from reaches_step.hyps(2) show ?case
    proof cases
      case (pool_move t s f s' l)
      then obtain ev where "en_act N L p t ev s (f t) s' l" by (auto simp: en_move_def)
      from reaches.reaches_step [OF h, of "((en_note ev h, s'), f(t := l))"] pool_move
        pool_step.pool_move [of "noted_move N L p" t "(h, s)" f, OF noted [OF this]]
      have "noted_pool N L p s0 ((en_note ev h, s'), f(t := l))" by simp
      with pool_move show ?thesis by (metis fst_conv snd_conv)
    next
      case (pool_env s s' f)
      from reaches.reaches_step [OF h, of "((h, s'), f)"] pool_env
        pool_step.pool_env [of noted_env, OF noted_world [OF pool_env(3)], of "noted_move N L p" h f]
      have "noted_pool N L p s0 ((h, s'), f)" by simp
      with pool_env show ?thesis by (metis fst_conv snd_conv)
    qed
  qed
  from this [OF assms] show ?thesis by simp
qed

text \<open>The interleaved engine refines the same registry as the engine that serves whole calls.\<close>

definition noted_ok :: "bool \<Rightarrow> (en_record \<times> 'w en_shared) \<times> (tid \<Rightarrow> en_place) \<Rightarrow> bool" where
  "noted_ok conf q \<longleftrightarrow>
     es_ok conf (snd (fst q)) \<and> (\<forall>t. et_knows conf (snd q t) (snd (fst q)))"

definition noted_registry ::
    "(en_record \<times> 'w en_shared) \<times> (tid \<Rightarrow> en_place) \<Rightarrow> en_record \<times> registry" where
  "noted_registry q = (fst (fst q), es_registry (snd (fst q)))"

interpretation en_threads_sim: simulation "pool_step (noted_move N L p) noted_env"
    "noted_ok conf" "rg_step conf" noted_registry for N L p conf
proof unfold_locales
  fix q q' :: "(en_record \<times> 'a en_shared) \<times> (tid \<Rightarrow> en_place)"
  assume ok: "noted_ok conf q" and step: "pool_step (noted_move N L p) noted_env q q'"
  obtain h s f h' s' f' where q: "q = ((h, s), f)" "q' = ((h', s'), f')" by (metis prod.collapse)
  have s: "es_ok conf s" "\<And>t. et_knows conf (f t) s" using ok q by (simp_all add: noted_ok_def)
  show "noted_ok conf q'"
    using en_threads.ok_step [OF _ noted_step [OF step [unfolded q]], of conf] s q
    by (simp add: noted_ok_def)
  from step show "reaches (rg_step conf) (noted_registry q) (noted_registry q')"
  proof cases
    case (pool_move t hs g hs' l)
    from pool_move(3) obtain ev where act: "en_act N L p t ev s (f t) s' l" and h': "h' = en_note ev h"
      using pool_move(1,2) q by (auto elim!: noted_move.cases)
    from en_act_registry [OF s act] show ?thesis
      by (auto simp: q h' noted_registry_def en_note_def intro: reaches_single rg_does split: option.splits)
  next
    case (pool_env hs hs' g)
    then have "h' = h \<and> es_registry s' = es_registry s"
      using q by (auto elim!: noted_env.cases en_env.cases simp: es_registry_def)
    then show ?thesis by (simp add: q noted_registry_def)
  qed
qed

section \<open>Properties\<close>

lemma new_en_shared_ok:
  "es_ok (configured env) (new_en_shared env w) \<and> et_knows conf EnAway (new_en_shared env w)"
  by (simp add: new_en_shared_def es_ok_def configured_def)

text \<open>
  C27. However the threads of a new engine interleave, the calls answered so far, in the order of
  the critical sections in which they took effect, are served by the registry machine with the
  same answers, which ends in the registry of what the shared state tracks; that record leaves no
  other registry possible. In it are the dispatched executions (at the moment they are stored),
  stops, cancellations, history entries, status questions and polls of runs that are not
  tracked; a poll of a tracked run changes no registry. Every active task is stored once, as an
  object with that identifier, and the completed list holds at most 50 tasks.
\<close>

theorem interleaved_engine_refines_registry:
  assumes "noted_pool N L p (new_en_shared env w) ((h, s), f)"
  shows "reaches (rg_step (configured env)) ([], empty_registry) (h, es_registry s) \<and>
    (\<forall>g. reaches (rg_step (configured env)) ([], empty_registry) (h, g) \<longrightarrow> g = es_registry s) \<and>
    gomap_ok (es_active s) \<and> length (es_completed s) \<le> 50 \<and>
    (\<forall>i a. map_of (es_active s) i = Some a \<longrightarrow>
       a < length (es_tasks s) \<and> ot_id (es_tasks s ! a) = i)"
proof -
  have start: "noted_ok (configured env) (([], new_en_shared env w), \<lambda>_. EnAway)"
    using new_en_shared_ok [of env w] by (simp add: noted_ok_def)
  have "es_registry (new_en_shared env w) = empty_registry"
    by (simp add: es_registry_def new_en_shared_def empty_registry_def)
  with en_threads_sim.sim_reaches [OF assms start] have
    sim: "reaches (rg_step (configured env)) ([], empty_registry) (h, es_registry s)"
    by (simp add: noted_registry_def)
  have "es_ok (configured env) s"
    using en_threads_sim.ok_reaches [OF assms start] by (simp add: noted_ok_def)
  with sim rg_determined [OF sim] show ?thesis unfolding es_ok_def by blast
qed

text \<open>
  C28. A stop misses the run that is being dispatched: in every reachable state in which one thread
  has dispatched a run and not stored it yet, another thread can stop everything, counting
  only the tasks stored so far and sending nothing; the first thread then stores its task,
  and the stopped engine has one active task that says it is dispatched.
\<close>

theorem stop_misses_dispatched_run:
  assumes "en_pool N L p (new_en_shared env w) (s, f)"
    and "f t = Registering tk" and "f v = EnAway"
  shows "\<exists>s' f'. en_pool N L p (new_en_shared env w) (s', f') \<and>
    f' v = Told (if es_active s = [] then ''No active executions to cancel.''
                 else ''Execution cancelled. Stopped '' @ show_nat (length (es_active s)) @ '' active task(s).'') \<and>
    es_world s' = es_world s \<and> es_dispatcher s' = es_dispatcher s \<and>
    (\<exists>a. es_active s' = [(ot_id tk, a)] \<and> es_tasks s' ! a = tk \<and> ot_status tk = ''dispatched'')"
proof -
  have start: "case (new_en_shared env w, \<lambda>_. EnAway) of
      (s, f) \<Rightarrow> es_ok (configured env) s \<and> (\<forall>t. et_knows (configured env) (f t) s)"
    using new_en_shared_ok [of env w] by simp
  have "et_knows (configured env) (f t) s" using en_threads.ok_reaches [OF assms(1) start] by simp
  then have st: "ot_status tk = ''dispatched''" by (simp add: assms(2))
  obtain answer s1 where b: "es_blocking s = (answer, s1)" by (cases "es_blocking s")
  have "t \<noteq> v" using assms(2,3) by auto
  have stop: "asks_stop (AskIntent (Some (zero_intent\<lparr>it_type := IntentBlocking\<rparr>)) [])" by simp
  let ?f = "f(v := Told answer)"
  let ?x = "''Operational workflow dispatched.'' @ nl @ ''Run ID: '' @ ot_run_id tk @ nl @
      ''Monitoring execution...''"
  have p: "en_pool N L p (new_en_shared env w) (s1, ?f)"
    by (rule en_pool_moves [OF assms(1,3) en_act_move, OF et_blocking [OF b stop]])
  have "?f t = Registering tk" using assms(2) \<open>t \<noteq> v\<close> by simp
  from en_pool_moves [OF p this en_act_move [OF et_register [OF refl]]] have
    "en_pool N L p (new_en_shared env w) (es_register tk s1, ?f(t := Told ?x))" .
  moreover have "(?f(t := Told ?x)) v = Told answer" using \<open>t \<noteq> v\<close> by simp
  moreover have "es_world (es_register tk s1) = es_world s"
    "es_dispatcher (es_register tk s1) = es_dispatcher s" "es_active s1 = []"
    "answer = (if es_active s = [] then ''No active executions to cancel.''
       else ''Execution cancelled. Stopped '' @ show_nat (length (es_active s)) @ '' active task(s).'')"
    using b by (auto simp: es_register_def es_blocking_def)
  moreover from this(3) have "es_active (es_register tk s1) = [(ot_id tk, length (es_tasks s1))]"
    "es_tasks (es_register tk s1) ! length (es_tasks s1) = tk"
    by (simp_all add: es_register_def)
  ultimately show ?thesis using st by blast
qed

definition registering :: "operational_task \<Rightarrow> tid \<Rightarrow> en_place" where
  "registering tk = (\<lambda>_. EnAway)(0 := Registering tk)"

lemma sample_registering:
  "\<exists>s tk. en_pool (answering accepted) (scan_table []) (\<lambda>_. None) (new_en_shared github_env 0)
     (s, registering tk) \<and> ot_id tk = ''0'' \<and> es_active s = []"
proof -
  let ?N = "answering accepted"
  let ?run = "zero_run\<lparr>wr_id := ''0'', wr_run_id := 0, wr_task := ''fix'', wr_status := ''queued'',
                  wr_created := 0\<rparr>"
  let ?s = "new_en_shared github_env (0 :: int)"
  let ?tk = "dispatched_task ?run None ''o/r'' 0"
  have "dispatch_payload ?N (scan_table []) \<lparr>sp_task = ''fix'', sp_repository = ''o/r''\<rparr>
      sample_dispatcher (es_world ?s) = (Inr ?run, sample_dispatcher\<lparr>d_runs := [(''0'', ?run)]\<rparr>, 0)"
    using accepted_dispatch [of "''fix''" 0] by (simp add: dispatch_payload_def Let_def new_en_shared_def)
  moreover have "es_dispatcher ?s = Some sample_dispatcher" "d_is_configured sample_dispatcher"
    by (simp_all add: new_en_shared_def github_env_dispatcher sample_dispatcher_def d_is_configured_def)
  moreover have "time_now ?N 0 = (0, 0)" by (simp add: answering_def)
  moreover have "\<forall>it. None = Some it \<longrightarrow> should_execute it" by simp
  ultimately have "en_move ?N (scan_table []) (\<lambda>_. None) 0 ?s EnAway
      (?s\<lparr>es_dispatcher := Some (sample_dispatcher\<lparr>d_runs := [(''0'', ?run)]\<rparr>), es_world := 0\<rparr>)
      (Registering ?tk)"
    by (intro en_act_move [OF et_dispatch])
  from en_pool_moves [OF reaches_refl _ this] show ?thesis
    unfolding registering_def
    by (intro exI conjI) (assumption | simp add: dispatched_task_def new_en_shared_def)+
qed

theorem interleaved_engine_refines_registry_witness:
  "\<exists>h s tk. noted_pool (answering accepted) (scan_table []) (\<lambda>_. None) (new_en_shared github_env 0)
     ((h, s), registering tk) \<and>
   reaches (rg_step (configured github_env)) ([], empty_registry) (h, es_registry s)"
proof -
  obtain s tk where "en_pool (answering accepted) (scan_table []) (\<lambda>_. None) (new_en_shared github_env 0)
     (s, registering tk)"
    using sample_registering by blast
  from en_pool_noted [OF this] obtain h where
    h: "noted_pool (answering accepted) (scan_table []) (\<lambda>_. None) (new_en_shared github_env 0)
     ((h, s), registering tk)" by blast
  from interleaved_engine_refines_registry [OF h] h show ?thesis by blast
qed

theorem stop_misses_dispatched_run_witness:
  "\<exists>s f a. en_pool (answering accepted) (scan_table []) (\<lambda>_. None) (new_en_shared github_env 0) (s, f) \<and>
     f 1 = Told ''No active executions to cancel.'' \<and> es_active s = [(''0'', a)]"
proof -
  obtain s tk where s: "en_pool (answering accepted) (scan_table []) (\<lambda>_. None) (new_en_shared github_env 0)
     (s, registering tk)" and tk: "ot_id tk = ''0''" "es_active s = []"
    using sample_registering by blast
  have "registering tk 0 = Registering tk" "registering tk 1 = EnAway" by (simp_all add: registering_def)
  from stop_misses_dispatched_run [OF s this] tk show ?thesis by auto
qed

end
