(* ===== verification/Host.thy ===== *)
theory Host
  imports Json
begin

text \<open>
  The machine the Telegram programs run on: files, other programs, the wall clock, the Telegram
  service, and \<open>encoding/json\<close> where it writes, or reads a \<open>time.Time\<close>.

  As in Net, a world \<open>'w\<close> is whatever the machine is, and the record \<open>host\<close> is the parameter
  that acts on it. What the programs rely on is stated as laws where a theorem needs it:
  \<open>file_law\<close> (a file reads as it was written), \<open>render_law\<close> (a rendered document is read
  back) and \<open>time_law\<close> (a rendered time is read back).

  A \<open>time.Time\<close> is its instant, in nanoseconds since the zero time; the location it is shown
  in is not kept. A time with escape sequences in its JSON text is not told from one without.
\<close>

section \<open>The parameter\<close>

text \<open>
  An entry of \<open>os.ReadDir\<close>: its name, and the modification time \<open>Info\<close> gives unless the file
  is gone by then. \<open>h_run\<close> is \<open>exec.Command(...).CombinedOutput\<close> in a directory, \<open>h_send\<close> is
  \<open>bot.Send\<close> of a new message (chat, parse mode, text), whose result no caller uses.
\<close>

record dir_entry =
  de_name :: string
  de_mtime :: "int option"

record 'w host =
  h_read :: "string \<Rightarrow> 'w \<Rightarrow> goerr + string"
  h_write :: "string \<Rightarrow> string \<Rightarrow> 'w \<Rightarrow> 'w"
  h_dir :: "string \<Rightarrow> 'w \<Rightarrow> dir_entry list option"
  h_mtime :: "string \<Rightarrow> 'w \<Rightarrow> int option"
  h_run :: "string list \<Rightarrow> string \<Rightarrow> 'w \<Rightarrow> (string \<times> goerr option) \<times> 'w"
  h_send :: "int \<Rightarrow> string \<Rightarrow> string \<Rightarrow> 'w \<Rightarrow> 'w"
  h_now :: "'w \<Rightarrow> int \<times> 'w"
  h_render :: "json \<Rightarrow> string"
  h_time_text :: "int \<Rightarrow> string option"
  h_parse_time :: "string \<Rightarrow> int option"
  h_short_time :: "int \<Rightarrow> string"

definition file_law :: "'w host \<Rightarrow> bool" where
  "file_law H \<longleftrightarrow> (\<forall>p d w. h_read H p (h_write H p d w) = Inr d)"

definition render_law :: "'w host \<Rightarrow> json_lib \<Rightarrow> json \<Rightarrow> bool" where
  "render_law H L j \<longleftrightarrow> js_parse L (h_render H j) = Inr j"

definition time_law :: "'w host \<Rightarrow> int \<Rightarrow> bool" where
  "time_law H t \<longleftrightarrow> (\<exists>s. h_time_text H t = Some s \<and> h_parse_time H s = Some t)"

section \<open>Writing JSON\<close>

text \<open>
  \<open>json.Marshal\<close> of a map sorts the members by name, byte by byte; a name or a string that is
  no UTF-8 gets the replacement rune.
\<close>

fun bytes_le :: "string \<Rightarrow> string \<Rightarrow> bool" where
  "bytes_le [] t = True"
| "bytes_le (c # s) [] = False"
| "bytes_le (c # s) (d # t) = (byte c < byte d \<or> byte c = byte d \<and> bytes_le s t)"

fun insert_member :: "string \<times> json \<Rightarrow> (string \<times> json) list \<Rightarrow> (string \<times> json) list" where
  "insert_member m [] = [m]"
| "insert_member m (m' # ms) =
     (if bytes_le (fst m) (fst m') then m # m' # ms else m' # insert_member m ms)"

definition sort_members :: "(string \<times> json) list \<Rightarrow> (string \<times> json) list" where
  "sort_members ms = foldr insert_member ms []"

definition json_text :: "string \<Rightarrow> string" where
  "json_text s = utf8 (runes s)"

definition bool_map_json :: "(string, bool) gomap option \<Rightarrow> json" where
  "bool_map_json m =
     (case m of
        None \<Rightarrow> JNull
      | Some kvs \<Rightarrow> JObj (sort_members (map (\<lambda>(k, b). (json_text k, JBool b)) kvs)))"

definition time_json :: "'w host \<Rightarrow> int \<Rightarrow> json option" where
  "time_json H t = map_option JStr (h_time_text H t)"

text \<open>
  A \<open>map[string]interface{}\<close> again: one member per name, the last one given, sorted; nested
  objects likewise. A number is written from its \<open>float64\<close>, which the literal stands for.
\<close>

fun last_members :: "(string \<times> json) list \<Rightarrow> (string \<times> json) list" where
  "last_members [] = []"
| "last_members (m # ms) =
     (if fst m \<in> fst ` set ms then last_members ms else m # last_members ms)"

fun canonical :: "json \<Rightarrow> json" where
  "canonical (JArr vs) = JArr (map canonical vs)"
| "canonical (JObj ms) = JObj (sort_members (last_members (map (\<lambda>(k, v). (k, canonical v)) ms)))"
| "canonical (JStr s) = jtext s"
| "canonical j = j"

section \<open>Decoding that may stop\<close>

text \<open>
  A \<open>time.Time\<close> decodes itself, and its error ends the decoding on the spot, where a value of the
  wrong type is skipped and reported at the end. A decoder of this section gives the new value,
  whether a mismatch was met, and whether the decoding stopped.
\<close>

type_synonym 'a tdecoder = "json \<Rightarrow> 'a \<Rightarrow> 'a \<times> bool \<times> bool"

definition plain :: "'a decoder \<Rightarrow> 'a tdecoder" where
  "plain dec j old = (case dec j old of (x, e) \<Rightarrow> (x, e, False))"

definition tdec_time :: "'w host \<Rightarrow> int tdecoder" where
  "tdec_time H j old =
     (case j of
        JNull \<Rightarrow> (old, False, False)
      | JStr s \<Rightarrow> (case h_parse_time H s of Some t \<Rightarrow> (t, False, False) | None \<Rightarrow> (0, False, True))
      | _ \<Rightarrow> (old, False, True))"

fun tdec_members ::
    "(string \<Rightarrow> 's tdecoder) \<Rightarrow> string list \<Rightarrow> (string \<times> json) list \<Rightarrow> 's \<Rightarrow> 's \<times> bool \<times> bool" where
  "tdec_members setter names [] s = (s, False, False)"
| "tdec_members setter names ((k, v) # ms) s =
     (case match_field names k of
        None \<Rightarrow> tdec_members setter names ms s
      | Some n \<Rightarrow>
          (case setter n v s of
             (s1, e1, True) \<Rightarrow> (s1, e1, True)
           | (s1, e1, False) \<Rightarrow>
               (case tdec_members setter names ms s1 of (s2, e2, st) \<Rightarrow> (s2, e1 \<or> e2, st))))"

definition tdec_struct :: "(string \<Rightarrow> 's tdecoder) \<Rightarrow> string list \<Rightarrow> 's tdecoder" where
  "tdec_struct setter names j s =
     (case j of
        JObj ms \<Rightarrow> tdec_members setter names ms s
      | JNull \<Rightarrow> (s, False, False)
      | _ \<Rightarrow> (s, True, False))"

lemma tdec_members_unmatched:
  "\<forall>k \<in> fst ` set ms. match_field names k = None \<Longrightarrow> tdec_members setter names ms s = (s, False, False)"
  by (induction ms) auto

text \<open>The slice holds what was decoded before the stop, the element it stopped in included.\<close>

fun tdec_elems :: "'s tdecoder \<Rightarrow> 's \<Rightarrow> json list \<Rightarrow> 's list \<times> bool \<times> bool" where
  "tdec_elems dec zero [] = ([], False, False)"
| "tdec_elems dec zero (v # vs) =
     (case dec v zero of
        (x, e, True) \<Rightarrow> ([x], e, True)
      | (x, e, False) \<Rightarrow>
          (case tdec_elems dec zero vs of (xs, e', st) \<Rightarrow> (x # xs, e \<or> e', st)))"

definition tdec_slice :: "'s tdecoder \<Rightarrow> 's \<Rightarrow> 's list tdecoder" where
  "tdec_slice dec zero j old =
     (case j of
        JArr vs \<Rightarrow> tdec_elems dec zero vs
      | JNull \<Rightarrow> ([], False, False)
      | _ \<Rightarrow> (old, True, False))"

text \<open>\<open>json.Unmarshal\<close> where the caller reads no more of the error than whether there is one.\<close>

definition tunmarshal :: "json_lib \<Rightarrow> 's tdecoder \<Rightarrow> string \<Rightarrow> 's \<Rightarrow> 's \<times> bool" where
  "tunmarshal L dec data s =
     (case js_parse L data of
        Inl e \<Rightarrow> (s, True)
      | Inr j \<Rightarrow> (case dec j s of (s', bad, stop) \<Rightarrow> (s', bad \<or> stop)))"

text \<open>
  A \<open>map[string]bool\<close>: members are added to the map there is, a value that is no truth value
  is stored as false, and \<open>null\<close> makes the map nil.
\<close>

fun dec_bools :: "(string \<times> json) list \<Rightarrow> (string, bool) gomap \<Rightarrow> (string, bool) gomap \<times> bool" where
  "dec_bools [] m = (m, False)"
| "dec_bools ((k, v) # ms) m =
     (case dec_bool v False of (b, e) \<Rightarrow>
        (case dec_bools ms (put k b m) of (m', e') \<Rightarrow> (m', e \<or> e')))"

definition dec_bool_map :: "(string, bool) gomap option decoder" where
  "dec_bool_map j old =
     (case j of
        JObj ms \<Rightarrow>
          (case dec_bools ms (case old of None \<Rightarrow> [] | Some m \<Rightarrow> m) of (m, e) \<Rightarrow> (Some m, e))
      | JNull \<Rightarrow> (None, False)
      | _ \<Rightarrow> (old, True))"

section \<open>What was written is read back\<close>

lemma set_insert_member [simp]: "set (insert_member m ms) = insert m (set ms)"
  by (induction ms) auto

lemma set_sort_members [simp]: "set (sort_members ms) = set ms"
  by (induction ms) (simp_all add: sort_members_def)

lemma keys_insert_member:
  "distinct (map fst (insert_member m ms)) \<longleftrightarrow> fst m \<notin> fst ` set ms \<and> distinct (map fst ms)"
  by (induction ms) auto

lemma keys_sort_members [simp]: "distinct (map fst (sort_members ms)) = distinct (map fst ms)"
proof (induction ms)
  case Nil
  then show ?case by (simp add: sort_members_def)
next
  case (Cons m ms)
  have "set (foldr insert_member ms []) = set ms"
    using set_sort_members [of ms] by (simp add: sort_members_def)
  with Cons show ?case by (auto simp: sort_members_def keys_insert_member)
qed

lemma dec_bools_JBool:
  "dec_bools (map (\<lambda>(k, b). (k, JBool b)) kvs) m = (fold (\<lambda>(k, b). put k b) kvs m, False)"
  by (induction kvs arbitrary: m) (auto split: prod.splits)

lemma map_of_fold_put:
  "map_of (fold (\<lambda>(k, b). put k b) kvs m) = map_of m ++ map_of (rev kvs)"
  by (induction kvs arbitrary: m) (auto simp: map_add_upd_left)


lemma bool_map_read_back:
  assumes "gomap_ok kvs" and "\<forall>k \<in> fst ` set kvs. valid_utf8 k"
  shows "\<exists>m. dec_bool_map (bool_map_json (Some kvs)) (Some []) = (Some m, False) \<and> map_of m = map_of kvs"
proof -
  let ?ms = "sort_members (map (\<lambda>(k, b). (json_text k, JBool b)) kvs)"
  define kvs' where "kvs' = map (\<lambda>(k, v). (k, v = JBool True)) ?ms"
  have keys: "map (\<lambda>(k, b). (json_text k, JBool b)) kvs = map (\<lambda>(k, b). (k, JBool b)) kvs"
    using assms(2) by (auto simp: json_text_def valid_utf8_def)
  have set': "set kvs' = set kvs"
    unfolding kvs'_def keys by (force simp: image_iff)
  have "map (\<lambda>(k, b). (k, JBool b)) kvs' = map id ?ms"
    unfolding kvs'_def map_map by (rule map_cong) (auto simp: keys)
  then have ms: "?ms = map (\<lambda>(k, b). (k, JBool b)) kvs'" by simp
  have "map fst kvs' = map fst ?ms" by (simp add: kvs'_def case_prod_beta)
  moreover have "distinct (map fst ?ms)"
    using assms(1) by (simp add: keys case_prod_beta comp_def)
  ultimately have d: "distinct (map fst kvs')" by simp
  then have "map_of (rev kvs') = map_of kvs"
    using assms(1) set' by (subst map_of_inject_set) (simp_all add: rev_map [symmetric])
  then show ?thesis
    by (simp add: dec_bool_map_def bool_map_json_def ms dec_bools_JBool map_of_fold_put)
qed

text \<open>A stand-in for the machine in concrete runs: it logs the programs run and the messages sent.\<close>

record machine =
  mc_files :: "(string \<times> string) list"
  mc_dir :: "dir_entry list"
  mc_log :: "string list"
  mc_clock :: int

definition desk ::
    "(json \<Rightarrow> string) \<Rightarrow> (string list \<Rightarrow> string \<times> goerr option) \<Rightarrow> machine host" where
  "desk render run = \<lparr>
     h_read = (\<lambda>p w. case map_of (mc_files w) p of Some d \<Rightarrow> Inr d | None \<Rightarrow> Inl ''no such file''),
     h_write = (\<lambda>p d w. w\<lparr>mc_files := put p d (mc_files w)\<rparr>),
     h_dir = (\<lambda>d w. if d = ''/tmp'' then Some (mc_dir w) else None),
     h_mtime = (\<lambda>p w. case List.find (\<lambda>e. ''/tmp/'' @ de_name e = p) (mc_dir w) of
                         Some e \<Rightarrow> de_mtime e | None \<Rightarrow> None),
     h_run = (\<lambda>cmd d w. (run cmd, w\<lparr>mc_log := mc_log w @ [join_with '' '' cmd]\<rparr>)),
     h_send = (\<lambda>chat mode text w. w\<lparr>mc_log := mc_log w @ [text]\<rparr>),
     h_now = (\<lambda>w. (mc_clock w, w)),
     h_render = render,
     h_time_text = (\<lambda>t. Some (show_int t)),
     h_parse_time = sscan_int,
     h_short_time = show_int\<rparr>"

lemma file_law_desk: "file_law (desk render run)"
  by (simp add: file_law_def desk_def)

definition quiet_machine :: machine where
  "quiet_machine = \<lparr>mc_files = [], mc_dir = [], mc_log = [], mc_clock = 7\<rparr>"

text \<open>A machine beside a further component of the state.\<close>

definition on_first :: "'w host \<Rightarrow> ('w \<times> 'x) host" where
  "on_first H = \<lparr>
     h_read = (\<lambda>p w. h_read H p (fst w)),
     h_write = (\<lambda>p d w. map_prod (h_write H p d) id w),
     h_dir = (\<lambda>d w. h_dir H d (fst w)),
     h_mtime = (\<lambda>p w. h_mtime H p (fst w)),
     h_run = (\<lambda>cmd d w. map_prod id (\<lambda>m. (m, snd w)) (h_run H cmd d (fst w))),
     h_send = (\<lambda>chat mode text w. map_prod (h_send H chat mode text) id w),
     h_now = (\<lambda>w. map_prod id (\<lambda>m. (m, snd w)) (h_now H (fst w))),
     h_render = h_render H,
     h_time_text = h_time_text H,
     h_parse_time = h_parse_time H,
     h_short_time = h_short_time H\<rparr>"

end
