(* ===== verification/Findings.thy ===== *)
theory Findings
  imports Host
begin

text \<open>
  What the two audit programs share. The runtime and the bot each hold a copy of the same code:
  the newest findings file is read, the findings not seen before are picked by a hash, and each
  is reported and acted on. The locale \<open>finding_tracker\<close> states what a copy of the tracker
  promises; Runtime and Bot interpret it on their own definitions.

  A finding is the JSON object the auditor wrote, and its text fields are read with \<open>jstring\<close>.
\<close>

abbreviation yellow :: string where "yellow \<equiv> encode_rune 0x1F7E1"
abbreviation red :: string where "red \<equiv> encode_rune 0x1F534"
abbreviation green :: string where "green \<equiv> encode_rune 0x1F7E2"
abbreviation bell :: string where "bell \<equiv> encode_rune 0x1F514"
abbreviation check_mark :: string where "check_mark \<equiv> encode_rune 0x2705"
abbreviation lock_sign :: string where "lock_sign \<equiv> encode_rune 0x1F512"
abbreviation no_entry :: string where "no_entry \<equiv> encode_rune 0x1F6AB"

definition nil_dereference :: string where
  "nil_dereference = ''invalid memory address or nil pointer dereference''"

definition nil_map_entry :: string where
  "nil_map_entry = ''assignment to entry in nil map''"

section \<open>The newest findings file\<close>

text \<open>
  The loop over \<open>os.ReadDir\<close>: strictly later wins, from the zero time on; the error of
  \<open>Info\<close> is dropped, so a file that vanished is a nil pointer.
\<close>

fun newest_entry :: "dir_entry list \<Rightarrow> string \<times> int \<Rightarrow> (string \<times> int) outcome" where
  "newest_entry [] best = Ret best"
| "newest_entry (e # es) best =
     (if has_prefix (de_name e) ''auditor_findings_'' then
        (case de_mtime e of
           None \<Rightarrow> Panic nil_dereference
         | Some t \<Rightarrow>
             newest_entry es (if snd best < t then (''/tmp/'' @ de_name e, t) else best))
      else newest_entry es best)"

text \<open>\<open>os.ReadFile\<close> and the two attempts to decode: a list of objects, then one object.\<close>

definition decode_findings :: "json_lib \<Rightarrow> string \<Rightarrow> jmap list" where
  "decode_findings L data =
     (case unmarshal L (dec_slice (dec_map L) []) data [] of
        (fs, None) \<Rightarrow> fs
      | (fs, Some e) \<Rightarrow>
          (case unmarshal L (dec_map L) data [] of
             (f, None) \<Rightarrow> [f]
           | (f, Some e) \<Rightarrow> fs))"

lemma newest_entry_max:
  assumes "newest_entry es best = Ret (p, t)"
  shows "snd best \<le> t \<and>
    (\<forall>e \<in> set es. has_prefix (de_name e) ''auditor_findings_'' \<longrightarrow>
       (\<exists>t'. de_mtime e = Some t' \<and> t' \<le> t)) \<and>
    ((p, t) = best \<or> (\<exists>e \<in> set es. p = ''/tmp/'' @ de_name e \<and> de_mtime e = Some t))"
  using assms
proof (induction es best rule: newest_entry.induct)
  case (1 best)
  then show ?case by simp
next
  case (2 e es best)
  show ?case
  proof (cases "has_prefix (de_name e) ''auditor_findings_''")
    case False
    with 2 show ?thesis by auto
  next
    case True
    with "2.prems" obtain t' where t': "de_mtime e = Some t'"
      by (auto split: option.splits)
    with True "2.prems" have run:
      "newest_entry es (if snd best < t' then (''/tmp/'' @ de_name e, t') else best) = Ret (p, t)"
      by simp
    from "2.IH" (1) [OF True t' run] t' show ?thesis by (auto split: if_splits)
  qed
qed

section \<open>The tracker\<close>

definition known :: "(string, bool) gomap option \<Rightarrow> string \<Rightarrow> bool" where
  "known m h \<longleftrightarrow> (case m of None \<Rightarrow> False | Some kvs \<Rightarrow> map_of kvs h = Some True)"

definition known_set :: "(string, bool) gomap option \<Rightarrow> string set" where
  "known_set m = {h. known m h}"

lemma known_set_iff [simp]: "h \<in> known_set m \<longleftrightarrow> known m h"
  by (simp add: known_set_def)

lemma known_set_put [simp]: "known_set (Some (put h True m)) = insert h (known_set (Some m))"
  by (auto simp: known_set_def known_def)

lemma known_set_empty [simp]: "known_set (Some []) = {}" "known_set None = {}"
  by (simp_all add: known_set_def known_def)

text \<open>The reference: the findings whose hash is not in the set, each hash once.\<close>

fun fresh :: "('f \<Rightarrow> 'h) \<Rightarrow> 'h set \<Rightarrow> 'f list \<Rightarrow> 'f list" where
  "fresh hash K [] = []"
| "fresh hash K (f # fs) =
     (if hash f \<in> K then fresh hash K fs else f # fresh hash (insert (hash f) K) fs)"

lemma fresh_append:
  "fresh hash K (fs @ gs) = fresh hash K fs @ fresh hash (K \<union> hash ` set fs) gs"
  by (induction fs arbitrary: K) (simp_all add: insert_absorb)

lemma fresh_none: "hash ` set fs \<subseteq> K \<Longrightarrow> fresh hash K fs = []"
  by (induction fs) auto

lemma fresh_hashes: "hash ` set (fresh hash K fs) = hash ` set fs - K"
  by (induction fs arbitrary: K) auto

lemma fresh_subset: "set (fresh hash K fs) \<subseteq> set fs"
  by (induction fs arbitrary: K) (auto dest: subsetD)

lemma fresh_distinct: "distinct (map hash (fresh hash K fs))"
proof (induction fs arbitrary: K)
  case Nil
  then show ?case by simp
next
  case (Cons f fs)
  have "hash f \<notin> hash ` set (fresh hash (insert (hash f) K) fs)"
    by (simp add: fresh_hashes)
  with Cons show ?case by auto
qed

text \<open>Several audits, one after the other: what they report, in order.\<close>

fun run_looks ::
    "('f list \<Rightarrow> 's \<Rightarrow> ('f list \<times> 's) outcome) \<Rightarrow> 'f list list \<Rightarrow> 's \<Rightarrow> ('f list \<times> 's) outcome" where
  "run_looks look [] s = Ret ([], s)"
| "run_looks look (fs # fss) s =
     obind (look fs s) (\<lambda>(new, s'). obind (run_looks look fss s') (\<lambda>(rest, s''). Ret (new @ rest, s'')))"

locale finding_tracker =
  fixes hash :: "'f \<Rightarrow> string"
    and look :: "'f list \<Rightarrow> 's \<Rightarrow> ('f list \<times> 's) outcome"
    and seen :: "'s \<Rightarrow> (string, bool) gomap option"
  assumes look_Nil: "look [] s = Ret ([], s)"
    and look_known: "known (seen s) (hash f) \<Longrightarrow> look (f # fs) s = look fs s"
    and look_nil_map:
      "seen s = None \<Longrightarrow> look (f # fs) s = Panic nil_map_entry"
    and look_fresh:
      "\<not> known (seen s) (hash f) \<Longrightarrow> seen s = Some m \<Longrightarrow>
         \<exists>s'. seen s' = Some (put (hash f) True m) \<and>
           look (f # fs) s = obind (look fs s') (\<lambda>(new, s''). Ret (f # new, s''))"
begin

lemma look_reports:
  assumes "seen s = Some m"
  shows "\<exists>s' m'. look fs s = Ret (fresh hash (known_set (seen s)) fs, s') \<and> seen s' = Some m' \<and>
    known_set (seen s') = known_set (seen s) \<union> hash ` set fs"
  using assms
proof (induction fs arbitrary: s m)
  case Nil
  then show ?case by (simp add: look_Nil)
next
  case (Cons f fs)
  show ?case
  proof (cases "known (seen s) (hash f)")
    case True
    moreover have "hash f \<in> known_set (seen s)" using True by simp
    ultimately show ?thesis
      using Cons.IH [OF Cons.prems] look_known [OF True] by (auto simp: insert_absorb)
  next
    case False
    from look_fresh [OF False Cons.prems, of fs] obtain s1 where
      s1: "seen s1 = Some (put (hash f) True m)"
      and run: "look (f # fs) s = obind (look fs s1) (\<lambda>(new, s''). Ret (f # new, s''))"
      by (elim exE conjE)
    have "known_set (seen s1) = insert (hash f) (known_set (seen s))"
      using s1 Cons.prems by simp
    with Cons.IH [OF s1] run False show ?thesis by auto
  qed
qed

lemma look_again:
  assumes "seen s = Some m" and "look fs s = Ret (new, s')" and "set gs \<subseteq> set fs"
  shows "\<exists>s''. look gs s' = Ret ([], s'')"
proof -
  from look_reports [OF assms(1), of fs] assms(2) obtain m' where
    m': "seen s' = Some m'" and k: "known_set (seen s') = known_set (seen s) \<union> hash ` set fs"
    by auto
  have "fresh hash (known_set (seen s')) gs = []"
    using assms(3) by (intro fresh_none) (auto simp: k)
  with look_reports [OF m', of gs] show ?thesis by auto
qed

lemma looks_report:
  assumes "seen s = Some m"
  shows "\<exists>s' m'. run_looks look fss s = Ret (fresh hash (known_set (seen s)) (concat fss), s') \<and>
    seen s' = Some m' \<and> known_set (seen s') = known_set (seen s) \<union> hash ` set (concat fss)"
  using assms
proof (induction fss arbitrary: s m)
  case Nil
  then show ?case by simp
next
  case (Cons fs fss)
  from look_reports [OF Cons.prems, of fs] obtain s1 m1 where
    s1: "look fs s = Ret (fresh hash (known_set (seen s)) fs, s1)" "seen s1 = Some m1"
    and k1: "known_set (seen s1) = known_set (seen s) \<union> hash ` set fs"
    by (elim exE conjE)
  from Cons.IH [OF s1(2)] obtain s2 m2 where
    "run_looks look fss s1 = Ret (fresh hash (known_set (seen s1)) (concat fss), s2)"
    "seen s2 = Some m2" "known_set (seen s2) = known_set (seen s1) \<union> hash ` set (concat fss)"
    by (elim exE conjE)
  then show ?case
    by (intro exI [of _ s2] exI [of _ m2]) (simp add: s1(1) fresh_append k1 image_Un Un_assoc)
qed

text \<open>Over several audits every hash is reported at most once, and afterwards none is new.\<close>

lemma reported_once:
  assumes "seen s = Some m"
  shows "\<exists>new s'. run_looks look fss s = Ret (new, s') \<and> distinct (map hash new) \<and>
    hash ` set new = hash ` set (concat fss) - known_set (seen s) \<and>
    set new \<subseteq> set (concat fss) \<and>
    (\<forall>fs. set fs \<subseteq> set (concat fss) \<longrightarrow> (\<exists>s''. look fs s' = Ret ([], s'')))"
proof -
  let ?new = "fresh hash (known_set (seen s)) (concat fss)"
  from looks_report [OF assms, of fss] obtain s' m' where
    run: "run_looks look fss s = Ret (?new, s')" and m': "seen s' = Some m'"
    and k: "known_set (seen s') = known_set (seen s) \<union> hash ` set (concat fss)"
    by (elim exE conjE)
  have again: "\<exists>s''. look fs s' = Ret ([], s'')" if "set fs \<subseteq> set (concat fss)" for fs
  proof -
    have "fresh hash (known_set (seen s')) fs = []"
      using that unfolding k by (intro fresh_none) blast
    with look_reports [OF m', of fs] show ?thesis by auto
  qed
  show ?thesis
    by (rule exI [of _ ?new], rule exI [of _ s'])
      (use run again in \<open>simp add: fresh_distinct fresh_hashes fresh_subset del: set_concat\<close>)
qed

end

end
