(* ===== verification/Bridge.thy ===== *)
theory Bridge
  imports OpenHands
begin

text \<open>
  \<open>integrations/telegram/runtime/openhands.go\<close>: the execution bridge of the audit runtime to the
  OpenHands client. A bridge is a client that may be missing and two flags; the operations that
  set the client's repository return the changed bridge. Log lines, and the shortened task text
  made for them, have no effect on the results.
\<close>

section \<open>The bridge\<close>

record bridge =
  br_client :: "oh_client option"
  br_enabled :: bool
  br_ready :: bool

text \<open>The error result is always nil: a failure leaves a bridge that is not enabled or not ready.\<close>

definition new_openhands_bridge :: "'w net \<Rightarrow> environ \<Rightarrow> 'w \<Rightarrow> bridge res \<times> 'w" where
  "new_openhands_bridge N env w =
     (let b = \<lparr>br_client = None, br_enabled = False, br_ready = False\<rparr> in
      case new_client_from_env env of
        Inl e \<Rightarrow> (Inr b, w)
      | Inr c \<Rightarrow>
          (let b = b\<lparr>br_client := Some c, br_enabled := True\<rparr> in
           case validate_auth N c w of
             (Some e, w) \<Rightarrow> (Inr b, w)
           | (None, w) \<Rightarrow> (Inr (b\<lparr>br_ready := True\<rparr>), w)))"

definition br_is_authorized :: "bridge \<Rightarrow> bool" where
  "br_is_authorized b \<longleftrightarrow>
     br_enabled b \<and> br_ready b \<and>
     (case br_client b of None \<Rightarrow> False | Some c \<Rightarrow> is_authorized c)"

definition hourglass :: string where
  "hourglass = encode_rune 0x23F1 @ encode_rune 0xFE0F"

definition format_execution_result :: "execution_result \<Rightarrow> string" where
  "format_execution_result r =
     (if er_status r = ''COMPLETED'' then
        encode_rune 0x2705 @ '' Execution completed successfully'' @ nl @ nl @
        (if er_files r \<noteq> []
         then ''Files modified:'' @ nl @ concat (map (\<lambda>f. ''  - '' @ f @ nl) (er_files r)) @ nl
         else []) @
        (if er_output r \<noteq> [] then ''Output:'' @ nl @ er_output r else [])
      else if er_status r = ''FAILED'' \<or> er_status r = ''ERROR'' then
        encode_rune 0x274C @ '' Execution failed'' @ nl @ nl @
        (if er_error r \<noteq> [] then ''Error: '' @ er_error r @ nl else [])
      else if er_status r = ''TIMEOUT'' then hourglass @ '' Execution timed out'' @ nl
      else ''Status: '' @ er_status r @ nl)"

text \<open>\<open>truncate\<close> counts bytes.\<close>

definition truncate_bytes :: "string \<Rightarrow> nat \<Rightarrow> string" where
  "truncate_bytes s n = (if length s \<le> n then s else take n s @ ''...'')"

definition not_authorized :: string where
  "not_authorized = ''OpenHands execution not authorized''"

definition use_repository :: "string \<Rightarrow> oh_client \<Rightarrow> bridge \<Rightarrow> bridge" where
  "use_repository repo c b = b\<lparr>br_client := Some (c\<lparr>oh_repository := repo\<rparr>)\<rparr>"

definition br_execute ::
    "'w net \<Rightarrow> json_lib \<Rightarrow> string \<Rightarrow> string \<Rightarrow> bridge \<Rightarrow> 'w \<Rightarrow>
       (string res outcome \<times> bridge \<times> 'w) option" where
  "br_execute N L task repo b w =
     (if \<not> br_is_authorized b then Some (Ret (Inl not_authorized), b, w)
      else
        (let c = the (br_client b); b = use_repository repo c b in
         case dispatch N L (c\<lparr>oh_repository := repo\<rparr>) task (10 * minute) w of
           None \<Rightarrow> None
         | Some (Panic p, w) \<Rightarrow> Some (Panic p, b, w)
         | Some (Ret (Inl e), w) \<Rightarrow> Some (Ret (Inl (''dispatch failed: '' @ e)), b, w)
         | Some (Ret (Inr r), w) \<Rightarrow> Some (Ret (Inr (format_execution_result r)), b, w)))"

text \<open>The progress callback acts on the world.\<close>

definition execute_with_progress ::
    "'w net \<Rightarrow> json_lib \<Rightarrow> (string \<Rightarrow> 'w \<Rightarrow> 'w) \<Rightarrow> string \<Rightarrow> string \<Rightarrow> bridge \<Rightarrow> 'w \<Rightarrow>
       (string res outcome \<times> bridge \<times> 'w) option" where
  "execute_with_progress N L on_progress task repo b w =
     (if \<not> br_is_authorized b then Some (Ret (Inl not_authorized), b, w)
      else
        (let c = the (br_client b); b = use_repository repo c b; c = c\<lparr>oh_repository := repo\<rparr> in
         case start_execution N L c task w of
           (Inl e, w) \<Rightarrow> Some (Ret (Inl (''failed to start: '' @ e)), b, w)
         | (Inr r, w) \<Rightarrow>
             (case poll_execution N L c (er_task_id r) (10 * minute) (10 * second)
                     (on_progress (''Task started: '' @ er_task_id r) w) of
                None \<Rightarrow> None
              | Some (Panic p, w) \<Rightarrow> Some (Panic p, b, w)
              | Some (Ret (Inl e), w) \<Rightarrow> Some (Ret (Inl (''polling failed: '' @ e)), b, w)
              | Some (Ret (Inr r), w) \<Rightarrow> Some (Ret (Inr (format_execution_result r)), b, w))))"

definition br_get_status :: "bridge \<Rightarrow> string" where
  "br_get_status b =
     (if \<not> br_enabled b then ''disabled'' else if \<not> br_ready b then ''not_ready'' else ''ready'')"

definition br_get_base_url :: "bridge \<Rightarrow> string" where
  "br_get_base_url b = (case br_client b of None \<Rightarrow> [] | Some c \<Rightarrow> get_base_url c)"

section \<open>Start-up\<close>

definition init_openhands_runtime :: "'w net \<Rightarrow> environ \<Rightarrow> 'w \<Rightarrow> string \<times> 'w" where
  "init_openhands_runtime N env w =
     (case new_openhands_bridge N env w of
        (Inl e, w) \<Rightarrow> (''OpenHands runtime init error: '' @ e, w)
      | (Inr b, w) \<Rightarrow>
          (if \<not> br_enabled b then ''OpenHands runtime: credentials not configured''
           else if \<not> br_ready b then ''OpenHands runtime initialized (auth pending validation)''
           else ''OpenHands runtime initialized'' @ nl @ ''Execution runtime ready'' @ nl @
                ''Authenticated successfully'', w))"

record readiness =
  rd_connectivity :: string
  rd_execution :: string
  rd_authorization :: string

text \<open>\<open>http.Get\<close> with the default client; the body is closed unread.\<close>

definition connectivity :: "'w net \<Rightarrow> 'w \<Rightarrow> string \<times> 'w" where
  "connectivity N w =
     (case new_request N ''GET'' ''https://app.all-hands.dev/api/v1/status'' None of
        Inl e \<Rightarrow> (''failed'', w)
      | Inr req \<Rightarrow>
          (case http_do N req w of
             (Inl e, w) \<Rightarrow> (''failed'', w)
           | (Inr resp, w) \<Rightarrow> (if status_code resp < 500 then ''ok'' else ''error'', w)))"

definition check_openhands_readiness :: "'w net \<Rightarrow> environ \<Rightarrow> 'w \<Rightarrow> readiness \<times> 'w" where
  "check_openhands_readiness N env w =
     (case connectivity N w of
        (conn, w) \<Rightarrow>
          (let status = \<lparr>rd_connectivity = conn, rd_execution = ''unknown'',
                         rd_authorization = ''unknown''\<rparr> in
           case new_openhands_bridge N env w of
             (Inl e, w) \<Rightarrow>
               (status\<lparr>rd_execution := ''not_configured'', rd_authorization := ''not_configured''\<rparr>, w)
           | (Inr b, w) \<Rightarrow>
               (if \<not> br_enabled b
                then status\<lparr>rd_execution := ''not_configured'', rd_authorization := ''not_configured''\<rparr>
                else status\<lparr>rd_execution := ''configured'',
                            rd_authorization := (if br_is_authorized b then ''authorized''
                                                 else ''not_authorized'')\<rparr>, w)))"

section \<open>Authorization\<close>

lemma new_client_from_env_iff:
  "(\<exists>c. new_client_from_env env = Inr c) \<longleftrightarrow> getenv env ''OPENHANDS_API_KEY'' \<noteq> []"
  by (simp add: new_client_from_env_def new_client_def Let_def)

lemma new_client_key: "new_client_from_env env = Inr c \<Longrightarrow> is_authorized c"
  by (auto simp: new_client_from_env_def new_client_def is_authorized_def Let_def split: if_splits)

text \<open>
  The bridge of an environment: construction never fails; it is enabled exactly if there is a
  key, and authorized exactly if the service also accepts it, which is then what the readiness
  check and the start-up text say; an unauthorized bridge executes nothing and touches no world.
\<close>

theorem bridge_authorization:
  "\<exists>b w'. new_openhands_bridge N env w = (Inr b, w') \<and>
    br_enabled b = (getenv env ''OPENHANDS_API_KEY'' \<noteq> []) \<and>
    br_is_authorized b =
      (case new_client_from_env env of
         Inl e \<Rightarrow> False | Inr c \<Rightarrow> fst (validate_auth N c w) = None) \<and>
    (br_get_status b = ''ready'') = br_is_authorized b \<and>
    (rd_authorization (fst (check_openhands_readiness N env w0)) = ''authorized'') =
      br_is_authorized (projr (fst (new_openhands_bridge N env (snd (connectivity N w0))))) \<and>
    (br_is_authorized b \<or>
      br_execute N L task repo b v = Some (Ret (Inl not_authorized), b, v) \<and>
      execute_with_progress N L on_progress task repo b v = Some (Ret (Inl not_authorized), b, v))"
proof -
  have auth: "(rd_authorization (fst (check_openhands_readiness N env w0)) = ''authorized'') =
      br_is_authorized (projr (fst (new_openhands_bridge N env (snd (connectivity N w0)))))"
    by (auto simp: check_openhands_readiness_def new_openhands_bridge_def br_is_authorized_def Let_def
        split: prod.splits sum.splits option.splits)
  show ?thesis
  proof (cases "new_client_from_env env")
    case (Inl e)
    then have "getenv env ''OPENHANDS_API_KEY'' = []" using new_client_from_env_iff [of env] by auto
    with Inl auth show ?thesis
      by (simp add: new_openhands_bridge_def br_is_authorized_def br_get_status_def br_execute_def
          execute_with_progress_def)
  next
    case (Inr c)
    then have key: "getenv env ''OPENHANDS_API_KEY'' \<noteq> []" "is_authorized c"
      using new_client_from_env_iff [of env] new_client_key [of env c] by auto
    obtain e w' where v: "validate_auth N c w = (e, w')" by (cases "validate_auth N c w")
    from Inr key v auth show ?thesis
      by (cases e) (simp_all add: new_openhands_bridge_def br_is_authorized_def br_get_status_def
          br_execute_def execute_with_progress_def)
  qed
qed

section \<open>Execution\<close>

text \<open>Whatever its status, only a failed result shows its error text.\<close>

lemma error_text_shown:
  "er_status r \<notin> {''FAILED'', ''ERROR''} \<Longrightarrow>
     format_execution_result (r\<lparr>er_error := e\<rparr>) = format_execution_result r"
  by (simp add: format_execution_result_def)

lemma final_text:
  "execution_final r \<Longrightarrow> \<exists>r'. execution_final r' \<and> format_execution_result r = format_execution_result r' \<and>
     (er_status r' = ''FAILED'' \<or> er_status r' = ''ERROR'' \<or>
      (\<forall>e. format_execution_result (r'\<lparr>er_error := e\<rparr>) = format_execution_result r))"
  using error_text_shown by (intro exI [of _ r]) auto

lemma execution_text_nonempty: "format_execution_result r \<noteq> []"
  by (simp add: format_execution_result_def hourglass_def)

text \<open>
  How the bridge presents an outcome of the client (\<open>stage\<close> names where an error came from), and
  what an answer of the bridge is: the text of a final result, an error of one of the stages, or
  the client's one panic with its cause.
\<close>

definition presented :: "string \<Rightarrow> execution_result res outcome \<Rightarrow> string res outcome" where
  "presented stage x =
     (case x of
        Panic p \<Rightarrow> Panic p
      | Ret (Inl e) \<Rightarrow> Ret (Inl (stage @ e))
      | Ret (Inr r) \<Rightarrow> Ret (Inr (format_execution_result r)))"

definition bridge_answers ::
    "'w net \<Rightarrow> json_lib \<Rightarrow> bridge \<Rightarrow> string list \<Rightarrow> string res outcome \<Rightarrow> bool" where
  "bridge_answers N L b stages x \<longleftrightarrow>
     (case x of
        Ret (Inr t) \<Rightarrow> \<exists>r. execution_final r \<and> t = format_execution_result r \<and>
          (er_status r \<in> {''FAILED'', ''ERROR''} \<or>
           (\<forall>e. format_execution_result (r\<lparr>er_error := e\<rparr>) = t))
      | Ret (Inl e) \<Rightarrow> list_ex (\<lambda>s. prefix s e) stages
      | Panic p \<Rightarrow> p = slice_panic \<and>
          (\<exists>c task_id v. br_client b = Some c \<and> titled_short N L c task_id v))"

lemma presented_answers:
  assumes "\<forall>r. x = Ret (Inr r) \<longrightarrow> execution_final r" and "stage \<in> set stages"
    and "\<And>p. x = Panic p \<Longrightarrow> p = slice_panic \<and>
      (\<exists>c task_id v. br_client b = Some c \<and> titled_short N L c task_id v)"
  shows "bridge_answers N L b stages (presented stage x)"
proof (cases x)
  case (Panic p)
  with assms(3) show ?thesis by (simp add: bridge_answers_def presented_def)
next
  case (Ret y)
  show ?thesis
  proof (cases y)
    case (Inl e)
    with Ret assms(2) show ?thesis
      by (auto simp: bridge_answers_def presented_def list_ex_iff intro: bexI [of _ stage])
  next
    case (Inr r)
    with Ret assms(1) show ?thesis
      using error_text_shown [of r] by (auto simp: bridge_answers_def presented_def)
  qed
qed

lemma br_execute_answers:
  assumes "clock_ok N" and "br_is_authorized b" and c: "br_client b = Some c"
  shows "\<exists>x w'. br_execute N L task repo b w = Some (x, use_repository repo c b, w') \<and>
    bridge_answers N L (use_repository repo c b) [''dispatch failed: ''] x"
proof -
  let ?c = "c\<lparr>oh_repository := repo\<rparr>"
  obtain x w1 where d: "dispatch N L ?c task (10 * minute) w = Some (x, w1)"
    and x: "\<forall>r. x = Ret (Inr r) \<longrightarrow> execution_final r" "only_slice_panic N L ?c x"
    using dispatch_returns [OF assms(1)] by blast
  have "br_execute N L task repo b w =
      Some (presented ''dispatch failed: '' x, use_repository repo c b, w1)"
    using assms(2) c d by (simp add: br_execute_def presented_def split: outcome.splits sum.splits)
  moreover have "bridge_answers N L (use_repository repo c b) [''dispatch failed: '']
      (presented ''dispatch failed: '' x)"
  proof (rule presented_answers [OF x(1)])
    show "p = slice_panic \<and> (\<exists>c' task_id v. br_client (use_repository repo c b) = Some c' \<and>
        titled_short N L c' task_id v)" if "x = Panic p" for p
      using x(2) that unfolding use_repository_def by fastforce
  qed simp
  ultimately show ?thesis by blast
qed

lemma execute_with_progress_answers:
  assumes "clock_ok N" and "br_is_authorized b" and c: "br_client b = Some c"
  shows "\<exists>x w'. execute_with_progress N L on_progress task repo b w =
      Some (x, use_repository repo c b, w') \<and>
    bridge_answers N L (use_repository repo c b) [''failed to start: '', ''polling failed: ''] x"
proof -
  let ?c = "c\<lparr>oh_repository := repo\<rparr>"
  obtain y w2 where start: "start_execution N L ?c task w = (y, w2)" by fastforce
  show ?thesis
  proof (cases y)
    case (Inl e)
    with start assms(2) c show ?thesis by (simp add: execute_with_progress_def bridge_answers_def)
  next
    case (Inr r)
    have sec: "0 < 10 * second" by (simp add: second_def)
    obtain z w3 where p: "poll_execution N L ?c (er_task_id r)
        (10 * minute) (10 * second) (on_progress (''Task started: '' @ er_task_id r) w2) = Some (z, w3)"
      and z: "polled N L ?c (er_task_id r) (10 * minute) z w3"
      using poll_execution_polled [OF assms(1) sec] by blast
    have "execute_with_progress N L on_progress task repo b w =
        Some (presented ''polling failed: '' z, use_repository repo c b, w3)"
      using start Inr p assms(2) c
      by (simp add: execute_with_progress_def presented_def split: outcome.splits sum.splits)
    moreover have "bridge_answers N L (use_repository repo c b) [''failed to start: '', ''polling failed: '']
        (presented ''polling failed: '' z)"
    proof (rule presented_answers)
      show "\<forall>r. z = Ret (Inr r) \<longrightarrow> execution_final r" using z by (auto dest: polled_final)
      show "p = slice_panic \<and> (\<exists>c' task_id v. br_client (use_repository repo c b) = Some c' \<and>
          titled_short N L c' task_id v)" if "z = Panic p" for p
        using polled_panic [of N L ?c] z that unfolding use_repository_def by fastforce
    qed simp
    ultimately show ?thesis by blast
  qed
qed

text \<open>
  C38. An authorized bridge always comes to an answer: both forms of execution end for every task and
  service, with the repository set on the client and the bridge still authorized; an error names the
  stage it came from, and a text is that of a final result, the error text of which is shown only
  if the status is FAILED or ERROR. The one exception is the client's panic, and it has its one
  cause: the service answers the bridge's client, for a polled task, with a READY task whose
  conversation has an identifier of fewer than eight bytes and a title.
\<close>

theorem bridge_execution_returns:
  assumes "clock_ok N" and "br_is_authorized b"
  shows "(\<exists>x b' w'. br_execute N L task repo b w = Some (x, b', w') \<and>
      map_option oh_repository (br_client b') = Some repo \<and> br_is_authorized b' \<and>
      bridge_answers N L b' [''dispatch failed: ''] x) \<and>
    (\<exists>x b' w'. execute_with_progress N L on_progress task repo b w = Some (x, b', w') \<and>
      map_option oh_repository (br_client b') = Some repo \<and> br_is_authorized b' \<and>
      bridge_answers N L b' [''failed to start: '', ''polling failed: ''] x)"
proof -
  from assms(2) obtain c where c: "br_client b = Some c"
    by (auto simp: br_is_authorized_def split: option.splits)
  let ?b = "use_repository repo c b"
  have "map_option oh_repository (br_client ?b) = Some repo" "br_is_authorized ?b"
    using assms(2) c by (simp_all add: br_is_authorized_def use_repository_def is_authorized_def)
  then show ?thesis
    using br_execute_answers [OF assms c, of L task repo w]
      execute_with_progress_answers [OF assms c, of L on_progress task repo w] by blast
qed

theorem bridge_execution_returns_witness:
  "\<exists>x b' w'. br_execute (answering (\<lambda>_. Inl ''refused'')) (scan_table []) ''fix'' ''o/r2''
      \<lparr>br_client = Some sample_client, br_enabled = True, br_ready = True\<rparr> 0 = Some (x, b', w') \<and>
    map_option oh_repository (br_client b') = Some ''o/r2'' \<and> br_is_authorized b'"
proof -
  have "br_is_authorized \<lparr>br_client = Some sample_client, br_enabled = True, br_ready = True\<rparr>"
    by (simp add: br_is_authorized_def is_authorized_def sample_client_def)
  from bridge_execution_returns [OF clock_ok_answering this, of "\<lambda>_. Inl ''refused''" "scan_table []"
      "''fix''" "''o/r2''" 0]
  show ?thesis by blast
qed

text \<open>
  The two forms differ on a start without a task identifier: one refuses it, the other polls for it.
\<close>

lemma empty_task_id:
  assumes "br_is_authorized b" and "br_client b = Some c"
    and "start_execution N L (c\<lparr>oh_repository := repo\<rparr>) task w = (Inr r, w1)" and "er_task_id r = []"
  shows "br_execute N L task repo b w =
      Some (Ret (Inl ''dispatch failed: no task ID returned''), use_repository repo c b, w1)"
    and "poll_execution N L (c\<lparr>oh_repository := repo\<rparr>) [] (10 * minute) (10 * second)
           (on_progress ''Task started: '' w1) = Some (Ret (Inr r'), w2) \<Longrightarrow>
         execute_with_progress N L on_progress task repo b w =
           Some (Ret (Inr (format_execution_result r')), use_repository repo c b, w2)"
  using assms
  by (simp_all add: br_execute_def execute_with_progress_def dispatch_def use_repository_def)

end
