(* ===== verification/Runtime.thy ===== *)
theory Runtime
  imports Findings Bridge
begin

text \<open>
  \<open>integrations/telegram/runtime/main.go\<close>: the audit runtime. Every five minutes it runs the
  auditor, reports the findings it has not seen before, acts on each by its risk class, and
  saves its state to a file that is read back at the next start.

  Only the loop of \<open>runContinuousLoop\<close> runs audits, one at a time, so an audit is one step of the
  state; a panic leaves the state it had reached. \<open>handleUpdate\<close>, which would start another audit
  beside the loop, is called by nothing in the sources; Runtime_Threads has audits at once.
\<close>

section \<open>State\<close>

record runtime_state =
  rs_last_audit :: int
  rs_last_notification :: int
  rs_findings :: int
  rs_new :: int
  rs_activity :: string
  rs_known :: "(string, bool) gomap option"
  rs_running :: bool

definition zero_runtime :: runtime_state where
  "zero_runtime = \<lparr>rs_last_audit = 0, rs_last_notification = 0, rs_findings = 0, rs_new = 0,
     rs_activity = [], rs_known = None, rs_running = False\<rparr>"

definition project_dir :: string where "project_dir = ''/workspace/project/SMART-WORKER''"

definition auditors_path :: string where "auditors_path = project_dir @ ''/agents/auditor/run.sh''"

definition executor_path :: string where "executor_path = project_dir @ ''/agents/executor/run.sh''"

definition state_file :: string where "state_file = ''/tmp/runtime_state.json''"

definition finding_file :: string where "finding_file = ''/tmp/executor_finding.json''"

section \<open>The state file\<close>

definition state_json :: "'w host \<Rightarrow> runtime_state \<Rightarrow> json option" where
  "state_json H s =
     (case (time_json H (rs_last_audit s), time_json H (rs_last_notification s)) of
        (Some audit, Some note) \<Rightarrow>
          Some (JObj [(''last_audit_run'', audit), (''last_notification'', note),
            (''findings_count'', JNum (show_int (rs_findings s))),
            (''new_findings_count'', JNum (show_int (rs_new s))),
            (''executor_activity'', jtext (rs_activity s)),
            (''known_findings'', bool_map_json (rs_known s)),
            (''is_running'', JBool (rs_running s))])
      | _ \<Rightarrow> None)"

definition save_state :: "'w host \<Rightarrow> runtime_state \<Rightarrow> 'w \<Rightarrow> 'w" where
  "save_state H s w =
     (case state_json H s of
        None \<Rightarrow> w
      | Some j \<Rightarrow> h_write H state_file (h_render H j) w)"

definition runtime_fields :: "string list" where
  "runtime_fields = [''last_audit_run'', ''last_notification'', ''findings_count'',
     ''new_findings_count'', ''executor_activity'', ''known_findings'', ''is_running'']"

definition set_runtime_field :: "'w host \<Rightarrow> string \<Rightarrow> runtime_state tdecoder" where
  "set_runtime_field H n v s =
     (if n = ''last_audit_run'' then
        (case tdec_time H v (rs_last_audit s) of (x, e) \<Rightarrow> (s\<lparr>rs_last_audit := x\<rparr>, e))
      else if n = ''last_notification'' then
        (case tdec_time H v (rs_last_notification s) of (x, e) \<Rightarrow> (s\<lparr>rs_last_notification := x\<rparr>, e))
      else if n = ''findings_count'' then
        (case plain dec_int v (rs_findings s) of (x, e) \<Rightarrow> (s\<lparr>rs_findings := x\<rparr>, e))
      else if n = ''new_findings_count'' then
        (case plain dec_int v (rs_new s) of (x, e) \<Rightarrow> (s\<lparr>rs_new := x\<rparr>, e))
      else if n = ''executor_activity'' then
        (case plain dec_string v (rs_activity s) of (x, e) \<Rightarrow> (s\<lparr>rs_activity := x\<rparr>, e))
      else if n = ''known_findings'' then
        (case plain dec_bool_map v (rs_known s) of (x, e) \<Rightarrow> (s\<lparr>rs_known := x\<rparr>, e))
      else (case plain dec_bool v (rs_running s) of (x, e) \<Rightarrow> (s\<lparr>rs_running := x\<rparr>, e)))"

text \<open>The error of the decoding is dropped: what was decoded before it stays.\<close>

definition load_state :: "'w host \<Rightarrow> json_lib \<Rightarrow> runtime_state \<Rightarrow> 'w \<Rightarrow> runtime_state" where
  "load_state H L s w =
     (case h_read H state_file w of
        Inl e \<Rightarrow> s
      | Inr data \<Rightarrow> fst (tunmarshal L (tdec_struct (set_runtime_field H) runtime_fields) data s))"

definition start_runtime :: "'w host \<Rightarrow> json_lib \<Rightarrow> 'w \<Rightarrow> runtime_state" where
  "start_runtime H L w = load_state H L (zero_runtime\<lparr>rs_known := Some [], rs_running := True\<rparr>) w"

section \<open>Findings\<close>

definition generate_finding_hash :: "jmap \<Rightarrow> string" where
  "generate_finding_hash f =
     jstring f ''title'' @ ''|'' @ jstring f ''severity'' @ ''|'' @ jstring f ''evidence''"

fun find_new_findings :: "jmap list \<Rightarrow> runtime_state \<Rightarrow> (jmap list \<times> runtime_state) outcome" where
  "find_new_findings [] s = Ret ([], s)"
| "find_new_findings (f # fs) s =
     (let hash = generate_finding_hash f in
      if known (rs_known s) hash then find_new_findings fs s
      else
        (case rs_known s of
           None \<Rightarrow> Panic nil_map_entry
         | Some m \<Rightarrow>
             obind (find_new_findings fs (s\<lparr>rs_known := Some (put hash True m)\<rparr>)) (\<lambda>(new, s').
               Ret (f # new, s'))))"

definition load_findings :: "'w host \<Rightarrow> json_lib \<Rightarrow> 'w \<Rightarrow> jmap list outcome" where
  "load_findings H L w =
     (case h_dir H ''/tmp'' w of
        None \<Rightarrow> Ret []
      | Some files \<Rightarrow>
          obind (newest_entry files ([], 0)) (\<lambda>(latest, _).
            if latest = [] then Ret []
            else
              (case h_read H latest w of
                 Inl e \<Rightarrow> Ret []
               | Inr data \<Rightarrow> Ret (decode_findings L data))))"

definition high_risk_keywords :: "string list" where
  "high_risk_keywords = [''auth'', ''payment'', ''runtime'', ''core'', ''architecture'', ''schema'',
     ''infra'', ''security'']"

definition low_risk_keywords :: "string list" where
  "low_risk_keywords = [''lint'', ''import'', ''unused'', ''nil'', ''log'', ''build'']"

definition classify_risk :: "unicode_tables \<Rightarrow> jmap \<Rightarrow> string" where
  "classify_risk u f =
     (let title = to_lower u (jstring f ''title''); content = to_lower u (jstring f ''content'');
          severity = jstring f ''severity'' in
      if list_ex (\<lambda>kw. contains title kw \<or> contains content kw) high_risk_keywords then ''high''
      else if severity = ''critical'' \<or> severity = ''high'' then ''high''
      else if list_ex (contains title) low_risk_keywords then ''low''
      else ''medium'')"

section \<open>Acting\<close>

text \<open>\<open>var id int64; fmt.Sscanf(chatID, "%d", &id)\<close>: a text that is no number is chat 0.\<close>

definition send_alert :: "'w host \<Rightarrow> environ \<Rightarrow> string \<Rightarrow> 'w \<Rightarrow> 'w" where
  "send_alert H env msg w =
     (let chat_id = getenv env ''TELEGRAM_CHAT_ID'' in
      if chat_id \<noteq> []
      then h_send H (case sscan_int chat_id of Some n \<Rightarrow> n | None \<Rightarrow> 0) ''Markdown'' msg w
      else w)"

definition trigger_executor ::
    "'w host \<Rightarrow> environ \<Rightarrow> unicode_tables \<Rightarrow> jmap \<Rightarrow> runtime_state \<times> 'w \<Rightarrow> runtime_state \<times> 'w" where
  "trigger_executor H env u f = (\<lambda>(s, w).
     (let title = jstring f ''title'';
          risk = classify_risk u f;
          s = s\<lparr>rs_activity := ''processing: '' @ title\<rparr>;
          w = (if risk = ''low'' then
                 (case h_run H [''bash'', executor_path, ''-f'', finding_file] project_dir
                         (h_write H finding_file (h_render H (canonical (JObj f))) w) of
                    ((out, Some e), w) \<Rightarrow>
                      send_alert H env
                        (''Executor failed for '' @ squote @ title @ squote @ '': '' @ e @ nl @ out) w
                  | ((out, None), w) \<Rightarrow>
                      send_alert H env (check_mark @ '' Executor applied fix for: '' @ title) w)
               else if risk = ''medium'' then
                 send_alert H env
                   (lock_sign @ '' MEDIUM RISK: '' @ title @ nl @ ''Requires approval'') w
               else if risk = ''high'' then
                 send_alert H env
                   (no_entry @ '' HIGH RISK: '' @ title @ nl @ ''BLOCKED - manual review required'') w
               else w)
      in (s\<lparr>rs_activity := ''idle''\<rparr>, w)))"

definition finding_block :: "unicode_tables \<Rightarrow> jmap \<Rightarrow> string" where
  "finding_block u f =
     (let risk = classify_risk u f;
          evidence = jstring f ''evidence'';
          emoji = (if risk = ''high'' then red else if risk = ''low'' then green else yellow)
      in emoji @ '' *'' @ jstring f ''title'' @ ''*'' @ nl @
         ''Severity: '' @ jstring f ''severity'' @ '' | Risk: '' @ risk @ nl @
         (if evidence \<noteq> [] then ''Evidence: '' @ evidence @ nl else []) @ nl)"

text \<open>The loop: \<open>n\<close> is the number of findings, \<open>i\<close> the index, and index 4 is the last shown.\<close>

fun notification_loop :: "unicode_tables \<Rightarrow> int \<Rightarrow> int \<Rightarrow> jmap list \<Rightarrow> string" where
  "notification_loop u n i [] = []"
| "notification_loop u n i (f # fs) =
     finding_block u f @
     (if 4 \<le> i then ''... and '' @ show_int (n - 4) @ '' more'' else notification_loop u n (i + 1) fs)"

definition format_findings_notification :: "unicode_tables \<Rightarrow> jmap list \<Rightarrow> string" where
  "format_findings_notification u fs =
     bell @ '' *NEW FINDINGS DETECTED*'' @ nl @ nl @ notification_loop u (int (length fs)) 0 fs"

section \<open>The audit\<close>

definition notify_and_trigger ::
    "'w host \<Rightarrow> environ \<Rightarrow> unicode_tables \<Rightarrow> jmap list \<Rightarrow> runtime_state \<times> 'w \<Rightarrow> runtime_state \<times> 'w" where
  "notify_and_trigger H env u new = (\<lambda>(s, w).
     if new = [] then (s, w)
     else
       (case h_now H (send_alert H env (format_findings_notification u new) w) of
          (now, w) \<Rightarrow> fold (trigger_executor H env u) new (s\<lparr>rs_last_notification := now\<rparr>, w)))"

definition run_scheduled_audit ::
    "'w host \<Rightarrow> environ \<Rightarrow> json_lib \<Rightarrow> unicode_tables \<Rightarrow> runtime_state \<Rightarrow> 'w \<Rightarrow>
       unit outcome \<times> runtime_state \<times> 'w" where
  "run_scheduled_audit H env L u s w =
     (case h_now H w of (now, w) \<Rightarrow>
        (let s = s\<lparr>rs_last_audit := now, rs_new := 0\<rparr> in
         case h_run H [''bash'', auditors_path] project_dir w of
           ((out, Some e), w) \<Rightarrow>
             (Ret (), s, send_alert H env (''Auditor failed: '' @ e @ nl @ out) w)
         | ((out, None), w) \<Rightarrow>
             (case load_findings H L w of
                Panic p \<Rightarrow> (Panic p, s, w)
              | Ret fs \<Rightarrow>
                  (let s = s\<lparr>rs_findings := int (length fs)\<rparr> in
                   case find_new_findings fs s of
                     Panic p \<Rightarrow> (Panic p, s, w)
                   | Ret (new, s) \<Rightarrow>
                       (case notify_and_trigger H env u new
                               (s\<lparr>rs_new := int (length new), rs_findings := int (length fs)\<rparr>, w) of
                          (s, w) \<Rightarrow> (Ret (), s, save_state H s w))))))"

section \<open>The program\<close>

text \<open>
  \<open>main\<close> up to its loop. The start-up text and the readiness are only logged, but their requests are
  made; \<open>loadEnv\<close> only logs. Without a token, or when Telegram refuses it (\<open>new_bot\<close>, as in Bot),
  the process ends: no state.
\<close>

definition runtime_main ::
    "'w net \<Rightarrow> 'w host \<Rightarrow> json_lib \<Rightarrow> (string \<Rightarrow> goerr option) \<Rightarrow> environ \<Rightarrow> 'w \<Rightarrow>
       runtime_state option \<times> 'w" where
  "runtime_main N H L new_bot env w =
     (case init_openhands_runtime N env w of
        (_, w) \<Rightarrow>
          (case check_openhands_readiness N env w of
             (_, w) \<Rightarrow>
               (let token = getenv env ''TELEGRAM_BOT_TOKEN'' in
                if token = [] then (None, w)
                else if new_bot token \<noteq> None then (None, w)
                else (Some (start_runtime H L w), w))))"

text \<open>The loop over the first \<open>n\<close> ticks; a panic ends the process.\<close>

fun run_continuous_loop ::
    "'w host \<Rightarrow> environ \<Rightarrow> json_lib \<Rightarrow> unicode_tables \<Rightarrow> nat \<Rightarrow> runtime_state \<Rightarrow> 'w \<Rightarrow>
       unit outcome \<times> runtime_state \<times> 'w" where
  "run_continuous_loop H env L u 0 s w = (Ret (), s, w)"
| "run_continuous_loop H env L u (Suc n) s w =
     (case run_scheduled_audit H env L u s w of
        (Panic p, s, w) \<Rightarrow> (Panic p, s, w)
      | (Ret _, s, w) \<Rightarrow> run_continuous_loop H env L u n s w)"

section \<open>Commands\<close>

text \<open>
  \<open>handleUpdate\<close> on a command the Telegram library has cut out of the message; the second result
  says whether an audit is started beside it.
\<close>

definition runtime_status_line :: string where
  "runtime_status_line = '' Runtime Status'' @ nl @ nl"

definition show_bool :: "bool \<Rightarrow> string" where
  "show_bool b = (if b then ''true'' else ''false'')"

definition update_reply :: "'w host \<Rightarrow> runtime_state \<Rightarrow> string \<Rightarrow> string \<times> bool" where
  "update_reply H s command =
     (if command = ''run-audit'' then (encode_rune 0x1F504 @ '' Running audit...'', True)
      else if command = ''findings'' then
        (encode_rune 0x1F4CA @ runtime_status_line @
         ''Last Audit: '' @ h_short_time H (rs_last_audit s) @ nl @
         ''Findings: '' @ show_int (rs_findings s) @ nl @ ''New: '' @ show_int (rs_new s) @ nl @
         ''Last Notification: '' @ h_short_time H (rs_last_notification s), False)
      else if command = ''status'' then
        (encode_rune 0x26A1 @ runtime_status_line @
         ''Running: '' @ show_bool (rs_running s) @ nl @
         ''Last Audit: '' @ h_short_time H (rs_last_audit s) @ nl @
         ''Executor: '' @ rs_activity s, False)
      else if command = ''executor-status'' then
        (encode_rune 0x1F916 @ '' Executor Status'' @ nl @ nl @
         ''Activity: '' @ rs_activity s @ nl @
         ''Last Run: '' @ h_short_time H (rs_last_audit s), False)
      else if command = ''help'' then
        (''Commands:'' @ nl @ ''/run-audit - Run audit now'' @ nl @ ''/findings - Show findings'' @ nl @
         ''/status - Runtime status'' @ nl @ ''/executor-status - Executor activity'' @ nl @
         ''/help - Show this help'', False)
      else (''Unknown command. Use /help'', False))"

definition get_runtime_state :: "runtime_state \<Rightarrow> runtime_state" where
  "get_runtime_state s = s"

definition handle_update ::
    "'w host \<Rightarrow> runtime_state \<Rightarrow> (int \<times> string) option \<Rightarrow> 'w \<Rightarrow> 'w \<times> bool" where
  "handle_update H s message w =
     (case message of
        None \<Rightarrow> (w, False)
      | Some (chat, command) \<Rightarrow>
          (case update_reply H (get_runtime_state s) command of
             (text, audit) \<Rightarrow> (h_send H chat [] text w, audit)))"

section \<open>The tracker keeps its contract\<close>

interpretation rt: finding_tracker generate_finding_hash find_new_findings rs_known
proof
  fix f :: jmap and fs :: "jmap list" and s :: runtime_state and m :: "(string, bool) gomap"
  show "find_new_findings [] s = Ret ([], s)" by simp
  show "find_new_findings (f # fs) s = find_new_findings fs s"
    if "known (rs_known s) (generate_finding_hash f)" using that by simp
  show "find_new_findings (f # fs) s = Panic nil_map_entry" if "rs_known s = None"
    using that by (simp add: known_def)
  show "\<exists>s'. rs_known s' = Some (put (generate_finding_hash f) True m) \<and>
      find_new_findings (f # fs) s = obind (find_new_findings fs s') (\<lambda>(new, s''). Ret (f # new, s''))"
    if "\<not> known (rs_known s) (generate_finding_hash f)" "rs_known s = Some m"
    using that by (intro exI [of _ "s\<lparr>rs_known := Some (put (generate_finding_hash f) True m)\<rparr>"]) simp
qed

text \<open>
  C12. No finding is reported twice: over any number of audits the reports carry pairwise distinct
  hashes, exactly the hashes loaded that the state did not know before, every report is one of
  the loaded findings, and whatever was loaded is not new afterwards. This needs the table of
  known findings not to be nil.
\<close>

theorem each_finding_reported_once:
  assumes "rs_known s = Some m"
  shows "\<exists>new s'. run_looks find_new_findings fss s = Ret (new, s') \<and>
    distinct (map generate_finding_hash new) \<and>
    generate_finding_hash ` set new =
      generate_finding_hash ` set (concat fss) - known_set (rs_known s) \<and>
    set new \<subseteq> set (concat fss) \<and>
    (\<forall>fs. set fs \<subseteq> set (concat fss) \<longrightarrow> (\<exists>s''. find_new_findings fs s' = Ret ([], s'')))"
  by (rule rt.reported_once [OF assms])

section \<open>Risk classes\<close>

text \<open>
  C18. The risk gate. A finding is of low risk exactly if its title, in lower case, holds one of six
  substrings, its severity is not literally critical or high, and neither title nor content
  holds one of eight others; only then is the finding written to the executor's file and the
  executor run, and in every case one alert is sent at most. The witness: a login bypass of
  severity CRITICAL is fixed automatically, because login holds log.
\<close>

theorem risk_gate:
  "(classify_risk u f = ''low'' \<longleftrightarrow>
      (\<exists>kw \<in> set low_risk_keywords. contains (to_lower u (jstring f ''title'')) kw) \<and>
      jstring f ''severity'' \<notin> {''critical'', ''high''} \<and>
      (\<forall>kw \<in> set high_risk_keywords. \<not> contains (to_lower u (jstring f ''title'')) kw \<and>
         \<not> contains (to_lower u (jstring f ''content'')) kw)) \<and>
   (\<exists>msg. trigger_executor H env u f (s, w) =
      (s\<lparr>rs_activity := ''idle''\<rparr>,
       send_alert H env msg
         (if classify_risk u f = ''low''
          then snd (h_run H [''bash'', executor_path, ''-f'', finding_file] project_dir
                      (h_write H finding_file (h_render H (canonical (JObj f))) w))
          else w)))"
proof -
  have low: "classify_risk u f = ''low'' \<longleftrightarrow>
      (\<exists>kw \<in> set low_risk_keywords. contains (to_lower u (jstring f ''title'')) kw) \<and>
      jstring f ''severity'' \<notin> {''critical'', ''high''} \<and>
      (\<forall>kw \<in> set high_risk_keywords. \<not> contains (to_lower u (jstring f ''title'')) kw \<and>
         \<not> contains (to_lower u (jstring f ''content'')) kw)"
    by (auto simp: classify_risk_def Let_def list_ex_iff)
  have "classify_risk u f \<in> {''low'', ''medium'', ''high''}"
    by (simp add: classify_risk_def Let_def)
  then show ?thesis
    by (intro conjI low)
      (auto simp: trigger_executor_def Let_def split: prod.splits option.splits)
qed

definition login_finding :: jmap where
  "login_finding = [(''title'', JStr ''Login bypass''), (''severity'', JStr ''CRITICAL''),
     (''evidence'', JStr ''api.go'')]"

definition chat_env :: environ where
  "chat_env k = (if k = ''TELEGRAM_CHAT_ID'' then Some ''42'' else None)"

theorem risk_gate_witness:
  "classify_risk ascii_tables login_finding = ''low'' \<and>
   (\<exists>msg. trigger_executor (desk (\<lambda>_. []) (\<lambda>_. ([], None))) chat_env ascii_tables login_finding
        (zero_runtime, quiet_machine) =
      (zero_runtime\<lparr>rs_activity := ''idle''\<rparr>,
       send_alert (desk (\<lambda>_. []) (\<lambda>_. ([], None))) chat_env msg
         (snd (h_run (desk (\<lambda>_. []) (\<lambda>_. ([], None)))
            [''bash'', executor_path, ''-f'', finding_file] project_dir
            (h_write (desk (\<lambda>_. []) (\<lambda>_. ([], None))) finding_file [] quiet_machine)))))"
proof -
  have "classify_risk ascii_tables login_finding = ''low''" by code_simp
  with risk_gate [of ascii_tables login_finding "desk (\<lambda>_. []) (\<lambda>_. ([], None))" chat_env
      zero_runtime quiet_machine]
  show ?thesis by (simp add: desk_def)
qed

lemma notification_loop_take:
  "0 \<le> i \<Longrightarrow> i \<le> 4 \<Longrightarrow> notification_loop u n i fs =
     concat (map (finding_block u) (take (5 - nat i) fs)) @
     (if 5 - nat i \<le> length fs \<and> fs \<noteq> [] then ''... and '' @ show_int (n - 4) @ '' more'' else [])"
proof (induction fs arbitrary: i)
  case Nil
  then show ?case by simp
next
  case (Cons f fs)
  show ?case
  proof (cases "4 \<le> i")
    case True
    then show ?thesis using Cons.prems by (auto simp: nat_add_distrib)
  next
    case False
    then have "5 - nat i = Suc (5 - nat (i + 1))" using Cons.prems by simp
    moreover have "0 < 5 - nat (i + 1)" using False Cons.prems by simp
    ultimately show ?thesis using False Cons by (auto simp: nat_add_distrib)
  qed
qed


section \<open>Audits\<close>

lemma notify_nothing [simp]: "notify_and_trigger H env u [] sw = sw"
  by (cases sw) (simp add: notify_and_trigger_def)

lemma trigger_known: "rs_known (fst (trigger_executor H env u f sw)) = rs_known (fst sw)"
  by (cases sw) (simp add: trigger_executor_def Let_def)

lemma triggers_known: "rs_known (fst (fold (trigger_executor H env u) fs sw)) = rs_known (fst sw)"
  by (induction fs arbitrary: sw) (simp_all add: trigger_known)

lemma notify_known: "rs_known (fst (notify_and_trigger H env u new sw)) = rs_known (fst sw)"
  by (cases sw) (simp add: notify_and_trigger_def triggers_known split: prod.splits)

text \<open>An audit whose auditor succeeds, from what its tracker reports.\<close>

lemma audit_runs:
  assumes "h_now H w = (now, w1)"
    and "h_run H [''bash'', auditors_path] project_dir w1 = ((out, None), w2)"
    and "load_findings H L w2 = Ret fs"
    and "find_new_findings fs (s\<lparr>rs_last_audit := now, rs_new := 0, rs_findings := int (length fs)\<rparr>) =
           Ret (new, s1)"
  shows "run_scheduled_audit H env L u s w =
    (case notify_and_trigger H env u new
            (s1\<lparr>rs_new := int (length new), rs_findings := int (length fs)\<rparr>, w2) of
       (s2, w3) \<Rightarrow> (Ret (), s2, save_state H s2 w3))"
  using assms by (simp add: run_scheduled_audit_def Let_def)

lemma find_new_known:
  "\<forall>f \<in> set fs. known (rs_known s) (generate_finding_hash f) \<Longrightarrow> find_new_findings fs s = Ret ([], s)"
  by (induction fs) simp_all

text \<open>
  An audit settles its findings: when a first audit loaded some findings and the next one loads
  no others, the second sends no alert and runs no executor; it runs the auditor, counts no
  new finding and saves the state.
\<close>

theorem second_audit_quiet:
  assumes "rs_known s = Some m"
    and "h_now H w = (now, w1)"
    and "h_run H [''bash'', auditors_path] project_dir w1 = ((out, None), w2)"
    and "load_findings H L w2 = Ret fs"
    and "run_scheduled_audit H env L u s w = (x, s', w')"
    and "h_now H w' = (now', w3)"
    and "h_run H [''bash'', auditors_path] project_dir w3 = ((out', None), w4)"
    and "load_findings H L w4 = Ret gs" and "set gs \<subseteq> set fs"
  shows "run_scheduled_audit H env L u s' w' =
    (Ret (), s'\<lparr>rs_last_audit := now', rs_new := 0, rs_findings := int (length gs)\<rparr>,
     save_state H (s'\<lparr>rs_last_audit := now', rs_new := 0, rs_findings := int (length gs)\<rparr>) w4)"
proof -
  let ?s = "s\<lparr>rs_last_audit := now, rs_new := 0, rs_findings := int (length fs)\<rparr>"
  have "rs_known ?s = Some m" using assms(1) by simp
  from rt.look_reports [OF this, of fs] obtain new s1 where
    new: "find_new_findings fs ?s = Ret (new, s1)"
    and k: "known_set (rs_known s1) = known_set (rs_known ?s) \<union> generate_finding_hash ` set fs"
    by blast
  have "s' = fst (notify_and_trigger H env u new
            (s1\<lparr>rs_new := int (length new), rs_findings := int (length fs)\<rparr>, w2))"
    using audit_runs [OF assms(2-4) new, of env u] assms(5) by (auto split: prod.splits)
  then have "known_set (rs_known s') = known_set (rs_known s1)" by (simp add: notify_known)
  with k assms(9) have "known (rs_known s') (generate_finding_hash f)" if "f \<in> set gs" for f
    using that by (auto simp flip: known_set_iff)
  then have "find_new_findings gs (s'\<lparr>rs_last_audit := now', rs_new := 0, rs_findings := int (length gs)\<rparr>) =
      Ret ([], s'\<lparr>rs_last_audit := now', rs_new := 0, rs_findings := int (length gs)\<rparr>)"
    by (intro find_new_known) simp
  from audit_runs [OF assms(6-8) this, of env u] show ?thesis by simp
qed

text \<open>
  C40. The error paths of an audit: a failing auditor is one alert with its output, and the state is
  not saved; a findings file that vanishes between listing and inspection is a nil pointer
  dereference, which ends the program, because the error of \<open>Info\<close> is dropped.
\<close>

theorem audit_errors:
  assumes "h_now H w = (now, w1)"
  shows "(h_run H [''bash'', auditors_path] project_dir w1 = ((out, Some e), w2) \<longrightarrow>
      run_scheduled_audit H env L u s w =
        (Ret (), s\<lparr>rs_last_audit := now, rs_new := 0\<rparr>,
         send_alert H env (''Auditor failed: '' @ e @ nl @ out) w2)) \<and>
    (h_run H [''bash'', auditors_path] project_dir w1 = ((out, None), w2) \<and>
     h_dir H ''/tmp'' w2 = Some (es @ d # ds) \<and> has_prefix (de_name d) ''auditor_findings_'' \<and>
     de_mtime d = None \<longrightarrow>
      run_scheduled_audit H env L u s w =
        (Panic nil_dereference, s\<lparr>rs_last_audit := now, rs_new := 0\<rparr>, w2))"
proof -
  have "newest_entry (es @ d # ds) best = Panic nil_dereference"
    if "has_prefix (de_name d) ''auditor_findings_''" "de_mtime d = None" for best
    using that by (induction es arbitrary: best) (auto split: option.splits)
  then show ?thesis
    using assms by (auto simp: run_scheduled_audit_def load_findings_def)
qed

text \<open>
  A notification shows at most five findings; from five on it ends in the number of findings
  less four, so five findings are all shown and said to be followed by one more.
\<close>

theorem notification_shows_five:
  "format_findings_notification u fs =
     bell @ '' *NEW FINDINGS DETECTED*'' @ nl @ nl @ concat (map (finding_block u) (take 5 fs)) @
     (if 5 \<le> length fs then ''... and '' @ show_int (int (length fs) - 4) @ '' more'' else [])"
  by (auto simp: format_findings_notification_def notification_loop_take)

text \<open>
  C20. The state file: with the documented behaviour of the file system, of \<open>encoding/json\<close> and of
  \<open>time.Time\<close> on this very document, a state with UTF-8 texts and counts of 64 bits is read
  back as it was saved; the table of known findings is the same map, so after the restart no
  finding known before is new.
\<close>

theorem runtime_state_read_back:
  assumes "file_law H" and "time_law H (rs_last_audit s)" and "time_law H (rs_last_notification s)"
    and "\<forall>j. state_json H s = Some j \<longrightarrow> render_law H L j"
    and "rs_known s = Some m" and "gomap_ok m" and "\<forall>k \<in> fst ` set m. valid_utf8 k"
    and "valid_utf8 (rs_activity s)"
    and "0 \<le> rs_findings s \<and> rs_findings s < 2 ^ 63" and "0 \<le> rs_new s \<and> rs_new s < 2 ^ 63"
  shows "\<exists>m'. start_runtime H L (save_state H s w) = s\<lparr>rs_known := Some m'\<rparr> \<and> map_of m' = map_of m \<and>
    (\<forall>fs. generate_finding_hash ` set fs \<subseteq> known_set (rs_known s) \<longrightarrow>
       find_new_findings fs (s\<lparr>rs_known := Some m'\<rparr>) = Ret ([], s\<lparr>rs_known := Some m'\<rparr>))"
proof -
  obtain a n where a: "h_time_text H (rs_last_audit s) = Some a" "h_parse_time H a = Some (rs_last_audit s)"
    and n: "h_time_text H (rs_last_notification s) = Some n"
      "h_parse_time H n = Some (rs_last_notification s)"
    using assms(2,3) by (auto simp: time_law_def)
  obtain m' where m': "dec_bool_map (bool_map_json (Some m)) (Some []) = (Some m', False)"
    "map_of m' = map_of m"
    using bool_map_read_back [OF assms(6,7)] by (elim exE conjE)
  obtain j where j: "state_json H s = Some j"
    and dec: "\<And>s0. rs_known s0 = Some [] \<Longrightarrow>
      fst (tdec_struct (set_runtime_field H) runtime_fields j s0) = s\<lparr>rs_known := Some m'\<rparr>"
    using a n m' assms(5,8-10)
    by (auto simp: state_json_def time_json_def tdec_struct_def runtime_fields_def set_runtime_field_def
        tdec_time_def plain_def parse_int64_show_int jtext_def valid_utf8_def)
  from assms(4) j have "js_parse L (h_render H j) = Inr j" by (simp add: render_law_def)
  with assms(1) j have "start_runtime H L (save_state H s w) =
      fst (tdec_struct (set_runtime_field H) runtime_fields j (zero_runtime\<lparr>rs_known := Some [], rs_running := True\<rparr>))"
    by (simp add: start_runtime_def load_state_def save_state_def file_law_def tunmarshal_def case_prod_beta)
  also have "\<dots> = s\<lparr>rs_known := Some m'\<rparr>" by (rule dec) simp
  finally have start: "start_runtime H L (save_state H s w) = s\<lparr>rs_known := Some m'\<rparr>" .
  have "find_new_findings fs (s\<lparr>rs_known := Some m'\<rparr>) = Ret ([], s\<lparr>rs_known := Some m'\<rparr>)"
    if "generate_finding_hash ` set fs \<subseteq> known_set (rs_known s)" for fs
    using that m'(2) assms(5) by (intro find_new_known) (auto simp: known_def)
  with start m'(2) show ?thesis by blast
qed


definition audit_lib :: json_lib where
  "audit_lib = scan_table [(''F'', JArr [JObj login_finding])]"

definition audit_host :: "machine host" where
  "audit_host = desk (\<lambda>_. ''S'') (\<lambda>_. ([], None))"

definition audit_machine :: machine where
  "audit_machine = quiet_machine\<lparr>
     mc_files := [(''/tmp/auditor_findings_1.json'', ''F'')],
     mc_dir := [\<lparr>de_name = ''auditor_findings_1.json'', de_mtime = Some 3\<rparr>]\<rparr>"

theorem each_finding_reported_once_witness:
  "\<exists>new s'. run_looks find_new_findings [[login_finding], [login_finding]] (zero_runtime\<lparr>rs_known := Some []\<rparr>)
      = Ret (new, s') \<and> distinct (map generate_finding_hash new) \<and>
    generate_finding_hash ` set new = {''Login bypass|CRITICAL|api.go''}"
proof -
  have "generate_finding_hash login_finding = ''Login bypass|CRITICAL|api.go''" by code_simp
  then show ?thesis
    using each_finding_reported_once [of "zero_runtime\<lparr>rs_known := Some []\<rparr>" "[]"
        "[[login_finding], [login_finding]]"] by auto
qed

theorem second_audit_quiet_witness:
  "\<exists>x s' w' s'' w''.
     run_scheduled_audit audit_host chat_env audit_lib ascii_tables
       (zero_runtime\<lparr>rs_known := Some []\<rparr>) audit_machine = (x, s', w') \<and> rs_new s' = 1 \<and>
     run_scheduled_audit audit_host chat_env audit_lib ascii_tables s' w' = (Ret (), s'', w'') \<and>
     rs_new s'' = 0 \<and> mc_log w'' = mc_log w' @ [''bash '' @ auditors_path]"
proof -
  let ?audit = "run_scheduled_audit audit_host chat_env audit_lib ascii_tables"
  let ?s = "zero_runtime\<lparr>rs_known := Some []\<rparr>"
  let ?s' = "fst (snd (?audit ?s audit_machine))" and ?w' = "snd (snd (?audit ?s audit_machine))"
  have now: "h_now audit_host w = (mc_clock w, w)" for w by (simp add: audit_host_def desk_def)
  have run: "h_run audit_host c d w = (([], None), w\<lparr>mc_log := mc_log w @ [join_with '' '' c]\<rparr>)"
    for c d w by (simp add: audit_host_def desk_def)
  have load1: "load_findings audit_host audit_lib
      (audit_machine\<lparr>mc_log := mc_log audit_machine @ [join_with '' '' [''bash'', auditors_path]]\<rparr>) =
      Ret [login_finding]" by code_simp
  have load2: "load_findings audit_host audit_lib
      (?w'\<lparr>mc_log := mc_log ?w' @ [join_with '' '' [''bash'', auditors_path]]\<rparr>) =
      Ret [login_finding]" by code_simp
  have new: "rs_new ?s' = 1" by code_simp
  have first: "?audit ?s audit_machine = (fst (?audit ?s audit_machine), ?s', ?w')" by simp
  have known: "rs_known ?s = Some []" by simp
  have save: "mc_log (save_state audit_host s w) = mc_log w" for s w
    by (simp add: save_state_def audit_host_def desk_def split: option.splits)
  from second_audit_quiet [OF known now run load1 first now run load2 subset_refl]
  show ?thesis
    by (intro exI [of _ "fst (?audit ?s audit_machine)"] exI [of _ ?s'] exI [of _ ?w'] exI conjI)
      (rule first new | assumption | simp add: save)+
qed

theorem audit_errors_witness:
  "run_scheduled_audit (desk (\<lambda>_. []) (\<lambda>_. (''no shell'', Some ''exit status 1''))) chat_env audit_lib
      ascii_tables zero_runtime quiet_machine =
    (Ret (), zero_runtime\<lparr>rs_last_audit := 7\<rparr>,
     quiet_machine\<lparr>mc_log := [''bash '' @ auditors_path,
       ''Auditor failed: exit status 1'' @ nl @ ''no shell'']\<rparr>)"
proof -
  let ?H = "desk (\<lambda>_. []) (\<lambda>_. (''no shell'', Some ''exit status 1''))"
  have now: "h_now ?H quiet_machine = (7, quiet_machine)" by code_simp
  have "h_run ?H [''bash'', auditors_path] project_dir quiet_machine =
      ((''no shell'', Some ''exit status 1''), quiet_machine\<lparr>mc_log := [''bash '' @ auditors_path]\<rparr>)"
    by code_simp
  with audit_errors [OF now] have "run_scheduled_audit ?H chat_env audit_lib ascii_tables zero_runtime quiet_machine =
    (Ret (), zero_runtime\<lparr>rs_last_audit := 7, rs_new := 0\<rparr>,
     send_alert ?H chat_env (''Auditor failed: '' @ ''exit status 1'' @ nl @ ''no shell'')
       (quiet_machine\<lparr>mc_log := [''bash '' @ auditors_path]\<rparr>))" by blast
  also have "\<dots> = (Ret (), zero_runtime\<lparr>rs_last_audit := 7\<rparr>,
     quiet_machine\<lparr>mc_log := [''bash '' @ auditors_path,
       ''Auditor failed: exit status 1'' @ nl @ ''no shell'']\<rparr>)" by code_simp
  finally show ?thesis .
qed

definition stopped_state :: runtime_state where
  "stopped_state = zero_runtime\<lparr>rs_last_audit := 5, rs_findings := 2, rs_activity := ''idle'',
     rs_known := Some [(''b|low|'', True), (''a|low|'', True)]\<rparr>"

theorem runtime_state_read_back_witness:
  "\<exists>L m'. start_runtime audit_host L (save_state audit_host stopped_state quiet_machine) =
     stopped_state\<lparr>rs_known := Some m'\<rparr> \<and> map_of m' = map_of [(''b|low|'', True), (''a|low|'', True)]"
proof -
  let ?L = "scan_table [(''S'', the (state_json audit_host stopped_state))]"
  have "file_law audit_host" by (simp add: audit_host_def file_law_desk)
  moreover have "time_law audit_host (rs_last_audit stopped_state)"
    "time_law audit_host (rs_last_notification stopped_state)"
  proof -
    have "h_time_text audit_host (rs_last_audit stopped_state) = Some ''5''"
      "h_time_text audit_host (rs_last_notification stopped_state) = Some ''0''"
      "h_parse_time audit_host ''5'' = Some (rs_last_audit stopped_state)"
      "h_parse_time audit_host ''0'' = Some (rs_last_notification stopped_state)"
      by code_simp+
    then show "time_law audit_host (rs_last_audit stopped_state)"
      "time_law audit_host (rs_last_notification stopped_state)"
      unfolding time_law_def by blast+
  qed
  moreover have "\<forall>j. state_json audit_host stopped_state = Some j \<longrightarrow> render_law audit_host ?L j"
    by (simp add: render_law_def scan_table_def audit_host_def desk_def)
  moreover have "rs_known stopped_state = Some [(''b|low|'', True), (''a|low|'', True)]"
    by (simp add: stopped_state_def)
  moreover have "gomap_ok [(''b|low|'', True), (''a|low|'', True)]" by simp
  moreover have "\<forall>k \<in> fst ` set [(''b|low|'', True), (''a|low|'', True)]. valid_utf8 k"
    by code_simp
  moreover have "valid_utf8 (rs_activity stopped_state)" by code_simp
  moreover have "0 \<le> rs_findings stopped_state \<and> rs_findings stopped_state < 2 ^ 63"
    "0 \<le> rs_new stopped_state \<and> rs_new stopped_state < 2 ^ 63"
    by (simp_all add: stopped_state_def zero_runtime_def)
  ultimately have "\<exists>m'. start_runtime audit_host ?L (save_state audit_host stopped_state quiet_machine) =
      stopped_state\<lparr>rs_known := Some m'\<rparr> \<and>
    map_of m' = map_of [(''b|low|'', True), (''a|low|'', True)] \<and>
    (\<forall>fs. generate_finding_hash ` set fs \<subseteq> known_set (rs_known stopped_state) \<longrightarrow>
       find_new_findings fs (stopped_state\<lparr>rs_known := Some m'\<rparr>) =
         Ret ([], stopped_state\<lparr>rs_known := Some m'\<rparr>))"
    by (rule runtime_state_read_back)
  then show ?thesis by blast
qed

end
