(* ===== verification/Runtime_Threads.thy ===== *)
theory Runtime_Threads
  imports Runtime System
begin

text \<open>
  Several audits at once. The command \<open>run-audit\<close> of \<open>integrations/telegram/runtime/main.go\<close> starts
  \<open>runScheduledAudit\<close> in a goroutine of its own, beside the loop of \<open>runContinuousLoop\<close>.
  \<open>findNewFindings\<close> looks a hash up under \<open>mu.RLock\<close> and stores it under a \<open>mu.Lock\<close> taken
  afterwards: the two critical sections are the two moves of a thread here, and another
  audit may move between them. What else an audit writes to the shared state (counts, times, the
  activity text) is a change of the surroundings.

  Findings.thy has the same loop without interference; \<open>audit_alone\<close> says that a single thread of
  this machine does what \<open>find_new_findings\<close> of Runtime.thy computes.
\<close>

section \<open>The moves of an audit\<close>

text \<open>
  \<open>Looking fs rest new\<close>: the audit loaded \<open>fs\<close>, has \<open>rest\<close> to look at and has found \<open>new\<close>;
  \<open>Missing fs f rest new\<close>: it has seen that the hash of \<open>f\<close> is not stored, and not stored it yet.
\<close>

datatype audit_place =
    NoAudit
  | Looking "jmap list" "jmap list" "jmap list"
  | Missing "jmap list" jmap "jmap list" "jmap list"
  | Looked "jmap list" "jmap list"

inductive audit_move ::
    "tid \<Rightarrow> runtime_state \<Rightarrow> audit_place \<Rightarrow> runtime_state \<Rightarrow> audit_place \<Rightarrow> bool" where
  au_load: "audit_move t s NoAudit s (Looking fs fs [])"
| au_known: "known (rs_known s) (generate_finding_hash f) \<Longrightarrow>
    audit_move t s (Looking fs (f # rest) new) s (Looking fs rest new)"
| au_missing: "\<not> known (rs_known s) (generate_finding_hash f) \<Longrightarrow>
    audit_move t s (Looking fs (f # rest) new) s (Missing fs f rest new)"
| au_store: "rs_known s = Some m \<Longrightarrow>
    audit_move t s (Missing fs f rest new)
      (s\<lparr>rs_known := Some (put (generate_finding_hash f) True m)\<rparr>) (Looking fs rest (new @ [f]))"
| au_done: "audit_move t s (Looking fs [] new) s (Looked fs new)"

inductive_cases audit_moveE: "audit_move t s l s' l'"

inductive audit_env :: "runtime_state \<Rightarrow> runtime_state \<Rightarrow> bool" where
  audit_env_other: "rs_known s' = rs_known s \<Longrightarrow> audit_env s s'"

abbreviation audits :: "runtime_state \<Rightarrow> runtime_state \<times> (tid \<Rightarrow> audit_place) \<Rightarrow> bool" where
  "audits s0 \<equiv> reaches (pool_step audit_move audit_env) (s0, \<lambda>_. NoAudit)"

lemma audits_move:
  "audits s0 (s, f) \<Longrightarrow> f t = l \<Longrightarrow> audit_move t s l s' l' \<Longrightarrow> audits s0 (s', f(t := l'))"
  by (rule pool_moves)

section \<open>What an audit knows\<close>

text \<open>The findings an audit loaded, those it is through with, and those it has reported.\<close>

fun loaded :: "audit_place \<Rightarrow> jmap list" where
  "loaded NoAudit = []"
| "loaded (Looking fs rest new) = fs"
| "loaded (Missing fs f rest new) = fs"
| "loaded (Looked fs new) = fs"

fun reported :: "audit_place \<Rightarrow> jmap list" where
  "reported NoAudit = []"
| "reported (Looking fs rest new) = new"
| "reported (Missing fs f rest new) = new"
| "reported (Looked fs new) = new"

fun unseen :: "audit_place \<Rightarrow> jmap list" where
  "unseen NoAudit = []"
| "unseen (Looking fs rest new) = rest"
| "unseen (Missing fs f rest new) = f # rest"
| "unseen (Looked fs new) = []"

abbreviation hashes :: "jmap list \<Rightarrow> string set" where
  "hashes fs \<equiv> generate_finding_hash ` set fs"

definition audit_shared :: "string set \<Rightarrow> runtime_state \<Rightarrow> bool" where
  "audit_shared K s \<longleftrightarrow> rs_known s \<noteq> None \<and> K \<subseteq> known_set (rs_known s)"

definition audit_here :: "string set \<Rightarrow> tid \<Rightarrow> audit_place \<Rightarrow> runtime_state \<Rightarrow> bool" where
  "audit_here K t l s \<longleftrightarrow>
     set (unseen l) \<subseteq> set (loaded l) \<and>
     hashes (loaded l) \<subseteq> known_set (rs_known s) \<union> hashes (unseen l) \<and>
     hashes (reported l) \<subseteq> known_set (rs_known s) - K \<and>
     set (reported l) \<subseteq> set (loaded l) \<and>
     distinct (map generate_finding_hash (reported l)) \<and>
     (\<forall>fs f rest new. l = Missing fs f rest new \<longrightarrow>
        generate_finding_hash f \<notin> K \<union> hashes new)"

text \<open>The table only grows.\<close>

lemma audit_move_grows:
  "audit_move t s l s' l' \<Longrightarrow> rs_known s \<noteq> None \<Longrightarrow>
     rs_known s' \<noteq> None \<and> known_set (rs_known s) \<subseteq> known_set (rs_known s')"
  by (auto elim!: audit_moveE simp flip: known_set_iff)

lemma audit_here_mono:
  "audit_here K t l s \<Longrightarrow> known_set (rs_known s) \<subseteq> known_set (rs_known s') \<Longrightarrow> audit_here K v l s'"
  unfolding audit_here_def by blast

lemma through_known: "A \<subseteq> T \<union> insert x B \<Longrightarrow> x \<in> T \<Longrightarrow> A \<subseteq> T \<union> B"
  by blast

lemma through_stored: "A \<subseteq> T \<union> insert x B \<Longrightarrow> A \<subseteq> insert x T \<union> B"
  by blast

lemma reported_stored: "A \<subseteq> T - K \<Longrightarrow> x \<notin> K \<Longrightarrow> insert x A \<subseteq> insert x T - K"
  by blast

lemma covered_step:
  "A' \<subseteq> A \<union> R \<and> r \<subseteq> R \<Longrightarrow> U \<subseteq> r \<union> V \<Longrightarrow> R \<subseteq> V \<Longrightarrow> A \<subseteq> K \<union> U \<Longrightarrow> A' \<subseteq> K \<union> V"
  by blast

lemma audit_move_own:
  assumes "audit_shared K s" and here: "audit_here K t l s" and "audit_move t s l s' l'"
  shows "audit_shared K s' \<and> audit_here K t l' s'"
  using assms(3)
proof cases
  case (au_load fs)
  with assms(1) show ?thesis by (simp add: audit_here_def)
next
  case (au_known f fs rest new)
  then have "generate_finding_hash f \<in> known_set (rs_known s)" by simp
  moreover from here au_known(1) have
    "hashes fs \<subseteq> known_set (rs_known s) \<union> insert (generate_finding_hash f) (hashes rest)"
    by (simp add: audit_here_def)
  ultimately have "hashes fs \<subseteq> known_set (rs_known s) \<union> hashes rest" by (rule through_known [rotated])
  with assms(1) here au_known show ?thesis by (simp add: audit_here_def)
next
  case (au_missing f fs rest new)
  then have "generate_finding_hash f \<notin> known_set (rs_known s)" by simp
  moreover have "K \<subseteq> known_set (rs_known s)" "hashes new \<subseteq> known_set (rs_known s) - K"
    using assms(1) here au_missing(1) by (simp_all add: audit_shared_def audit_here_def)
  ultimately have "generate_finding_hash f \<notin> K \<union> hashes new" by blast
  with assms(1) here au_missing show ?thesis by (simp add: audit_here_def)
next
  case (au_store m fs f rest new)
  let ?T = "known_set (rs_known s)"
  have grown: "known_set (rs_known s') = insert (generate_finding_hash f) ?T"
    using au_store by simp
  from here au_store(1) have h: "f \<in> set fs" "set rest \<subseteq> set fs"
    "hashes fs \<subseteq> ?T \<union> insert (generate_finding_hash f) (hashes rest)" "hashes new \<subseteq> ?T - K"
    "set new \<subseteq> set fs" "distinct (map generate_finding_hash new)"
    "generate_finding_hash f \<notin> K" "generate_finding_hash f \<notin> hashes new"
    by (simp_all add: audit_here_def)
  have "K \<subseteq> known_set (rs_known s')" using assms(1) unfolding grown audit_shared_def by blast
  moreover have "rs_known s' \<noteq> None" using au_store(2) by simp
  ultimately show ?thesis
    using through_stored [OF h(3)] reported_stored [OF h(4,7)] h(1,2,5,6,8)
    by (simp add: audit_here_def audit_shared_def au_store(3) grown)
next
  case (au_done fs new)
  with assms(1) here show ?thesis by (simp add: audit_here_def)
qed

interpretation audit_threads: threads audit_move audit_env "audit_shared K" "audit_here K" for K
proof unfold_locales
  fix s s' t v l l' m
  assume ok: "audit_shared K s"
  show "audit_here K t l s \<Longrightarrow> audit_move t s l s' l' \<Longrightarrow> audit_shared K s' \<and> audit_here K t l' s'"
    by (rule audit_move_own [OF ok])
  show "audit_here K v m s \<Longrightarrow> audit_move t s l s' l' \<Longrightarrow> audit_here K v m s'"
    using ok audit_move_grows [of t s l s' l'] by (auto simp: audit_shared_def intro: audit_here_mono)
  show "audit_env s s' \<Longrightarrow> audit_shared K s' \<and> (\<forall>v m. audit_here K v m s \<longrightarrow> audit_here K v m s')"
    using ok by (auto elim!: audit_env.cases simp: audit_shared_def intro: audit_here_mono)
qed

lemma audits_here:
  assumes "audits s0 (s, f)" and "rs_known s0 \<noteq> None"
  shows "audit_shared (known_set (rs_known s0)) s \<and>
    (\<forall>t. audit_here (known_set (rs_known s0)) t (f t) s)"
proof -
  have "case (s, f) of (s, f) \<Rightarrow> audit_shared (known_set (rs_known s0)) s \<and>
      (\<forall>t. audit_here (known_set (rs_known s0)) t (f t) s)"
    by (rule audit_threads.ok_reaches [OF assms(1)])
      (use assms(2) in \<open>simp add: audit_shared_def audit_here_def\<close>)
  then show ?thesis by simp
qed

text \<open>What is stored was stored at the start or is reported by some audit.\<close>

interpretation audit_cover: preserved "pool_step audit_move audit_env"
    "\<lambda>(s, f). known_set (rs_known s) \<subseteq> K \<union> (\<Union>t. hashes (reported (f t)))" for K
proof unfold_locales
  fix p p'
  assume ok: "case p of (s, f) \<Rightarrow> known_set (rs_known s) \<subseteq> K \<union> (\<Union>t. hashes (reported (f t)))"
    and step: "pool_step audit_move audit_env p p'"
  from step show "case p' of (s, f) \<Rightarrow> known_set (rs_known s) \<subseteq> K \<union> (\<Union>t. hashes (reported (f t)))"
  proof cases
    case (pool_move t s f s' l)
    have "known_set (rs_known s') \<subseteq> known_set (rs_known s) \<union> hashes (reported l) \<and>
        hashes (reported (f t)) \<subseteq> hashes (reported l)"
      using pool_move(3) by (auto elim!: audit_moveE simp flip: known_set_iff)
    moreover have "(\<Union>v. hashes (reported (f v))) \<subseteq>
        hashes (reported (f t)) \<union> (\<Union>v. hashes (reported ((f(t := l)) v)))"
    proof
      fix h
      assume "h \<in> (\<Union>v. hashes (reported (f v)))"
      then obtain v where "h \<in> hashes (reported (f v))" by blast
      then show "h \<in> hashes (reported (f t)) \<union> (\<Union>v. hashes (reported ((f(t := l)) v)))"
        by (cases "v = t") (simp, intro UnI2 UN_I [of v], simp_all)
    qed
    moreover have "hashes (reported l) \<subseteq> (\<Union>v. hashes (reported ((f(t := l)) v)))"
      using UN_upper [of t UNIV "\<lambda>v. hashes (reported ((f(t := l)) v))"] by simp
    moreover have "known_set (rs_known s) \<subseteq> K \<union> (\<Union>v. hashes (reported (f v)))"
      using ok pool_move(1) by simp
    ultimately have "known_set (rs_known s') \<subseteq> K \<union> (\<Union>v. hashes (reported ((f(t := l)) v)))"
      by (rule covered_step)
    with pool_move(2) show ?thesis by simp
  next
    case (pool_env s s' f)
    with ok show ?thesis by (auto elim!: audit_env.cases)
  qed
qed

section \<open>One audit alone\<close>

lemma audit_runs_alone:
  assumes "find_new_findings rest s = Ret (found, s')"
    and "audits s0 (s, g(t := Looking fs rest new))"
  shows "audits s0 (s', g(t := Looking fs [] (new @ found)))"
  using assms
proof (induction rest arbitrary: s new found)
  case Nil
  then show ?case by simp
next
  case (Cons f rest)
  show ?case
  proof (cases "known (rs_known s) (generate_finding_hash f)")
    case True
    with Cons.prems(1) have run: "find_new_findings rest s = Ret (found, s')" by simp
    have "audits s0 (s, g(t := Looking fs rest new))"
      using audits_move [OF Cons.prems(2) fun_upd_same au_known [OF True]] by (simp only: fun_upd_upd)
    then show ?thesis by (rule Cons.IH [OF run])
  next
    case False
    let ?s = "\<lambda>m. s\<lparr>rs_known := Some (put (generate_finding_hash f) True m)\<rparr>"
    from False Cons.prems(1) obtain m found' where m: "rs_known s = Some m"
      and run: "find_new_findings rest (?s m) = Ret (found', s')" and found: "found = f # found'"
      by (auto simp: Let_def outcome_simps split: option.splits)
    have "audits s0 (s, g(t := Missing fs f rest new))"
      using audits_move [OF Cons.prems(2) fun_upd_same au_missing [OF False]] by (simp only: fun_upd_upd)
    from audits_move [OF this fun_upd_same au_store [OF m]]
    have "audits s0 (?s m, g(t := Looking fs rest (new @ [f])))" by (simp only: fun_upd_upd)
    from Cons.IH [OF run this] show ?thesis by (simp add: found)
  qed
qed

text \<open>A thread nobody interrupts is \<open>find_new_findings\<close>.\<close>

lemma audit_alone:
  assumes "find_new_findings fs s = Ret (new, s')"
  shows "audits s (s', (\<lambda>_. NoAudit)(t := Looked fs new))"
proof -
  have "audits s (s, (\<lambda>_. NoAudit)(t := Looking fs fs []))"
    by (rule audits_move [OF reaches_refl _ au_load]) simp
  from audit_runs_alone [OF assms this] have "audits s (s', (\<lambda>_. NoAudit)(t := Looking fs [] new))"
    by simp
  from audits_move [OF this fun_upd_same au_done] show ?thesis by (simp only: fun_upd_upd)
qed

section \<open>Properties\<close>

text \<open>
  C13. Audits at once miss nothing: however any number of audits interleave, none reports a hash twice
  or one that was stored when they started, and when all of them are through, what they
  reported together is exactly what they loaded and was not stored at the start.
\<close>

theorem interleaved_audits_report:
  assumes "rs_known s0 = Some m" and "audits s0 (s, f)"
  shows "(\<forall>t. distinct (map generate_finding_hash (reported (f t))) \<and>
      set (reported (f t)) \<subseteq> set (loaded (f t)) \<and>
      generate_finding_hash ` set (reported (f t)) \<inter> known_set (rs_known s0) = {}) \<and>
    ((\<forall>t. unseen (f t) = []) \<longrightarrow>
      (\<Union>t. generate_finding_hash ` set (reported (f t))) =
      (\<Union>t. generate_finding_hash ` set (loaded (f t))) - known_set (rs_known s0))"
proof -
  let ?K = "known_set (rs_known s0)"
  have here: "audit_here ?K t (f t) s" for t
    using audits_here [OF assms(2)] assms(1) by simp
  have "case (s, f) of (s, f) \<Rightarrow> known_set (rs_known s) \<subseteq> ?K \<union> (\<Union>t. hashes (reported (f t)))"
    by (rule audit_cover.ok_reaches [OF assms(2)]) simp
  then have cover: "known_set (rs_known s) \<subseteq> ?K \<union> (\<Union>t. hashes (reported (f t)))" by simp
  have new: "hashes (reported (f t)) \<subseteq> hashes (loaded (f t)) - ?K" for t
    using here [of t] unfolding audit_here_def by blast
  have "(\<Union>t. hashes (reported (f t))) = (\<Union>t. hashes (loaded (f t))) - ?K"
    if "\<forall>t. unseen (f t) = []"
  proof
    show "(\<Union>t. hashes (reported (f t))) \<subseteq> (\<Union>t. hashes (loaded (f t))) - ?K" using new by blast
    have "hashes (loaded (f t)) \<subseteq> known_set (rs_known s)" for t
      using here [of t] that by (simp add: audit_here_def)
    with cover show "(\<Union>t. hashes (loaded (f t))) - ?K \<subseteq> (\<Union>t. hashes (reported (f t)))" by blast
  qed
  moreover have "hashes (reported (f t)) \<inter> ?K = {}" for t using new by blast
  ultimately show ?thesis using here by (simp add: audit_here_def)
qed

text \<open>
  C14. Audits at once report twice: for every finding that is not stored there is an interleaving of
  two audits, both of which loaded it, in which both report it, because the look-up and the
  storing are two critical sections.
\<close>

theorem race_reports_twice:
  assumes "rs_known s0 = Some m" and "\<not> known (rs_known s0) (generate_finding_hash x)"
  shows "\<exists>s f. audits s0 (s, f) \<and> f 0 = Looked [x] [x] \<and> f 1 = Looked [x] [x]"
proof -
  let ?h = "generate_finding_hash x"
  let ?s1 = "s0\<lparr>rs_known := Some (put ?h True m)\<rparr>"
  let ?s2 = "?s1\<lparr>rs_known := Some (put ?h True (put ?h True m))\<rparr>"
  let ?g = "\<lambda>a b. (\<lambda>_ :: tid. NoAudit)(0 := a, 1 := b)"
  have move: "audits s0 (s', ?g a' b)"
    if "audits s0 (s, ?g a b)" "audit_move 0 s a s' a'" for s a b s' a'
    using audits_move [OF that(1) _ that(2)] by (simp add: fun_upd_twist)
  have move': "audits s0 (s', ?g a b')"
    if "audits s0 (s, ?g a b)" "audit_move 1 s b s' b'" for s a b s' b'
    using audits_move [OF that(1) _ that(2)] by simp
  have "?g NoAudit NoAudit = (\<lambda>_. NoAudit)" by auto
  then have "audits s0 (s0, ?g NoAudit NoAudit)" by (simp only: reaches_refl)
  from move [OF this au_load] have "audits s0 (s0, ?g (Looking [x] [x] []) NoAudit)" .
  from move' [OF this au_load] have "audits s0 (s0, ?g (Looking [x] [x] []) (Looking [x] [x] []))" .
  from move' [OF move [OF this au_missing [OF assms(2)]] au_missing [OF assms(2)]]
  have "audits s0 (s0, ?g (Missing [x] x [] []) (Missing [x] x [] []))" .
  from move [OF this au_store [OF assms(1)]]
  have "audits s0 (?s1, ?g (Looking [x] [] ([] @ [x])) (Missing [x] x [] []))" .
  moreover have "rs_known ?s1 = Some (put ?h True m)" by simp
  ultimately have "audits s0 (?s2, ?g (Looking [x] [] ([] @ [x])) (Looking [x] [] ([] @ [x])))"
    by (rule move' [OF _ au_store])
  from move' [OF move [OF this au_done] au_done] have "audits s0 (?s2, ?g (Looked [x] [x]) (Looked [x] [x]))"
    by simp
  moreover have "?g (Looked [x] [x]) (Looked [x] [x]) 0 = Looked [x] [x]"
    "?g (Looked [x] [x]) (Looked [x] [x]) 1 = Looked [x] [x]" by simp_all
  ultimately show ?thesis by blast
qed

definition one_audit :: "tid \<Rightarrow> audit_place" where
  "one_audit = (\<lambda>_. NoAudit)(0 := Looked [login_finding] [login_finding])"

theorem interleaved_audits_report_witness:
  "\<exists>s. audits (zero_runtime\<lparr>rs_known := Some []\<rparr>) (s, one_audit) \<and>
     (\<Union>t. generate_finding_hash ` set (reported (one_audit t))) =
     (\<Union>t. generate_finding_hash ` set (loaded (one_audit t)))"
proof -
  let ?s = "zero_runtime\<lparr>rs_known := Some []\<rparr>"
  have "find_new_findings [login_finding] ?s =
      Ret ([login_finding], ?s\<lparr>rs_known := Some [(generate_finding_hash login_finding, True)]\<rparr>)"
    by (simp add: known_def Let_def)
  from audit_alone [OF this, of 0] obtain s where s: "audits ?s (s, one_audit)"
    unfolding one_audit_def by blast
  have known: "rs_known ?s = Some []" by simp
  have "\<forall>t. unseen (one_audit t) = []" by (simp add: one_audit_def)
  with interleaved_audits_report [OF known s, THEN conjunct2] have
    "(\<Union>t. hashes (reported (one_audit t))) = (\<Union>t. hashes (loaded (one_audit t))) - known_set (rs_known ?s)"
    by (rule mp)
  then show ?thesis unfolding known known_set_empty Diff_empty using s by blast
qed

theorem race_reports_twice_witness:
  "\<exists>s f. audits (zero_runtime\<lparr>rs_known := Some []\<rparr>) (s, f) \<and>
     reported (f 0) = [login_finding] \<and> reported (f 1) = [login_finding]"
proof -
  have "\<exists>s f. audits (zero_runtime\<lparr>rs_known := Some []\<rparr>) (s, f) \<and>
      f 0 = Looked [login_finding] [login_finding] \<and> f 1 = Looked [login_finding] [login_finding]"
    by (rule race_reports_twice) (simp_all add: known_def)
  then show ?thesis by force
qed

end
