(* ===== verification/Memory.thy ===== *)
theory Memory
  imports Json Go_Float
begin

text \<open>
  \<open>internal/memory/postgres.go\<close> and \<open>types.go\<close>: the repository of product documents (PDR),
  architecture decisions (ADR) and coding preferences, and the generic memory entries over them.

  The database is the parameter \<open>store\<close>: one operation runs a query text with its arguments and
  yields the rows (a cell is a text or NULL), or an error. A row stream that breaks off yields
  the rows read so far, because the sources do not look at \<open>rows.Err()\<close>. The record also holds
  the clock: the current time in the RFC 3339 form, the current instant in nanoseconds, and
  the parser of that form.
\<close>

section \<open>Data\<close>

record pdr =
  pdr_id :: string
  pdr_title :: string
  pdr_content :: string
  pdr_created :: string

record adr =
  adr_id :: string
  adr_title :: string
  adr_context :: string
  adr_decision :: string
  adr_consequences :: string
  adr_tags :: string
  adr_created :: string

record coding_preference =
  cp_id :: string
  cp_category :: string
  cp_rule :: string
  cp_example :: string
  cp_created :: string

record memory_entry =
  me_id :: string
  me_type :: string
  me_title :: string
  me_content :: string
  me_data :: string
  me_priority :: float32
  me_confidence :: float32
  me_relevance :: float32
  me_archived :: bool
  me_created :: string
  me_updated :: string

definition zero_pdr :: pdr where
  "zero_pdr = \<lparr>pdr_id = [], pdr_title = [], pdr_content = [], pdr_created = []\<rparr>"

definition zero_adr :: adr where
  "zero_adr = \<lparr>adr_id = [], adr_title = [], adr_context = [], adr_decision = [],
     adr_consequences = [], adr_tags = [], adr_created = []\<rparr>"

definition zero_pref :: coding_preference where
  "zero_pref = \<lparr>cp_id = [], cp_category = [], cp_rule = [], cp_example = [], cp_created = []\<rparr>"

definition zero_entry :: memory_entry where
  "zero_entry = \<lparr>me_id = [], me_type = [], me_title = [], me_content = [], me_data = [],
     me_priority = 0, me_confidence = 0, me_relevance = 0, me_archived = False, me_created = [],
     me_updated = []\<rparr>"

section \<open>The database\<close>

type_synonym row = "string option list"

record 'w store =
  db_query :: "string \<Rightarrow> string list \<Rightarrow> 'w \<Rightarrow> (goerr + row list) \<times> 'w"
  db_scan_err :: "row \<Rightarrow> goerr"
  now_text :: "'w \<Rightarrow> string \<times> 'w"
  now_wall :: "'w \<Rightarrow> int \<times> 'w"
  parse_rfc3339 :: "string \<Rightarrow> int option"

text \<open>\<open>Scan\<close> into \<open>n\<close> strings: the number of columns must fit, and NULL is refused.\<close>

definition scan_row :: "'w store \<Rightarrow> nat \<Rightarrow> row \<Rightarrow> string list res" where
  "scan_row S n r =
     (if length r = n \<and> list_all (\<lambda>c. c \<noteq> None) r then Inr (map the r) else Inl (db_scan_err S r))"

text \<open>\<open>QueryRowContext(...).Scan(...)\<close>\<close>

definition query_row ::
    "'w store \<Rightarrow> nat \<Rightarrow> string \<Rightarrow> string list \<Rightarrow> 'w \<Rightarrow> string list res \<times> 'w" where
  "query_row S n q args w =
     (case db_query S q args w of
        (Inl e, w) \<Rightarrow> (Inl e, w)
      | (Inr [], w) \<Rightarrow> (Inl ''sql: no rows in result set'', w)
      | (Inr (r # rs), w) \<Rightarrow> (scan_row S n r, w))"

text \<open>The loop over \<open>rows.Next()\<close>: the first row that does not scan ends it with the error.\<close>

fun scan_rows :: "'w store \<Rightarrow> nat \<Rightarrow> row list \<Rightarrow> string list list res" where
  "scan_rows S n [] = Inr []"
| "scan_rows S n (r # rs) =
     (case scan_row S n r of
        Inl e \<Rightarrow> Inl e
      | Inr cs \<Rightarrow> (case scan_rows S n rs of Inl e \<Rightarrow> Inl e | Inr css \<Rightarrow> Inr (cs # css)))"

definition query_rows ::
    "'w store \<Rightarrow> nat \<Rightarrow> string \<Rightarrow> string list \<Rightarrow> 'w \<Rightarrow> string list list res \<times> 'w" where
  "query_rows S n q args w =
     (case db_query S q args w of
        (Inl e, w) \<Rightarrow> (Inl e, w)
      | (Inr rs, w) \<Rightarrow> (scan_rows S n rs, w))"

definition to_pdr :: "string list \<Rightarrow> pdr" where
  "to_pdr c = \<lparr>pdr_id = c ! 0, pdr_title = c ! 1, pdr_content = c ! 2, pdr_created = c ! 3\<rparr>"

definition to_adr :: "string list \<Rightarrow> adr" where
  "to_adr c = \<lparr>adr_id = c ! 0, adr_title = c ! 1, adr_context = c ! 2, adr_decision = c ! 3,
     adr_consequences = c ! 4, adr_tags = c ! 5, adr_created = c ! 6\<rparr>"

definition to_pref :: "string list \<Rightarrow> coding_preference" where
  "to_pref c = \<lparr>cp_id = c ! 0, cp_category = c ! 1, cp_rule = c ! 2, cp_example = c ! 3,
     cp_created = c ! 4\<rparr>"

section \<open>Product documents\<close>

definition insert_pdr_sql :: string where
  "insert_pdr_sql =
     ''INSERT INTO pdr_documents (title, content, created_at) VALUES ($1, $2, $3) RETURNING id''"

definition list_pdrs_sql :: string where
  "list_pdrs_sql = ''SELECT id, title, content, created_at FROM pdr_documents ORDER BY created_at DESC''"

definition search_pdrs_sql :: string where
  "search_pdrs_sql =
     ''SELECT id, title, content, created_at FROM pdr_documents WHERE title ILIKE $1 OR content ILIKE $1 ORDER BY created_at DESC''"

definition store_pdr :: "'w store \<Rightarrow> pdr \<Rightarrow> 'w \<Rightarrow> goerr option \<times> pdr \<times> 'w" where
  "store_pdr S p w =
     (let (t, w) = now_text S w; p = p\<lparr>pdr_created := t\<rparr>
      in case query_row S 1 insert_pdr_sql [pdr_title p, pdr_content p, pdr_created p] w of
           (Inl e, w) \<Rightarrow> (Some e, p, w)
         | (Inr c, w) \<Rightarrow> (None, p\<lparr>pdr_id := c ! 0\<rparr>, w))"

definition get_pdr :: "'w store \<Rightarrow> string \<Rightarrow> 'w \<Rightarrow> pdr res \<times> 'w" where
  "get_pdr S i w =
     (case query_row S 4 ''SELECT id, title, content, created_at FROM pdr_documents WHERE id = $1'' [i] w of
        (Inl e, w) \<Rightarrow> (Inl e, w) | (Inr c, w) \<Rightarrow> (Inr (to_pdr c), w))"

definition list_pdrs :: "'w store \<Rightarrow> 'w \<Rightarrow> pdr list res \<times> 'w" where
  "list_pdrs S w =
     (case query_rows S 4 list_pdrs_sql [] w of
        (Inl e, w) \<Rightarrow> (Inl e, w) | (Inr cs, w) \<Rightarrow> (Inr (map to_pdr cs), w))"

definition search_pdrs :: "'w store \<Rightarrow> string \<Rightarrow> 'w \<Rightarrow> pdr list res \<times> 'w" where
  "search_pdrs S query w =
     (case query_rows S 4 search_pdrs_sql [''%'' @ query @ ''%''] w of
        (Inl e, w) \<Rightarrow> (Inl e, w) | (Inr cs, w) \<Rightarrow> (Inr (map to_pdr cs), w))"

section \<open>Architecture decisions\<close>

definition adr_columns :: string where
  "adr_columns = ''SELECT id, title, context, decision, consequences, tags, created_at FROM architecture_decisions ''"

definition insert_adr_sql :: string where
  "insert_adr_sql =
     ''INSERT INTO architecture_decisions (title, context, decision, consequences, tags, created_at) VALUES ($1, $2, $3, $4, $5, $6) RETURNING id''"

definition store_adr :: "'w store \<Rightarrow> adr \<Rightarrow> 'w \<Rightarrow> goerr option \<times> adr \<times> 'w" where
  "store_adr S a w =
     (let (t, w) = now_text S w; a = a\<lparr>adr_created := t\<rparr>
      in case query_row S 1 insert_adr_sql
               [adr_title a, adr_context a, adr_decision a, adr_consequences a, adr_tags a, adr_created a] w of
           (Inl e, w) \<Rightarrow> (Some e, a, w)
         | (Inr c, w) \<Rightarrow> (None, a\<lparr>adr_id := c ! 0\<rparr>, w))"

text \<open>\<open>GetADR\<close> scans the tags into a local variable and drops them.\<close>

definition get_adr :: "'w store \<Rightarrow> string \<Rightarrow> 'w \<Rightarrow> adr res \<times> 'w" where
  "get_adr S i w =
     (case query_row S 7 (adr_columns @ ''WHERE id = $1'') [i] w of
        (Inl e, w) \<Rightarrow> (Inl e, w) | (Inr c, w) \<Rightarrow> (Inr (to_adr c\<lparr>adr_tags := []\<rparr>), w))"

definition list_adrs :: "'w store \<Rightarrow> 'w \<Rightarrow> adr list res \<times> 'w" where
  "list_adrs S w =
     (case query_rows S 7 (adr_columns @ ''ORDER BY created_at DESC'') [] w of
        (Inl e, w) \<Rightarrow> (Inl e, w) | (Inr cs, w) \<Rightarrow> (Inr (map to_adr cs), w))"

definition search_adrs :: "'w store \<Rightarrow> string \<Rightarrow> 'w \<Rightarrow> adr list res \<times> 'w" where
  "search_adrs S query w =
     (case query_rows S 7
             (adr_columns @
              ''WHERE title ILIKE $1 OR context ILIKE $1 OR decision ILIKE $1 ORDER BY created_at DESC'')
             [''%'' @ query @ ''%''] w of
        (Inl e, w) \<Rightarrow> (Inl e, w) | (Inr cs, w) \<Rightarrow> (Inr (map to_adr cs), w))"

section \<open>Coding preferences\<close>

definition insert_pref_sql :: string where
  "insert_pref_sql =
     ''INSERT INTO coding_preferences (category, rule, example, created_at) VALUES ($1, $2, $3, $4) RETURNING id''"

definition store_preference ::
    "'w store \<Rightarrow> coding_preference \<Rightarrow> 'w \<Rightarrow> goerr option \<times> coding_preference \<times> 'w" where
  "store_preference S p w =
     (let (t, w) = now_text S w; p = p\<lparr>cp_created := t\<rparr>
      in case query_row S 1 insert_pref_sql
               [cp_category p, cp_rule p, cp_example p, cp_created p] w of
           (Inl e, w) \<Rightarrow> (Some e, p, w)
         | (Inr c, w) \<Rightarrow> (None, p\<lparr>cp_id := c ! 0\<rparr>, w))"

definition get_preference :: "'w store \<Rightarrow> string \<Rightarrow> 'w \<Rightarrow> coding_preference res \<times> 'w" where
  "get_preference S i w =
     (case query_row S 5
             ''SELECT id, category, rule, example, created_at FROM coding_preferences WHERE id = $1'' [i] w of
        (Inl e, w) \<Rightarrow> (Inl e, w) | (Inr c, w) \<Rightarrow> (Inr (to_pref c), w))"

definition list_preferences :: "'w store \<Rightarrow> string \<Rightarrow> 'w \<Rightarrow> coding_preference list res \<times> 'w" where
  "list_preferences S category w =
     (let (q, args) =
            (if category \<noteq> []
             then (''SELECT id, category, rule, example, created_at FROM coding_preferences '' @
                   ''WHERE category = $1 ORDER BY created_at DESC'', [category])
             else (''SELECT id, category, rule, example, created_at FROM coding_preferences '' @
                   ''ORDER BY created_at DESC'', []))
      in case query_rows S 5 q args w of
           (Inl e, w) \<Rightarrow> (Inl e, w) | (Inr cs, w) \<Rightarrow> (Inr (map to_pref cs), w))"

section \<open>Memory entries\<close>

definition default_scores :: "(string, float32) gomap" where
  "default_scores = [(''adr'', f32_0_8), (''pref'', f32_0_7), (''mistake'', f32_0_6), (''pdr'', f32_0_5),
     (''sprint'', f32_0_5), (''operational'', f32_0_3)]"

definition get_default_score :: "string \<Rightarrow> float32" where
  "get_default_score ty = (case map_of default_scores ty of Some s \<Rightarrow> s | None \<Rightarrow> f32_0_3)"

text \<open>A failed search counts as no match; the content is not looked at.\<close>

definition is_duplicate ::
    "unicode_tables \<Rightarrow> 'w store \<Rightarrow> string \<Rightarrow> string \<Rightarrow> 'w \<Rightarrow> bool \<times> 'w" where
  "is_duplicate u S title content w =
     (case search_pdrs S title w of (pdrs, w) \<Rightarrow>
        if list_ex (\<lambda>p. equal_fold u (pdr_title p) title) (case pdrs of Inl _ \<Rightarrow> [] | Inr ps \<Rightarrow> ps)
        then (True, w)
        else (case search_adrs S title w of (adrs, w) \<Rightarrow>
                (list_ex (\<lambda>a. equal_fold u (adr_title a) title)
                   (case adrs of Inl _ \<Rightarrow> [] | Inr as \<Rightarrow> as), w)))"

definition create_memory ::
    "unicode_tables \<Rightarrow> 'w store \<Rightarrow> memory_entry \<Rightarrow> 'w \<Rightarrow> goerr option \<times> memory_entry \<times> 'w" where
  "create_memory u S entry w =
     (let (t, w) = now_text S w;
          entry = entry\<lparr>me_created := t, me_updated := t, me_priority := get_default_score (me_type entry)\<rparr>;
          (dup, w) = is_duplicate u S (me_title entry) (me_content entry) w
      in if dup then (Some ''duplicate memory entry'', entry, w)
         else if me_type entry = ''pdr'' then
           (case store_pdr S (zero_pdr\<lparr>pdr_title := me_title entry, pdr_content := me_content entry\<rparr>) w of
              (e, _, w) \<Rightarrow> (e, entry, w))
         else if me_type entry = ''adr'' then
           (case store_adr S (zero_adr\<lparr>adr_title := me_title entry, adr_context := me_content entry\<rparr>) w of
              (e, _, w) \<Rightarrow> (e, entry, w))
         else if me_type entry = ''pref'' then
           (case store_preference S (zero_pref\<lparr>cp_category := me_data entry, cp_rule := me_title entry,
                   cp_example := me_content entry\<rparr>) w of
              (e, _, w) \<Rightarrow> (e, entry, w))
         else (Some (''unknown memory type: '' @ me_type entry), entry, w))"

definition pdr_entry :: "pdr \<Rightarrow> memory_entry" where
  "pdr_entry p = zero_entry\<lparr>me_id := pdr_id p, me_type := ''pdr'', me_title := pdr_title p,
     me_content := pdr_content p, me_created := pdr_created p\<rparr>"

definition adr_entry :: "adr \<Rightarrow> memory_entry" where
  "adr_entry a = zero_entry\<lparr>me_id := adr_id a, me_type := ''adr'', me_title := adr_title a,
     me_content := adr_context a, me_created := adr_created a\<rparr>"

definition pref_entry :: "coding_preference \<Rightarrow> memory_entry" where
  "pref_entry p = zero_entry\<lparr>me_id := cp_id p, me_type := ''pref'', me_title := cp_rule p,
     me_content := cp_example p, me_data := cp_category p, me_created := cp_created p\<rparr>"

definition list_memory :: "'w store \<Rightarrow> string \<Rightarrow> 'w \<Rightarrow> memory_entry list res \<times> 'w" where
  "list_memory S ty w =
     (if ty = ''pdr'' then (case list_pdrs S w of (r, w) \<Rightarrow> (map_sum id (map pdr_entry) r, w))
      else if ty = ''adr'' then (case list_adrs S w of (r, w) \<Rightarrow> (map_sum id (map adr_entry) r, w))
      else if ty = ''pref'' then
        (case list_preferences S [] w of (r, w) \<Rightarrow> (map_sum id (map pref_entry) r, w))
      else (Inl (''unknown memory type: '' @ ty), w))"

section \<open>Search\<close>

record search_result =
  sr_id :: string
  sr_type :: string
  sr_title :: string
  sr_content :: string
  sr_score :: float32

definition hour :: int where "hour = 3600 * 1000000000"

text \<open>
  The age in hours is a \<open>float64\<close>: the whole hours plus the rest divided by an hour. The sum is
  below one of the bounds 24, 168 and 720 exactly when the age is, since half a unit in the last
  place there is less than a nanosecond of an hour.
\<close>

definition recency_of_age :: "int \<Rightarrow> float32" where
  "recency_of_age age =
     (if age < 24 * hour then f32_0_5
      else if age < 168 * hour then f32_0_4
      else if age < 720 * hour then f32_0_2
      else f32_0_1)"

definition calculate_recency_score :: "'w store \<Rightarrow> string \<Rightarrow> 'w \<Rightarrow> float32 \<times> 'w" where
  "calculate_recency_score S created w =
     (case parse_rfc3339 S created of
        None \<Rightarrow> (f32_0_5, w)
      | Some t \<Rightarrow> (case now_wall S w of (now, w) \<Rightarrow> (recency_of_age (now - t), w)))"

definition calculate_score :: "'w store \<Rightarrow> string \<Rightarrow> string \<Rightarrow> 'w \<Rightarrow> float32 \<times> 'w" where
  "calculate_score S created ty w =
     (case calculate_recency_score S created w of (r, w) \<Rightarrow> (f32_add r (get_default_score ty), w))"

fun score_pdrs :: "'w store \<Rightarrow> pdr list \<Rightarrow> 'w \<Rightarrow> search_result list \<times> 'w" where
  "score_pdrs S [] w = ([], w)"
| "score_pdrs S (p # ps) w =
     (let (s, w) = calculate_score S (pdr_created p) ''pdr'' w; (rs, w) = score_pdrs S ps w
      in (\<lparr>sr_id = pdr_id p, sr_type = ''pdr'', sr_title = pdr_title p, sr_content = pdr_content p,
           sr_score = s\<rparr> # rs, w))"

fun score_adrs :: "'w store \<Rightarrow> adr list \<Rightarrow> 'w \<Rightarrow> search_result list \<times> 'w" where
  "score_adrs S [] w = ([], w)"
| "score_adrs S (a # as) w =
     (let (s, w) = calculate_recency_score S (adr_created a) w; (rs, w) = score_adrs S as w
      in (\<lparr>sr_id = adr_id a, sr_type = ''adr'', sr_title = adr_title a, sr_content = adr_decision a,
           sr_score = f32_add s f32_0_2\<rparr> # rs, w))"

text \<open>\<open>SearchMemory\<close> never returns an error: a failed search adds nothing.\<close>

definition search_memory ::
    "'w store \<Rightarrow> string \<Rightarrow> int \<Rightarrow> 'w \<Rightarrow> search_result list res outcome \<times> 'w" where
  "search_memory S query limit w =
     (let (pdrs, w) = search_pdrs S query w;
          (r1, w) = (case pdrs of Inl _ \<Rightarrow> ([], w) | Inr ps \<Rightarrow> score_pdrs S ps w);
          (adrs, w) = search_adrs S query w;
          (r2, w) = (case adrs of Inl _ \<Rightarrow> ([], w) | Inr as \<Rightarrow> score_adrs S as w);
          results = r1 @ r2
      in (if limit < int (length results)
          then obind (slice_to results limit) (\<lambda>rs. Ret (Inr rs))
          else Ret (Inr results), w))"

section \<open>Reads\<close>

text \<open>A predicate of the world that reading the clock and running a SELECT keep.\<close>

definition kept_by_reads :: "'w store \<Rightarrow> ('w \<Rightarrow> bool) \<Rightarrow> bool" where
  "kept_by_reads S P \<longleftrightarrow>
     (\<forall>w. P w \<longrightarrow> P (snd (now_text S w)) \<and> P (snd (now_wall S w))) \<and>
     (\<forall>q args w. has_prefix q ''SELECT'' \<longrightarrow> P w \<longrightarrow> P (snd (db_query S q args w)))"

named_theorems reads \<open>operations that only read\<close>

lemma keptD:
  assumes "kept_by_reads S P" and "P w"
  shows "P (snd (now_text S w))" and "P (snd (now_wall S w))"
    and "has_prefix q ''SELECT'' \<Longrightarrow> P (snd (db_query S q args w))"
  using assms by (auto simp: kept_by_reads_def)

lemma query_rows_reads [reads]:
  "kept_by_reads S P \<Longrightarrow> P w \<Longrightarrow> has_prefix q ''SELECT'' \<Longrightarrow> P (snd (query_rows S n q args w))"
  using keptD(3) [of S P w q args] by (auto simp: query_rows_def split: prod.splits sum.splits)

lemma search_pdrs_reads [reads]:
  "kept_by_reads S P \<Longrightarrow> P w \<Longrightarrow> P (snd (search_pdrs S q w))"
  using query_rows_reads [of S P w search_pdrs_sql 4 "[''%'' @ q @ ''%'']"]
  by (auto simp: search_pdrs_def search_pdrs_sql_def split: prod.splits sum.splits)

lemma search_adrs_reads [reads]:
  "kept_by_reads S P \<Longrightarrow> P w \<Longrightarrow> P (snd (search_adrs S q w))"
  using query_rows_reads [of S P w "adr_columns @ ''WHERE title ILIKE $1 OR context ILIKE $1 OR decision ILIKE $1 ORDER BY created_at DESC''"
      7 "[''%'' @ q @ ''%'']"]
  by (auto simp: search_adrs_def adr_columns_def split: prod.splits sum.splits)

lemma is_duplicate_reads [reads]:
  assumes "kept_by_reads S P" and "P w"
  shows "P (snd (is_duplicate u S t c w))"
  using search_pdrs_reads [OF assms, of t] search_adrs_reads [OF assms(1), of _ t]
  by (auto simp: is_duplicate_def split: prod.splits) (metis snd_conv)

lemma recency_reads [reads]:
  "kept_by_reads S P \<Longrightarrow> P w \<Longrightarrow> P (snd (calculate_recency_score S c w))"
  using keptD(2) [of S P w] by (auto simp: calculate_recency_score_def split: option.splits prod.splits)

lemma score_pdrs_reads [reads]:
  "kept_by_reads S P \<Longrightarrow> P w \<Longrightarrow> P (snd (score_pdrs S ps w))"
proof (induction ps arbitrary: w)
  case (Cons p ps)
  then have "P (snd (calculate_score S (pdr_created p) ''pdr'' w))"
    using recency_reads [of S P w "pdr_created p"] by (simp add: calculate_score_def case_prod_beta)
  from Cons.IH [OF Cons.prems(1) this] show ?case by (simp add: case_prod_beta Let_def)
qed simp

lemma score_adrs_reads [reads]:
  "kept_by_reads S P \<Longrightarrow> P w \<Longrightarrow> P (snd (score_adrs S as w))"
proof (induction as arbitrary: w)
  case (Cons a as)
  then have "P (snd (calculate_recency_score S (adr_created a) w))" by (simp add: recency_reads)
  from Cons.IH [OF Cons.prems(1) this] show ?case by (simp add: case_prod_beta Let_def)
qed simp

lemma search_memory_reads [reads]:
  assumes "kept_by_reads S P" and "P w"
  shows "P (snd (search_memory S q limit w))"
proof -
  obtain pdrs w1 where 1: "search_pdrs S q w = (pdrs, w1)" by (cases "search_pdrs S q w")
  obtain r1 w2 where 2: "(case pdrs of Inl _ \<Rightarrow> ([], w1) | Inr ps \<Rightarrow> score_pdrs S ps w1) = (r1, w2)"
    by (metis prod.exhaust)
  obtain adrs w3 where 3: "search_adrs S q w2 = (adrs, w3)" by (cases "search_adrs S q w2")
  obtain r2 w4 where 4: "(case adrs of Inl _ \<Rightarrow> ([], w3) | Inr as \<Rightarrow> score_adrs S as w3) = (r2, w4)"
    by (metis prod.exhaust)
  have "P w1" using search_pdrs_reads [OF assms, of q] 1 by simp
  then have "P w2" using 2 score_pdrs_reads [OF assms(1)] by (cases pdrs) (auto, metis snd_conv)
  then have "P w3" using search_adrs_reads [OF assms(1), of w2 q] 3 by simp
  then have "P w4" using 4 score_adrs_reads [OF assms(1)] by (cases adrs) (auto, metis snd_conv)
  then show ?thesis using 1 2 3 4 by (simp add: search_memory_def Let_def)
qed

lemma create_unknown_reads:
  assumes "kept_by_reads S P" and "P w" and "me_type entry \<notin> {''pdr'', ''adr'', ''pref''}"
  shows "P (snd (snd (create_memory u S entry w)))" and "fst (create_memory u S entry w) \<noteq> None"
  using assms(3) is_duplicate_reads [OF assms(1) keptD(1) [OF assms(1,2)]]
  by (simp_all add: create_memory_def Let_def case_prod_beta)

section \<open>What a creation leaves\<close>

lemma create_memory_entry:
  assumes "create_memory u S entry w = (e, entry', w')"
  shows "entry' = entry\<lparr>me_created := fst (now_text S w), me_updated := fst (now_text S w),
      me_priority := get_default_score (me_type entry)\<rparr>"
  using assms by (simp add: create_memory_def Let_def case_prod_beta split: if_splits)

lemma create_memory_accepts:
  assumes "create_memory u S entry w = (None, entry', w')"
  shows "me_type entry \<in> {''pdr'', ''adr'', ''pref''} \<and>
    \<not> fst (is_duplicate u S (me_title entry) (me_content entry) (snd (now_text S w)))"
  using assms by (simp add: create_memory_def Let_def case_prod_beta split: if_splits)

lemma create_memory_pdr:
  assumes "create_memory u S entry w = (None, entry', w')" and "me_type entry = ''pdr''"
  shows "\<exists>i t w1 more. db_query S insert_pdr_sql [me_title entry, me_content entry, t] w1
    = (Inr ([Some i] # more), w')"
proof -
  let ?w0 = "snd (now_text S (snd (is_duplicate u S (me_title entry) (me_content entry) (snd (now_text S w)))))"
  let ?t = "fst (now_text S (snd (is_duplicate u S (me_title entry) (me_content entry) (snd (now_text S w)))))"
  let ?r = "db_query S insert_pdr_sql [me_title entry, me_content entry, ?t] ?w0"
  have "query_row S 1 insert_pdr_sql [me_title entry, me_content entry, ?t] ?w0 = (Inr c, w') \<Longrightarrow>
      \<exists>i more. ?r = (Inr ([Some i] # more), w')" for c
    by (auto simp: query_row_def scan_row_def length_Suc_conv
        split: prod.splits sum.splits list.splits if_splits)
  moreover have "\<exists>c. query_row S 1 insert_pdr_sql [me_title entry, me_content entry, ?t] ?w0 = (Inr c, w')"
    using assms
    by (auto simp: create_memory_def store_pdr_def zero_pdr_def Let_def case_prod_beta prod_eq_iff
        split: if_splits sum.splits prod.splits)
  ultimately show ?thesis by blast
qed

section \<open>The order of a search\<close>

lemma score_pdrs_types: "list_all (\<lambda>r. sr_type r = ''pdr'') (fst (score_pdrs S ps w))"
  by (induction ps arbitrary: w) (simp_all add: case_prod_beta Let_def)

lemma score_adrs_types: "list_all (\<lambda>r. sr_type r = ''adr'') (fst (score_adrs S as w))"
  by (induction as arbitrary: w) (simp_all add: case_prod_beta Let_def)

lemma length_score_pdrs [simp]: "length (fst (score_pdrs S ps w)) = length ps"
  by (induction ps arbitrary: w) (simp_all add: case_prod_beta Let_def)

definition found_pdrs :: "'w store \<Rightarrow> string \<Rightarrow> 'w \<Rightarrow> pdr list" where
  "found_pdrs S q w = (case fst (search_pdrs S q w) of Inl _ \<Rightarrow> [] | Inr ps \<Rightarrow> ps)"

lemma search_memory_parts:
  "\<exists>ps as. list_all (\<lambda>r. sr_type r = ''pdr'') ps \<and> list_all (\<lambda>r. sr_type r = ''adr'') as \<and>
     length ps = length (found_pdrs S q w) \<and>
     fst (search_memory S q limit w) =
       (if limit < 0 then Panic ''slice bounds out of range'' else Ret (Inr (take (nat limit) (ps @ as))))"
proof -
  let ?p = "search_pdrs S q w"
  let ?r1 = "case fst ?p of Inl _ \<Rightarrow> ([], snd ?p) | Inr ps \<Rightarrow> score_pdrs S ps (snd ?p)"
  let ?a = "search_adrs S q (snd ?r1)"
  let ?r2 = "case fst ?a of Inl _ \<Rightarrow> ([], snd ?a) | Inr as \<Rightarrow> score_adrs S as (snd ?a)"
  have r1: "list_all (\<lambda>r. sr_type r = ''pdr'') (fst ?r1)" "length (fst ?r1) = length (found_pdrs S q w)"
    by (simp_all add: score_pdrs_types found_pdrs_def split: sum.splits)
  have r2: "list_all (\<lambda>r. sr_type r = ''adr'') (fst ?r2)"
    by (simp add: score_adrs_types split: sum.splits)
  have "fst (search_memory S q limit w) =
      (if limit < int (length (fst ?r1 @ fst ?r2))
       then obind (slice_to (fst ?r1 @ fst ?r2) limit) (\<lambda>rs. Ret (Inr rs))
       else Ret (Inr (fst ?r1 @ fst ?r2)))"
    by (simp add: search_memory_def Let_def case_prod_beta)
  also have "\<dots> = (if limit < 0 then Panic ''slice bounds out of range''
      else Ret (Inr (take (nat limit) (fst ?r1 @ fst ?r2))))"
    by (simp add: slice_to_def)
  finally show ?thesis using r1 r2 by blast
qed

section \<open>Properties\<close>

text \<open>
  C34. A search shows product documents first: with a limit that is not negative
  \<open>SearchMemory\<close> returns at most that many results, never an error, all matching product documents before the
  first decision (whatever the scores), and a decision only when every product document found
  fits; a negative limit panics.
\<close>

theorem search_memory_order:
  "if limit < 0 then fst (search_memory S q limit w) = Panic ''slice bounds out of range''
   else \<exists>ps as. fst (search_memory S q limit w) = Ret (Inr (ps @ as)) \<and>
     int (length (ps @ as)) \<le> limit \<and>
     list_all (\<lambda>r. sr_type r = ''pdr'') ps \<and> list_all (\<lambda>r. sr_type r = ''adr'') as \<and>
     length ps = min (nat limit) (length (found_pdrs S q w))"
proof -
  obtain ps as where r: "list_all (\<lambda>r. sr_type r = ''pdr'') ps" "list_all (\<lambda>r. sr_type r = ''adr'') as"
      "length ps = length (found_pdrs S q w)"
      "fst (search_memory S q limit w) =
        (if limit < 0 then Panic ''slice bounds out of range'' else Ret (Inr (take (nat limit) (ps @ as))))"
    using search_memory_parts [of S q w limit] by (elim exE conjE)
  have t: "list_all Q (take n xs)" if "list_all Q xs" for Q :: "search_result \<Rightarrow> bool" and n xs
    using that by (auto simp: list_all_iff dest: in_set_takeD)
  show ?thesis
  proof (cases "limit < 0")
    case True
    then show ?thesis using r(4) by simp
  next
    case False
    let ?ps = "take (nat limit) ps" and ?as = "take (nat limit - length ps) as"
    have "fst (search_memory S q limit w) = Ret (Inr (?ps @ ?as))" using False r(4) by simp
    moreover have "int (length (?ps @ ?as)) \<le> limit" using False by simp
    moreover have "length ?ps = min (nat limit) (length (found_pdrs S q w))" using r(3) by simp
    ultimately show ?thesis
      unfolding if_not_P [OF False] using t [OF r(1)] t [OF r(2)] by blast
  qed
qed

text \<open>
  The scores: an older entry never scores higher, and at the same age a decision scores less
  than a product document, although the source calls decisions the higher priority and adds a
  boost.
\<close>

theorem decision_scores_below_document:
  "f32_add (recency_of_age age) f32_0_2 < f32_add (recency_of_age age) (get_default_score ''pdr'') \<and>
   recency_of_age (age + int later) \<le> recency_of_age age"
proof -
  have r: "recency_of_age age \<in> {f32_0_5, f32_0_4, f32_0_2, f32_0_1}" by (simp add: recency_of_age_def)
  have "f32_add f32_0_5 f32_0_2 < f32_add f32_0_5 f32_0_5" "f32_add f32_0_4 f32_0_2 < f32_add f32_0_4 f32_0_5"
    "f32_add f32_0_2 f32_0_2 < f32_add f32_0_2 f32_0_5" "f32_add f32_0_1 f32_0_2 < f32_add f32_0_1 f32_0_5"
    by code_simp+
  with r have "f32_add (recency_of_age age) f32_0_2 < f32_add (recency_of_age age) f32_0_5" by auto
  moreover have "get_default_score ''pdr'' = f32_0_5"
    by (simp add: get_default_score_def default_scores_def)
  moreover have "f32_0_1 \<le> f32_0_2" "f32_0_2 \<le> f32_0_4" "f32_0_4 \<le> f32_0_5" by code_simp+
  then have "recency_of_age (age + int later) \<le> recency_of_age age"
    by (auto simp: recency_of_age_def hour_def)
  ultimately show ?thesis by simp
qed

text \<open>
  Only three types can be created: an entry of any other type (\<open>mistake\<close>, \<open>sprint\<close> and
  \<open>operational\<close> among them, which have a default score and are produced by the webhooks) is
  refused with an error, and the refusal runs nothing but SELECT queries: every predicate of
  the world that reads keep still holds.
\<close>

theorem unknown_type_refused:
  assumes "kept_by_reads S P" and "P w"
    and "me_type entry \<noteq> ''pdr''" and "me_type entry \<noteq> ''adr''" and "me_type entry \<noteq> ''pref''"
  shows "P (snd (snd (create_memory u S entry w))) \<and> fst (create_memory u S entry w) \<noteq> None"
  using create_unknown_reads [OF assms(1,2), of entry u] assms(3-5) by simp

text \<open>A store that holds the titles and contents of product documents.\<close>

definition table_store :: "(string \<times> string) list store" where
  "table_store =
     \<lparr>db_query = (\<lambda>q args w.
        if q = insert_pdr_sql then (Inr [[Some (show_nat (length w))]], (args ! 0, args ! 1) # w)
        else if q = list_pdrs_sql
        then (Inr (map (\<lambda>(t, c). [Some ''id'', Some t, Some c, Some ''2024-01-01T00:00:00Z'']) w), w)
        else (Inr [], w)),
      db_scan_err = (\<lambda>_. ''scan''), now_text = (\<lambda>w. (''2024-01-01T00:00:00Z'', w)),
      now_wall = (\<lambda>w. (0, w)), parse_rfc3339 = (\<lambda>_. Some 0)\<rparr>"

theorem unknown_type_refused_witness:
  "snd (snd (create_memory ascii_tables table_store (zero_entry\<lparr>me_type := ''mistake'', me_title := ''t''\<rparr>) [])) = [] \<and>
   fst (create_memory ascii_tables table_store (zero_entry\<lparr>me_type := ''mistake'', me_title := ''t''\<rparr>) []) \<noteq> None"
proof -
  have "\<not> has_prefix insert_pdr_sql ''SELECT''" by (simp add: insert_pdr_sql_def)
  then have "kept_by_reads table_store (\<lambda>w. w = [])"
    by (auto simp: kept_by_reads_def table_store_def)
  from unknown_type_refused [OF this refl, of "zero_entry\<lparr>me_type := ''mistake'', me_title := ''t''\<rparr>" ascii_tables]
  show ?thesis by simp
qed

text \<open>
  What an accepted creation tells the caller: the type was one of the three, no title found by
  the two searches is equal to it up to case, and the entry keeps its own identifier (the one
  the database made is not copied back) while its times and its priority are set.
\<close>

theorem create_memory_reports:
  assumes "create_memory u S entry w = (None, entry', w')"
  shows "me_type entry \<in> {''pdr'', ''adr'', ''pref''} \<and>
    \<not> fst (is_duplicate u S (me_title entry) (me_content entry) (snd (now_text S w))) \<and>
    me_id entry' = me_id entry \<and> me_created entry' = fst (now_text S w) \<and>
    me_updated entry' = me_created entry' \<and> me_priority entry' = get_default_score (me_type entry)"
  using create_memory_accepts [OF assms] create_memory_entry [OF assms] by simp

lemma table_store_pdr:
  "create_memory u table_store (zero_entry\<lparr>me_type := ''pdr'', me_title := ''t'', me_content := ''c''\<rparr>) [] =
     (None, zero_entry\<lparr>me_type := ''pdr'', me_title := ''t'', me_content := ''c'',
        me_created := ''2024-01-01T00:00:00Z'', me_updated := ''2024-01-01T00:00:00Z'',
        me_priority := f32_0_5\<rparr>, [(''t'', ''c'')])"
proof -
  have empty: "query_rows table_store n q a [] = (Inr [], w)"
    if "q \<noteq> insert_pdr_sql" "w = []" for n q a w
    using that by (simp add: query_rows_def table_store_def)
  have neq: "adr_columns @ s \<noteq> insert_pdr_sql" for s by (simp add: adr_columns_def insert_pdr_sql_def)
  have "fst (is_duplicate u table_store ''t'' ''c'' []) = False \<and> snd (is_duplicate u table_store ''t'' ''c'' []) = []"
    using neq empty
    by (simp add: is_duplicate_def search_pdrs_def search_adrs_def insert_pdr_sql_def search_pdrs_sql_def)
  then have dup: "is_duplicate u table_store ''t'' ''c'' [] = (False, [])"
    by (simp add: prod_eq_iff)
  have score: "get_default_score ''pdr'' = f32_0_5"
    by (simp add: get_default_score_def default_scores_def)
  have now: "now_text table_store w = (''2024-01-01T00:00:00Z'', w)" for w by (simp add: table_store_def)
  have ins: "query_row table_store (Suc 0) insert_pdr_sql [''t'', ''c'', x] [] = (Inr [show_nat 0], [(''t'', ''c'')])" for x
    by (simp add: query_row_def table_store_def scan_row_def)
  show ?thesis
    by (simp add: create_memory_def store_pdr_def zero_pdr_def zero_entry_def dup now score ins)
qed

theorem create_memory_reports_witness:
  "\<exists>e' w'. create_memory ascii_tables table_store
      (zero_entry\<lparr>me_type := ''pdr'', me_title := ''t'', me_content := ''c''\<rparr>) [] = (None, e', w') \<and>
     me_id e' = [] \<and> w' \<noteq> []"
  using create_memory_reports [OF table_store_pdr] table_store_pdr by (simp add: zero_entry_def)

text \<open>
  What the database documents of the two statements: after an INSERT that returned an identifier
  the list query yields a row with it and the title and content of the arguments, and every row
  has its four columns filled (they are NOT NULL or have a default).
\<close>

definition pdr_table_law :: "'w store \<Rightarrow> bool" where
  "pdr_table_law S \<longleftrightarrow>
     (\<forall>t c ts w i more w'.
        db_query S insert_pdr_sql [t, c, ts] w = (Inr ([Some i] # more), w') \<longrightarrow>
        (\<exists>rows w''. db_query S list_pdrs_sql [] w' = (Inr rows, w'') \<and>
           (\<exists>j ts'. [Some j, Some t, Some c, Some ts'] \<in> set rows) \<and>
           list_all (\<lambda>r. length r = 4 \<and> list_all (\<lambda>x. x \<noteq> None) r) rows))"

lemma scan_rows_total:
  "list_all (\<lambda>r. length r = n \<and> list_all (\<lambda>x. x \<noteq> None) r) rows \<Longrightarrow>
     scan_rows S n rows = Inr (map (map the) rows)"
  by (induction rows) (simp_all add: scan_row_def)

text \<open>
  C35. Create, then list: over a database that keeps its documented law, a product document that was
  created is in the next listing of its type, with its title and content.
\<close>

theorem created_document_listed:
  assumes "pdr_table_law S" and "me_type entry = ''pdr''"
    and "create_memory u S entry w = (None, entry', w')"
  shows "\<exists>es w''. list_memory S ''pdr'' w' = (Inr es, w'') \<and>
    (\<exists>x \<in> set es. me_type x = ''pdr'' \<and> me_title x = me_title entry \<and> me_content x = me_content entry)"
proof -
  obtain i t w1 more where "db_query S insert_pdr_sql [me_title entry, me_content entry, t] w1
      = (Inr ([Some i] # more), w')"
    using create_memory_pdr [OF assms(3,2)] by blast
  with assms(1) obtain rows w'' j ts where rows: "db_query S list_pdrs_sql [] w' = (Inr rows, w'')"
      "[Some j, Some (me_title entry), Some (me_content entry), Some ts] \<in> set rows"
      "list_all (\<lambda>r. length r = 4 \<and> list_all (\<lambda>x. x \<noteq> None) r) rows"
    unfolding pdr_table_law_def by blast
  have "list_memory S ''pdr'' w' = (Inr (map (\<lambda>r. pdr_entry (to_pdr (map the r))) rows), w'')"
    using rows(1) scan_rows_total [OF rows(3), of S]
    by (simp add: list_memory_def list_pdrs_def query_rows_def)
  with rows(2) show ?thesis
    by (force simp: pdr_entry_def to_pdr_def)
qed

theorem created_document_listed_witness:
  "\<exists>es w''. list_memory table_store ''pdr'' [(''t'', ''c'')] = (Inr es, w'') \<and>
     (\<exists>x \<in> set es. me_title x = ''t'' \<and> me_content x = ''c'')"
proof -
  have "insert_pdr_sql \<noteq> list_pdrs_sql" by (simp add: insert_pdr_sql_def list_pdrs_sql_def)
  then have "pdr_table_law table_store"
    by (auto simp: pdr_table_law_def table_store_def list_all_iff)
  from created_document_listed [OF this _ table_store_pdr] show ?thesis by auto
qed

end
