(* ===== verification/Memory_Tables.thy ===== *)
theory Memory_Tables
  imports Memory System
begin

text \<open>
  The repository of Memory.thy over the tables of \<open>src/migrations\<close>, with several requests at once.

  \<open>net/http\<close> runs every handler in a goroutine of its own, and \<open>CreateMemory\<close> of
  \<open>internal/memory/postgres.go\<close> runs up to three statements without a transaction: two searches for the title
  and the INSERT. Each statement is one move of a thread; other requests move in between. The
  lemma \<open>creation_alone\<close> says that a thread by itself does what \<open>create_memory\<close> computes.

  What PostgreSQL documents of the statements is in two predicates: \<open>documents\<close> (rows are kept, and a
  search that answers with rows answers with all that match its LIKE pattern, of which \<open>like\<close> is the
  matching) and \<open>array_column\<close> (a text that is not an array literal is no value for the column
  \<open>tags TEXT[]\<close>). No statement is assumed to succeed, and the creation time may be NULL, as migration 001
  allows; \<open>SearchPDRs\<close> then ends with an error, which \<open>isDuplicate\<close> drops.
\<close>

section \<open>LIKE\<close>

text \<open>Percent stands for any text, underscore for a character, and a backslash for the character after it.\<close>

fun like :: "rune list \<Rightarrow> rune list \<Rightarrow> bool" where
  "like [] s \<longleftrightarrow> s = []"
| "like (c # p) s \<longleftrightarrow>
     (if c = 37 then like p s \<or> (case s of [] \<Rightarrow> False | _ # s' \<Rightarrow> like (c # p) s')
      else (case s of
              [] \<Rightarrow> False
            | x # s' \<Rightarrow>
                if c = 95 then like p s'
                else if c = 92 then (case p of [] \<Rightarrow> False | d # p' \<Rightarrow> d = x \<and> like p' s')
                else c = x \<and> like p s'))"

text \<open>Without a backslash a text matches itself as a pattern, and so it does between percent signs.\<close>

lemma like_self_percent: "92 \<notin> set t \<Longrightarrow> like (t @ [37]) t"
  by (induction t) auto

lemma like_title: "92 \<notin> set t \<Longrightarrow> like (37 # t @ [37]) t"
  using like_self_percent by simp

text \<open>With one it need not: no search for the title \<open>1\2\<close> finds the title \<open>1\2\<close>.\<close>

lemma backslash_title_hidden: "\<not> like [37, 49, 92, 50, 37] [49, 92, 50]"
  by simp

lemma runes_pattern:
  assumes "valid_utf8 t"
  shows "runes (''%'' @ t @ ''%'') = 37 # runes t @ [37]"
proof -
  have t: "t = utf8 (runes t)" using assms by (simp add: valid_utf8_def)
  have "runes (t @ ''%'') = runes t @ runes ''%''"
    by (subst t) (rule runes_utf8_append, blast intro: runes_scalar)
  then show ?thesis by (simp add: runes_ascii_Cons)
qed

section \<open>The tables\<close>

text \<open>
  \<open>docs w\<close>: titles and contents of the rows of \<open>pdr_documents\<close>. Nothing the program runs deletes a row.
  A search may fail; one that answers has a row for every document that matches.
\<close>

definition documents :: "'w store \<Rightarrow> ('w \<Rightarrow> (string \<times> string) set) \<Rightarrow> bool" where
  "documents S docs \<longleftrightarrow>
     (\<forall>d. kept_by_reads S (\<lambda>w. d \<in> docs w)) \<and>
     (\<forall>q args w. has_prefix q ''INSERT'' \<longrightarrow> docs w \<subseteq> docs (snd (db_query S q args w))) \<and>
     (\<forall>t c ts w i rs w'. db_query S insert_pdr_sql [t, c, ts] w = (Inr ([Some i] # rs), w') \<longrightarrow>
        (t, c) \<in> docs w') \<and>
     (\<forall>t c w. (t, c) \<in> docs w \<longrightarrow> valid_utf8 t) \<and>
     (\<forall>p w rows w' t c. db_query S search_pdrs_sql [p] w = (Inr rows, w') \<longrightarrow> (t, c) \<in> docs w \<longrightarrow>
        like (runes p) (runes t) \<longrightarrow>
        (\<exists>i created. [i, Some t, Some c, created] \<in> set rows))"

text \<open>The input of an array: a brace, or the bounds in brackets, after white space.\<close>

definition array_literal :: "string \<Rightarrow> bool" where
  "array_literal s \<longleftrightarrow>
     (case dropWhile (\<lambda>c. c \<in> set '' '' \<union> {CHR 0x09, CHR 0x0A, CHR 0x0B, CHR 0x0C, CHR 0x0D}) s of
        [] \<Rightarrow> False | c # _ \<Rightarrow> c = CHR ''{'' \<or> c = CHR ''['')"

definition array_column :: "'w store \<Rightarrow> ('w \<Rightarrow> bool) \<Rightarrow> bool" where
  "array_column S P \<longleftrightarrow>
     (\<forall>title context decision consequences tags created w. P w \<longrightarrow> \<not> array_literal tags \<longrightarrow>
        (\<exists>e w'. db_query S insert_adr_sql [title, context, decision, consequences, tags, created] w
           = (Inl e, w') \<and> P w'))"

lemma documents_kept: "documents S docs \<Longrightarrow> kept_by_reads S (\<lambda>w. d \<in> docs w)"
  unfolding documents_def by (elim conjE) (erule allE, assumption)

lemma documents_insert:
  "documents S docs \<Longrightarrow> d \<in> docs w \<Longrightarrow> has_prefix q ''INSERT'' \<Longrightarrow> d \<in> docs (snd (db_query S q args w))"
  unfolding documents_def by (elim conjE) blast

lemma documents_inserted:
  "documents S docs \<Longrightarrow> db_query S insert_pdr_sql [t, c, ts] w = (Inr ([Some i] # rs), w') \<Longrightarrow> (t, c) \<in> docs w'"
  unfolding documents_def by (elim conjE) blast

lemma documents_utf8: "documents S docs \<Longrightarrow> (t, c) \<in> docs w \<Longrightarrow> valid_utf8 t"
  unfolding documents_def by (elim conjE) blast

lemma documents_found:
  "documents S docs \<Longrightarrow> db_query S search_pdrs_sql [p] w = (Inr rows, w') \<Longrightarrow> (t, c) \<in> docs w \<Longrightarrow>
     like (runes p) (runes t) \<Longrightarrow> \<exists>i created. [i, Some t, Some c, created] \<in> set rows"
  unfolding documents_def by (elim conjE) meson

section \<open>A creation in its statements\<close>

definition stamp_entry :: "string \<Rightarrow> memory_entry \<Rightarrow> memory_entry" where
  "stamp_entry t entry =
     entry\<lparr>me_created := t, me_updated := t, me_priority := get_default_score (me_type entry)\<rparr>"

definition pdr_title_found :: "unicode_tables \<Rightarrow> 'w store \<Rightarrow> string \<Rightarrow> 'w \<Rightarrow> bool \<times> 'w" where
  "pdr_title_found u S title w =
     (case search_pdrs S title w of (pdrs, w) \<Rightarrow>
        (list_ex (\<lambda>p. equal_fold u (pdr_title p) title) (case pdrs of Inl _ \<Rightarrow> [] | Inr ps \<Rightarrow> ps), w))"

definition adr_title_found :: "unicode_tables \<Rightarrow> 'w store \<Rightarrow> string \<Rightarrow> 'w \<Rightarrow> bool \<times> 'w" where
  "adr_title_found u S title w =
     (case search_adrs S title w of (adrs, w) \<Rightarrow>
        (list_ex (\<lambda>a. equal_fold u (adr_title a) title) (case adrs of Inl _ \<Rightarrow> [] | Inr as \<Rightarrow> as), w))"

text \<open>The switch over the type.\<close>

definition store_entry :: "'w store \<Rightarrow> memory_entry \<Rightarrow> 'w \<Rightarrow> goerr option \<times> 'w" where
  "store_entry S entry w =
     (if me_type entry = ''pdr'' then
        (case store_pdr S (zero_pdr\<lparr>pdr_title := me_title entry, pdr_content := me_content entry\<rparr>) w of
           (e, _, w) \<Rightarrow> (e, w))
      else if me_type entry = ''adr'' then
        (case store_adr S (zero_adr\<lparr>adr_title := me_title entry, adr_context := me_content entry\<rparr>) w of
           (e, _, w) \<Rightarrow> (e, w))
      else if me_type entry = ''pref'' then
        (case store_preference S (zero_pref\<lparr>cp_category := me_data entry, cp_rule := me_title entry,
                cp_example := me_content entry\<rparr>) w of
           (e, _, w) \<Rightarrow> (e, w))
      else (Some (''unknown memory type: '' @ me_type entry), w))"

lemma stamp_entry_simps [simp]:
  "me_type (stamp_entry t e) = me_type e" "me_title (stamp_entry t e) = me_title e"
  "me_content (stamp_entry t e) = me_content e" "me_data (stamp_entry t e) = me_data e"
  by (simp_all add: stamp_entry_def)

lemma is_duplicate_parts:
  "is_duplicate u S title content w =
     (case pdr_title_found u S title w of
        (True, w) \<Rightarrow> (True, w) | (False, w) \<Rightarrow> adr_title_found u S title w)"
  by (simp add: is_duplicate_def pdr_title_found_def adr_title_found_def split: prod.splits)

lemma create_memory_parts:
  "create_memory u S entry w =
     (case now_text S w of (t, w) \<Rightarrow>
        (case is_duplicate u S (me_title entry) (me_content entry) w of (dup, w) \<Rightarrow>
           if dup then (Some ''duplicate memory entry'', stamp_entry t entry, w)
           else (case store_entry S (stamp_entry t entry) w of (e, w) \<Rightarrow> (e, stamp_entry t entry, w))))"
  by (simp add: create_memory_def store_entry_def stamp_entry_def Let_def case_prod_beta)

lemma pdr_title_reads [reads]:
  "kept_by_reads S P \<Longrightarrow> P w \<Longrightarrow> P (snd (pdr_title_found u S t w))"
  using search_pdrs_reads [of S P w t] by (simp add: pdr_title_found_def case_prod_beta)

lemma adr_title_reads [reads]:
  "kept_by_reads S P \<Longrightarrow> P w \<Longrightarrow> P (snd (adr_title_found u S t w))"
  using search_adrs_reads [of S P w t] by (simp add: adr_title_found_def case_prod_beta)

lemma scan_rows_full:
  "scan_rows S n rows = Inr css \<Longrightarrow> css = map (map the) rows \<and> (\<forall>r \<in> set rows. \<forall>x \<in> set r. x \<noteq> None)"
  by (induction rows arbitrary: css)
    (auto simp: scan_row_def list_all_iff split: if_splits sum.splits)

text \<open>A stored title without a backslash is found by the search for it, if that does not end with an error.\<close>

lemma stored_title_found:
  assumes "documents S docs" and "(t, c) \<in> docs w" and "92 \<notin> set (runes t)"
    and "fst (search_pdrs S t w) = Inr ps"
  shows "fst (pdr_title_found u S t w)"
proof -
  have t: "valid_utf8 t" by (rule documents_utf8 [OF assms(1,2)])
  from assms(4) obtain rows w' where q: "db_query S search_pdrs_sql [''%'' @ t @ ''%''] w = (Inr rows, w')"
    and ps: "ps = map to_pdr (map (map the) rows)"
    by (auto simp: search_pdrs_def query_rows_def dest!: scan_rows_full split: prod.splits sum.splits)
  have "like (runes (''%'' @ t @ ''%'')) (runes t)"
    unfolding runes_pattern [OF t] by (rule like_title [OF assms(3)])
  from documents_found [OF assms(1) q assms(2) this]
  obtain i ts where row: "[i, Some t, Some c, ts] \<in> set rows" by (elim exE)
  have "list_ex (\<lambda>p. equal_fold u (pdr_title p) t) ps"
    unfolding ps list_ex_iff map_map set_map
    by (rule bexI [OF _ imageI [OF row]]) (simp add: to_pdr_def)
  with assms(4) show ?thesis by (simp add: pdr_title_found_def case_prod_beta)
qed

section \<open>Requests, interleaved\<close>

datatype cm_place =
    NotCalled
  | Searching memory_entry
  | SearchingDecisions memory_entry
  | Storing memory_entry
  | Created memory_entry "goerr option"

inductive cm_move ::
    "unicode_tables \<Rightarrow> 'w store \<Rightarrow> tid \<Rightarrow> 'w \<Rightarrow> cm_place \<Rightarrow> 'w \<Rightarrow> cm_place \<Rightarrow> bool" for u S where
  cm_call: "now_text S w = (t, w') \<Longrightarrow> cm_move u S v w NotCalled w' (Searching (stamp_entry t e))"
| cm_document: "pdr_title_found u S (me_title e) w = (True, w') \<Longrightarrow>
    cm_move u S v w (Searching e) w' (Created e (Some ''duplicate memory entry''))"
| cm_no_document: "pdr_title_found u S (me_title e) w = (False, w') \<Longrightarrow>
    cm_move u S v w (Searching e) w' (SearchingDecisions e)"
| cm_decision: "adr_title_found u S (me_title e) w = (True, w') \<Longrightarrow>
    cm_move u S v w (SearchingDecisions e) w' (Created e (Some ''duplicate memory entry''))"
| cm_no_decision: "adr_title_found u S (me_title e) w = (False, w') \<Longrightarrow>
    cm_move u S v w (SearchingDecisions e) w' (Storing e)"
| cm_store: "store_entry S e w = (r, w') \<Longrightarrow> cm_move u S v w (Storing e) w' (Created e r)"

inductive_cases cm_moveE: "cm_move u S v w l w' l'"

text \<open>The other handlers and processes read and insert.\<close>

inductive cm_env :: "('w \<Rightarrow> (string \<times> string) set) \<Rightarrow> 'w \<Rightarrow> 'w \<Rightarrow> bool" for docs where
  cm_env_others: "docs w \<subseteq> docs w' \<Longrightarrow> cm_env docs w w'"

abbreviation creations ::
    "unicode_tables \<Rightarrow> 'w store \<Rightarrow> ('w \<Rightarrow> (string \<times> string) set) \<Rightarrow> 'w \<Rightarrow>
       'w \<times> (tid \<Rightarrow> cm_place) \<Rightarrow> bool" where
  "creations u S docs w0 \<equiv> reaches (pool_step (cm_move u S) (cm_env docs)) (w0, \<lambda>_. NotCalled)"

lemma creations_move:
  "creations u S docs w0 (w, f) \<Longrightarrow> f v = l \<Longrightarrow> cm_move u S v w l w' l' \<Longrightarrow>
     creations u S docs w0 (w', f(v := l'))"
  by (rule pool_moves)

text \<open>A request that nobody interrupts does what \<open>create_memory\<close> computes.\<close>

lemma creation_alone:
  assumes "creations u S docs w0 (w, f)" and "f v = NotCalled"
    and "create_memory u S e w = (r, e', w')"
  shows "creations u S docs w0 (w', f(v := Created e' r))"
proof -
  obtain t w1 where t: "now_text S w = (t, w1)" by (cases "now_text S w")
  let ?e = "stamp_entry t e"
  have m1: "creations u S docs w0 (w1, f(v := Searching ?e))"
    by (rule creations_move [OF assms(1,2) cm_call [OF t]])
  obtain b w2 where b: "pdr_title_found u S (me_title ?e) w1 = (b, w2)"
    by (cases "pdr_title_found u S (me_title ?e) w1")
  show ?thesis
  proof (cases b)
    case True
    with b have b': "pdr_title_found u S (me_title ?e) w1 = (True, w2)" by simp
    with assms(3) t have "(r, e', w') = (Some ''duplicate memory entry'', ?e, w2)"
      by (simp add: create_memory_parts is_duplicate_parts)
    moreover have "creations u S docs w0 (w2, (f(v := Searching ?e))
        (v := Created ?e (Some ''duplicate memory entry'')))"
      by (rule creations_move [OF m1 fun_upd_same cm_document [OF b']])
    ultimately show ?thesis by simp
  next
    case False
    with b have b': "pdr_title_found u S (me_title ?e) w1 = (False, w2)" by simp
    have m2: "creations u S docs w0 (w2, (f(v := Searching ?e))(v := SearchingDecisions ?e))"
      by (rule creations_move [OF m1 fun_upd_same cm_no_document [OF b']])
    obtain d w3 where d: "adr_title_found u S (me_title ?e) w2 = (d, w3)"
      by (cases "adr_title_found u S (me_title ?e) w2")
    show ?thesis
    proof (cases d)
      case True
      with d have d': "adr_title_found u S (me_title ?e) w2 = (True, w3)" by simp
      with assms(3) t b' have "(r, e', w') = (Some ''duplicate memory entry'', ?e, w3)"
        by (simp add: create_memory_parts is_duplicate_parts)
      moreover have "creations u S docs w0 (w3, (f(v := Searching ?e, v := SearchingDecisions ?e))
          (v := Created ?e (Some ''duplicate memory entry'')))"
        by (rule creations_move [OF m2 fun_upd_same cm_decision [OF d']])
      ultimately show ?thesis by simp
    next
      case False
      with d have d': "adr_title_found u S (me_title ?e) w2 = (False, w3)" by simp
      have m3: "creations u S docs w0 (w3, (f(v := Searching ?e, v := SearchingDecisions ?e))(v := Storing ?e))"
        by (rule creations_move [OF m2 fun_upd_same cm_no_decision [OF d']])
      obtain x w4 where x: "store_entry S ?e w3 = (x, w4)" by (cases "store_entry S ?e w3")
      with assms(3) t b' d' have "(r, e', w') = (x, ?e, w4)"
        by (simp add: create_memory_parts is_duplicate_parts)
      moreover have "creations u S docs w0 (w4, (f(v := Searching ?e, v := SearchingDecisions ?e, v := Storing ?e))
          (v := Created ?e x))"
        by (rule creations_move [OF m3 fun_upd_same cm_store [OF x]])
      ultimately show ?thesis by simp
    qed
  qed
qed

section \<open>What is stored stays\<close>

lemma query_row_world: "snd (query_row S n q args w) = snd (db_query S q args w)"
  by (simp add: query_row_def split: prod.splits sum.splits list.splits)

lemma store_worlds:
  "snd (snd (store_pdr S p w)) = snd (db_query S insert_pdr_sql
     [pdr_title p, pdr_content p, fst (now_text S w)] (snd (now_text S w)))"
  "snd (snd (store_adr S a w)) = snd (db_query S insert_adr_sql
     [adr_title a, adr_context a, adr_decision a, adr_consequences a, adr_tags a, fst (now_text S w)]
     (snd (now_text S w)))"
  "snd (snd (store_preference S c w)) = snd (db_query S insert_pref_sql
     [cp_category c, cp_rule c, cp_example c, fst (now_text S w)] (snd (now_text S w)))"
  by (simp_all add: store_pdr_def store_adr_def store_preference_def Let_def case_prod_beta
      query_row_world split: sum.splits)

lemma insert_prefixes:
  "has_prefix insert_pdr_sql ''INSERT''" "has_prefix insert_adr_sql ''INSERT''"
  "has_prefix insert_pref_sql ''INSERT''"
  by (simp_all add: insert_pdr_sql_def insert_adr_sql_def insert_pref_sql_def)

lemma store_entry_keeps:
  assumes "documents S docs" and "d \<in> docs w"
  shows "d \<in> docs (snd (store_entry S e w))"
proof -
  have now: "d \<in> docs (snd (now_text S w))"
    by (rule keptD(1) [OF documents_kept [OF assms(1)] assms(2)])
  show ?thesis
    using assms(2) documents_insert [OF assms(1) now] insert_prefixes
    by (simp add: store_entry_def case_prod_beta store_worlds)
qed

definition title_kept ::
    "'w store \<Rightarrow> ('w \<Rightarrow> (string \<times> string) set) \<Rightarrow> string \<Rightarrow> string \<Rightarrow> 'w \<Rightarrow> bool" where
  "title_kept S docs t c w \<longleftrightarrow> documents S docs \<and> 92 \<notin> set (runes t) \<and> (t, c) \<in> docs w"

lemma cm_move_keeps:
  assumes "documents S docs" and "d \<in> docs w" and "cm_move u S v w l w' l'"
  shows "d \<in> docs w'"
proof -
  note kept = documents_kept [OF assms(1), of d]
  from assms(3) show ?thesis
    using assms(2) keptD(1) [OF kept assms(2)] pdr_title_reads [OF kept assms(2), of u]
      adr_title_reads [OF kept assms(2), of u] store_entry_keeps [OF assms(1,2)]
    by cases (metis snd_conv)+
qed

lemma title_kept_move: "title_kept S docs t c w \<Longrightarrow> cm_move u S v w l w' l' \<Longrightarrow> title_kept S docs t c w'"
  using cm_move_keeps by (auto simp: title_kept_def)

lemma title_kept_env: "title_kept S docs t c w \<Longrightarrow> cm_env docs w w' \<Longrightarrow> title_kept S docs t c w'"
  by (auto simp: title_kept_def elim!: cm_env.cases)

interpretation cm_kept: threads "cm_move u S" "cm_env docs" "title_kept S docs t c" "\<lambda>_ _ _. True"
  for u S docs t c
  by unfold_locales (auto intro: title_kept_move title_kept_env)

text \<open>What the first search for a stored title leads to: its result decides.\<close>

lemma stored_title_search:
  assumes "title_kept S docs t c w" and "me_title e = t"
    and "cm_move u S v w (Searching e) w' l"
  shows "case fst (search_pdrs S t w) of
      Inr ps \<Rightarrow> l = Created e (Some ''duplicate memory entry'')
    | Inl err \<Rightarrow> l = SearchingDecisions e"
proof (cases "fst (search_pdrs S t w)")
  case (Inl err)
  then have "\<not> fst (pdr_title_found u S t w)" by (simp add: pdr_title_found_def case_prod_beta)
  with assms(3) Inl show ?thesis by cases (auto simp: assms(2))
next
  case (Inr ps)
  with assms(1) have "fst (pdr_title_found u S t w)"
    by (auto simp: title_kept_def intro: stored_title_found)
  with assms(3) Inr show ?thesis by cases (auto simp: assms(2))
qed

lemma search_moves: "\<exists>w' l. cm_move u S v w (Searching e) w' l"
proof (cases "fst (pdr_title_found u S (me_title e) w)")
  case True
  then have "pdr_title_found u S (me_title e) w = (True, snd (pdr_title_found u S (me_title e) w))"
    by (simp add: prod_eq_iff)
  then show ?thesis by (blast intro: cm_document)
next
  case False
  then have "pdr_title_found u S (me_title e) w = (False, snd (pdr_title_found u S (me_title e) w))"
    by (simp add: prod_eq_iff)
  then show ?thesis by (blast intro: cm_no_document)
qed

text \<open>The runs in which no first search for the title ends with an error.\<close>

definition cm_answered ::
    "unicode_tables \<Rightarrow> 'w store \<Rightarrow> string \<Rightarrow> tid \<Rightarrow> 'w \<Rightarrow> cm_place \<Rightarrow> 'w \<Rightarrow> cm_place \<Rightarrow> bool" where
  "cm_answered u S t v w l w' l' \<longleftrightarrow>
     cm_move u S v w l w' l' \<and>
     (\<forall>e. l = Searching e \<longrightarrow> me_title e = t \<longrightarrow> (\<exists>ps. fst (search_pdrs S t w) = Inr ps))"

abbreviation answered_creations ::
    "unicode_tables \<Rightarrow> 'w store \<Rightarrow> string \<Rightarrow> ('w \<Rightarrow> (string \<times> string) set) \<Rightarrow> 'w \<Rightarrow>
       'w \<times> (tid \<Rightarrow> cm_place) \<Rightarrow> bool" where
  "answered_creations u S t docs w0 \<equiv>
     reaches (pool_step (cm_answered u S t) (cm_env docs)) (w0, \<lambda>_. NotCalled)"

fun title_refused :: "string \<Rightarrow> cm_place \<Rightarrow> bool" where
  "title_refused t (SearchingDecisions e) \<longleftrightarrow> me_title e \<noteq> t"
| "title_refused t (Storing e) \<longleftrightarrow> me_title e \<noteq> t"
| "title_refused t (Created e r) \<longleftrightarrow> me_title e = t \<longrightarrow> r = Some ''duplicate memory entry''"
| "title_refused t _ \<longleftrightarrow> True"

lemma cm_answered_own:
  assumes kept: "title_kept S docs t c w" and "title_refused t l" and "cm_answered u S t v w l w' l'"
  shows "title_kept S docs t c w' \<and> title_refused t l'"
proof
  from assms(3) have move: "cm_move u S v w l w' l'"
    and ans: "\<And>e. l = Searching e \<Longrightarrow> me_title e = t \<Longrightarrow> \<exists>ps. fst (search_pdrs S t w) = Inr ps"
    by (auto simp: cm_answered_def)
  show "title_kept S docs t c w'" by (rule title_kept_move [OF kept move])
  show "title_refused t l'"
  proof (cases "\<exists>e. l = Searching e \<and> me_title e = t")
    case True
    then obtain e where e: "l = Searching e" "me_title e = t" by blast
    from stored_title_search [OF kept e(2) move [unfolded e(1)]] ans [OF e] show ?thesis by auto
  next
    case False
    with move assms(2) show ?thesis by cases auto
  qed
qed

interpretation cm_threads: threads "cm_answered u S t" "cm_env docs" "title_kept S docs t c"
    "\<lambda>_ l _. title_refused t l" for u S docs t c
  by unfold_locales (auto intro: title_kept_env dest: cm_answered_own)

section \<open>Two creations at once\<close>

text \<open>The title is not found, and looking does not change that.\<close>

definition title_absent :: "unicode_tables \<Rightarrow> 'w store \<Rightarrow> string \<Rightarrow> ('w \<Rightarrow> bool) \<Rightarrow> bool" where
  "title_absent u S t P \<longleftrightarrow> kept_by_reads S P \<and>
     (\<forall>w. P w \<longrightarrow> \<not> fst (pdr_title_found u S t w) \<and> \<not> fst (adr_title_found u S t w))"

lemma absent_checks:
  assumes "title_absent u S t P" and "P w" and "me_title e = t"
    and "creations u S docs w0 (w, f)" and "f v = NotCalled"
  shows "\<exists>w' ts. P w' \<and> creations u S docs w0 (w', f(v := Storing (stamp_entry ts e)))"
proof -
  note kept = assms(1) [unfolded title_absent_def, THEN conjunct1]
  note absent = assms(1) [unfolded title_absent_def, THEN conjunct2, rule_format]
  obtain ts w1 where ts: "now_text S w = (ts, w1)" by (cases "now_text S w")
  let ?e = "stamp_entry ts e"
  have w1: "P w1" using keptD(1) [OF kept assms(2)] ts by simp
  obtain w2 where w2: "pdr_title_found u S (me_title ?e) w1 = (False, w2)"
    using absent [OF w1] assms(3) by (cases "pdr_title_found u S t w1") auto
  have p2: "P w2" using pdr_title_reads [OF kept w1, of u "me_title ?e"] w2 by simp
  obtain w3 where w3: "adr_title_found u S (me_title ?e) w2 = (False, w3)"
    using absent [OF p2] assms(3) by (cases "adr_title_found u S t w2") auto
  have p3: "P w3" using adr_title_reads [OF kept p2, of u "me_title ?e"] w3 by simp
  have m1: "creations u S docs w0 (w1, f(v := Searching ?e))"
    by (rule creations_move [OF assms(4,5) cm_call [OF ts]])
  have m2: "creations u S docs w0 (w2, f(v := Searching ?e, v := SearchingDecisions ?e))"
    by (rule creations_move [OF m1 fun_upd_same cm_no_document [OF w2]])
  have "creations u S docs w0
      (w3, f(v := Searching ?e, v := SearchingDecisions ?e, v := Storing ?e))"
    by (rule creations_move [OF m2 fun_upd_same cm_no_decision [OF w3]])
  with p3 show ?thesis by auto
qed

text \<open>One INSERT of a document with the time read before it, answered with its identifier.\<close>

definition inserts :: "'w store \<Rightarrow> string \<Rightarrow> string \<Rightarrow> 'w \<Rightarrow> 'w \<Rightarrow> bool" where
  "inserts S t c w w' \<longleftrightarrow>
     (\<exists>ts w1 i rs. now_text S w = (ts, w1) \<and>
        db_query S insert_pdr_sql [t, c, ts] w1 = (Inr ([Some i] # rs), w'))"

lemma inserted_stores:
  assumes "documents S docs" and ins: "inserts S (me_title e) (me_content e) w w'" and "me_type e = ''pdr''"
    and "creations u S docs w0 (w, f)" and "f v = Storing e"
  shows "creations u S docs w0 (w', f(v := Created e None)) \<and>
    (me_title e, me_content e) \<in> docs w' \<and> docs w \<subseteq> docs w'"
proof -
  from ins obtain ts w1 i rs where ts: "now_text S w = (ts, w1)"
    and q: "db_query S insert_pdr_sql [me_title e, me_content e, ts] w1 = (Inr ([Some i] # rs), w')"
    unfolding inserts_def by blast
  then have "query_row S (Suc 0) insert_pdr_sql [me_title e, me_content e, ts] w1 = (Inr [i], w')"
    by (simp add: query_row_def scan_row_def)
  with assms(3) ts have store: "store_entry S e w = (None, w')"
    by (simp add: store_entry_def store_pdr_def zero_pdr_def)
  have "docs w \<subseteq> docs w'" using store_entry_keeps [OF assms(1), of _ w e] store by auto
  with creations_move [OF assms(4,5) cm_store [OF store]] documents_inserted [OF assms(1) q]
  show ?thesis by blast
qed

section \<open>Decisions\<close>

text \<open>\<open>CreateMemory\<close> leaves the tags of a decision empty, and an empty text is no array.\<close>

lemma decision_refused:
  assumes "kept_by_reads S P" and "array_column S P" and "P w" and "me_type e = ''adr''"
  shows "fst (create_memory u S e w) \<noteq> None" and "P (snd (snd (create_memory u S e w)))"
proof -
  obtain t w1 where t: "now_text S w = (t, w1)" by (cases "now_text S w")
  have w1: "P w1" using keptD(1) [OF assms(1,3)] t by simp
  obtain dup w2 where dup: "is_duplicate u S (me_title e) (me_content e) w1 = (dup, w2)"
    by (cases "is_duplicate u S (me_title e) (me_content e) w1")
  have w2: "P w2" using is_duplicate_reads [OF assms(1) w1, of u "me_title e" "me_content e"] dup by simp
  obtain ts w3 where ts: "now_text S w2 = (ts, w3)" by (cases "now_text S w2")
  have "P w3" using keptD(1) [OF assms(1) w2] ts by simp
  moreover have "\<not> array_literal []" by (simp add: array_literal_def)
  ultimately obtain err w4 where
    "db_query S insert_adr_sql [me_title e, me_content e, [], [], [], ts] w3 = (Inl err, w4)" "P w4"
    using assms(2) unfolding array_column_def by blast
  then have "store_entry S (stamp_entry t e) w2 = (Some err, w4)" "P w4"
    using assms(4) ts by (simp_all add: store_entry_def store_adr_def zero_adr_def query_row_def)
  with t dup w2 show "fst (create_memory u S e w) \<noteq> None" "P (snd (snd (create_memory u S e w)))"
    by (simp_all add: create_memory_parts)
qed

section \<open>A database that keeps the laws\<close>

definition doc_store :: "(string \<times> string) list store" where
  "doc_store =
     \<lparr>db_query = (\<lambda>q args w.
        if q = insert_pdr_sql then
          (if valid_utf8 (args ! 0)
           then (Inr [[Some (show_nat (length w))]], (args ! 0, args ! 1) # w)
           else (Inl ''invalid byte sequence'', w))
        else if q = insert_adr_sql then
          (if array_literal (args ! 4) then (Inr [[Some ''id'']], w)
           else (Inl ''malformed array literal'', w))
        else if q = search_pdrs_sql then
          (Inr (map (\<lambda>(t, c). [Some ''id'', Some t, Some c, Some ''2024-01-01T00:00:00Z''])
             (filter (\<lambda>(t, c). like (runes (args ! 0)) (runes t) \<or> like (runes (args ! 0)) (runes c)) w)), w)
        else (Inr [], w)),
      db_scan_err = (\<lambda>_. ''scan''), now_text = (\<lambda>w. (''2024-01-01T00:00:00Z'', w)),
      now_wall = (\<lambda>w. (0, w)), parse_rfc3339 = (\<lambda>_. Some 0)\<rparr>"

definition doc_rows :: "(string \<times> string) list \<Rightarrow> (string \<times> string) set" where
  "doc_rows w = {d \<in> set w. valid_utf8 (fst d)}"

lemma doc_store_sql:
  "insert_adr_sql \<noteq> insert_pdr_sql" "search_pdrs_sql \<noteq> insert_pdr_sql" "search_pdrs_sql \<noteq> insert_adr_sql"
  "\<not> has_prefix insert_pdr_sql ''SELECT''"
  by (simp_all add: insert_adr_sql_def insert_pdr_sql_def search_pdrs_sql_def)

lemma doc_store_reads: "kept_by_reads doc_store P"
  using doc_store_sql(4) by (auto simp: kept_by_reads_def doc_store_def)

lemma doc_store_documents: "documents doc_store doc_rows"
proof -
  have "doc_rows w \<subseteq> doc_rows (snd (db_query doc_store q args w))" for q args w
    by (auto simp: doc_store_def doc_rows_def)
  moreover have "(t, c) \<in> doc_rows w'"
    if "db_query doc_store insert_pdr_sql [t, c, ts] w = (Inr ([Some i] # rs), w')" for t c ts w i rs w'
    using that by (auto simp: doc_store_def doc_rows_def split: if_splits)
  moreover have "\<exists>i created. [i, Some t, Some c, created] \<in> set rows"
    if "db_query doc_store search_pdrs_sql [p] w = (Inr rows, w')" "(t, c) \<in> doc_rows w"
      "like (runes p) (runes t)" for p w rows w' t c
    using that doc_store_sql by (force simp: doc_store_def doc_rows_def)
  moreover have "(t, c) \<in> doc_rows w \<Longrightarrow> valid_utf8 t" for t c w by (simp add: doc_rows_def)
  ultimately show ?thesis unfolding documents_def
    by (intro conjI allI impI) (assumption | rule doc_store_reads | simp)+
qed

section \<open>Properties\<close>

text \<open>
  C32. A stored title is refused, as long as the search for it answers. Over the documented tables, once
  a product document with a title is stored (a title without a backslash), in whatever way any
  number of creations interleave with each other and with other readers and writers, the document
  stays, and the first search of a creation of that title decides: when \<open>SearchPDRs\<close> answers without
  an error the creation is a duplicate; when it ends with an error, which \<open>isDuplicate\<close> drops, the
  creation goes on to the next search as if the title were new. So in the runs in which no first search for
  the title fails, no creation of it reaches the INSERT, and each that ended was called a duplicate.
\<close>

theorem stored_title_refused:
  assumes "documents S docs" and "(t, c) \<in> docs w0" and "92 \<notin> set (runes t)"
    and "creations u S docs w0 (w, f)"
  shows "(t, c) \<in> docs w \<and>
    (\<forall>v e w' l. f v = Searching e \<longrightarrow> me_title e = t \<longrightarrow> cm_move u S v w (f v) w' l \<longrightarrow>
       (case fst (search_pdrs S t w) of
          Inr ps \<Rightarrow> l = Created e (Some ''duplicate memory entry'')
        | Inl err \<Rightarrow> l = SearchingDecisions e)) \<and>
    (answered_creations u S t docs w0 (w, f) \<longrightarrow>
       (\<forall>v e. f v = Storing e \<longrightarrow> me_title e \<noteq> t) \<and>
       (\<forall>v e r. f v = Created e r \<longrightarrow> me_title e = t \<longrightarrow> r = Some ''duplicate memory entry''))"
proof (intro conjI allI impI)
  have start: "title_kept S docs t c w0" using assms(1-3) by (simp add: title_kept_def)
  have kept: "title_kept S docs t c w" using cm_kept.ok_reaches [OF assms(4), of t c] start by simp
  then show "(t, c) \<in> docs w" by (simp add: title_kept_def)
  show "case fst (search_pdrs S t w) of Inr ps \<Rightarrow> l = Created e (Some ''duplicate memory entry'')
      | Inl err \<Rightarrow> l = SearchingDecisions e"
    if "f v = Searching e" "me_title e = t" "cm_move u S v w (f v) w' l" for v e w' l
    using stored_title_search [OF kept that(2) that(3) [unfolded that(1)]] .
  assume run: "answered_creations u S t docs w0 (w, f)"
  have refused: "title_refused t (f v)" for v
    using cm_threads.ok_reaches [OF run, of c] start by simp
  show "me_title e \<noteq> t" if "f v = Storing e" for v e using refused [of v] that by simp
  show "r = Some ''duplicate memory entry''" if "f v = Created e r" "me_title e = t" for v e r
    using refused [of v] that by simp
qed

theorem stored_title_refused_witness:
  "\<exists>f e w' l. creations ascii_tables doc_store doc_rows [(''t'', ''c'')] ([(''t'', ''c'')], f) \<and>
     f 0 = Searching e \<and> cm_move ascii_tables doc_store 0 [(''t'', ''c'')] (f 0) w' l \<and>
     l = Created e (Some ''duplicate memory entry'')"
proof -
  let ?e = "stamp_entry ''2024-01-01T00:00:00Z'' (zero_entry\<lparr>me_type := ''pdr'', me_title := ''t''\<rparr>)"
  let ?f = "(\<lambda>_ :: tid. NotCalled)(0 := Searching ?e)"
  have t: "valid_utf8 ''t''" "92 \<notin> set (runes ''t'')" by code_simp+
  then have stored: "(''t'', ''c'') \<in> doc_rows [(''t'', ''c'')]" by (simp add: doc_rows_def)
  have "now_text doc_store [(''t'', ''c'')] = (''2024-01-01T00:00:00Z'', [(''t'', ''c'')])"
    by (simp add: doc_store_def)
  from creations_move [OF reaches_refl refl cm_call [OF this]] have
    r: "creations ascii_tables doc_store doc_rows [(''t'', ''c'')] ([(''t'', ''c'')], ?f)" .
  obtain w' l where m: "cm_move ascii_tables doc_store 0 [(''t'', ''c'')] (?f 0) w' l"
    using search_moves [of ascii_tables doc_store 0 "[(''t'', ''c'')]" ?e] by auto
  have "case fst (search_pdrs doc_store ''t'' [(''t'', ''c'')]) of Inr ps \<Rightarrow> True | Inl e \<Rightarrow> False" by code_simp
  then have full: "\<exists>ps. fst (search_pdrs doc_store ''t'' [(''t'', ''c'')]) = Inr ps"
    by (auto split: sum.splits)
  have at: "?f 0 = Searching ?e" "me_title ?e = ''t''" by simp_all
  from stored_title_refused [OF doc_store_documents stored t(2) r, THEN conjunct2, THEN conjunct1,
      rule_format, OF at m] full
  have "l = Created ?e (Some ''duplicate memory entry'')" by auto
  with r m at show ?thesis by blast
qed

text \<open>
  C33. The check for duplicates and the INSERT are separate statements: of a title that is not
  stored, where the table takes two documents of that title one after the other (it has no
  constraint on the title), two requests at once can both create one, with contents of their own,
  both answered without an error, and the table then has two documents of one title.
\<close>

theorem race_creates_twice:
  assumes "documents S docs" and "title_absent u S t P" and "P w0" and "a \<noteq> b"
    and "\<forall>w. P w \<longrightarrow> (\<exists>w1 w2. inserts S t c1 w w1 \<and> inserts S t c2 w1 w2)"
  shows "\<exists>w f ea eb. creations u S docs w0 (w, f) \<and> f a = Created ea None \<and> f b = Created eb None \<and>
    me_title ea = t \<and> me_title eb = t \<and> (t, c1) \<in> docs w \<and> (t, c2) \<in> docs w"
proof -
  let ?e = "\<lambda>c. zero_entry\<lparr>me_type := ''pdr'', me_title := t, me_content := c\<rparr>"
  let ?f = "\<lambda>_ :: tid. NotCalled"
  have "\<exists>w1 ta. P w1 \<and> creations u S docs w0 (w1, ?f(a := Storing (stamp_entry ta (?e c1))))"
    by (rule absent_checks [OF assms(2,3) _ reaches_refl refl]) simp
  then obtain w1 ta where w1: "P w1"
      "creations u S docs w0 (w1, ?f(a := Storing (stamp_entry ta (?e c1))))"
    by blast
  have "\<exists>w2 tb. P w2 \<and> creations u S docs w0
      (w2, ?f(a := Storing (stamp_entry ta (?e c1)), b := Storing (stamp_entry tb (?e c2))))"
    by (rule absent_checks [OF assms(2) w1(1) _ w1(2)]) (use assms(4) in simp_all)
  then obtain w2 tb where w2: "P w2" "creations u S docs w0
      (w2, ?f(a := Storing (stamp_entry ta (?e c1)), b := Storing (stamp_entry tb (?e c2))))"
    by blast
  from assms(5) w2(1) obtain w3 w4 where ins: "inserts S t c1 w2 w3" "inserts S t c2 w3 w4" by blast
  have w3: "creations u S docs w0 (w3, ?f
      (a := Storing (stamp_entry ta (?e c1)), b := Storing (stamp_entry tb (?e c2)),
       a := Created (stamp_entry ta (?e c1)) None))" "(t, c1) \<in> docs w3"
    using inserted_stores [OF assms(1) _ _ w2(2), of "stamp_entry ta (?e c1)" w3 a] ins(1) assms(4) by auto
  have w4: "creations u S docs w0 (w4, ?f
      (a := Storing (stamp_entry ta (?e c1)), b := Storing (stamp_entry tb (?e c2)),
       a := Created (stamp_entry ta (?e c1)) None, b := Created (stamp_entry tb (?e c2)) None))"
      "(t, c2) \<in> docs w4" "docs w3 \<subseteq> docs w4"
    using inserted_stores [OF assms(1) _ _ w3(1), of "stamp_entry tb (?e c2)" w4 b] ins(2) assms(4) by auto
  have "(t, c1) \<in> docs w4" using w3(2) w4(3) by blast
  show ?thesis
    by (intro exI conjI, rule w4(1)) (use assms(4) w4(2) \<open>(t, c1) \<in> docs w4\<close> in auto)
qed

theorem race_creates_twice_witness:
  "\<exists>w f ea eb. creations ascii_tables doc_store doc_rows [] (w, f) \<and>
     f 0 = Created ea None \<and> f (Suc 0) = Created eb None \<and> me_title ea = ''t'' \<and> me_title eb = ''t'' \<and>
     (''t'', ''c'') \<in> doc_rows w \<and> (''t'', ''d'') \<in> doc_rows w"
proof -
  have t: "valid_utf8 ''t''" by code_simp
  have neq: "adr_columns @ s \<noteq> insert_pdr_sql" "adr_columns @ s \<noteq> insert_adr_sql"
      "adr_columns @ s \<noteq> search_pdrs_sql" for s
    by (simp_all add: adr_columns_def insert_pdr_sql_def insert_adr_sql_def search_pdrs_sql_def)
  have "title_absent ascii_tables doc_store ''t'' (\<lambda>w. w = [])"
    using doc_store_reads doc_store_sql neq
    by (simp add: title_absent_def pdr_title_found_def adr_title_found_def search_pdrs_def
        search_adrs_def query_rows_def doc_store_def)
  moreover have "\<forall>w. w = [] \<longrightarrow> (\<exists>w1 w2. inserts doc_store ''t'' ''c'' w w1 \<and> inserts doc_store ''t'' ''d'' w1 w2)"
    using t by (simp add: inserts_def doc_store_def)
  ultimately show ?thesis
    using race_creates_twice [OF doc_store_documents, of ascii_tables "''t''" "\<lambda>w. w = []" "[]" 0 "Suc 0"
        "''c''" "''d''"]
    by simp
qed

text \<open>
  C30. Over the tables of the migrations no decision can be created: the column \<open>tags\<close> is an array of
  texts, \<open>CreateMemory\<close> passes the empty text, which PostgreSQL documents to be no array, so every creation of
  a decision ends with an error and leaves the tables as they were.
\<close>

theorem decision_never_created:
  assumes "kept_by_reads S P" and "array_column S P" and "P w" and "me_type entry = ''adr''"
  shows "\<exists>err entry' w'. create_memory u S entry w = (Some err, entry', w') \<and> P w'"
  using decision_refused [OF assms, of u] by (cases "create_memory u S entry w") auto

theorem decision_never_created_witness:
  "\<exists>err e' w'. create_memory ascii_tables doc_store (zero_entry\<lparr>me_type := ''adr'', me_title := ''t''\<rparr>) []
     = (Some err, e', w') \<and> w' = []"
proof -
  have "array_column doc_store (\<lambda>w. w = [])"
    using doc_store_sql(1) by (simp add: array_column_def doc_store_def)
  from decision_never_created [OF doc_store_reads this refl] show ?thesis by simp
qed

end
