(* ===== verification/Config.thy ===== *)
theory Config
  imports Net Go_Float
begin

text \<open>
  The small packages the service starts from: \<open>internal/config\<close> (config.go, openhands.go),
  \<open>internal/logger\<close> and the embeddings client of \<open>internal/embeddings\<close>. The log line is the text
  given to \<open>log.Println\<close>; key-value pairs come as their \<open>%v\<close> texts.
\<close>

section \<open>Configuration\<close>

record config =
  database_url :: string
  supabase_url :: string
  supabase_anon_key :: string
  supabase_service_role :: string
  cfg_openai_api_key :: string
  cfg_openhands_api_key :: string
  cfg_openhands_base_url :: string
  log_level :: string

record openhands_config =
  oc_api_key :: string
  oc_base_url :: string
  oc_is_valid :: bool

definition get_env :: "environ \<Rightarrow> string \<Rightarrow> string \<Rightarrow> string" where
  "get_env env key dflt = (let v = getenv env key in if v \<noteq> [] then v else dflt)"

text \<open>\<open>LoadOpenHands\<close> returns its configuration also with the error.\<close>

definition load_openhands :: "environ \<Rightarrow> openhands_config \<times> goerr option" where
  "load_openhands env =
     (let key = getenv env ''OPENHANDS_API_KEY'';
          c = \<lparr>oc_api_key = key,
               oc_base_url = get_env env ''OPENHANDS_BASE_URL'' ''https://app.all-hands.dev'',
               oc_is_valid = (key \<noteq> [])\<rparr>
      in (c, if oc_is_valid c then None else Some ''OPENHANDS_API_KEY is not configured''))"

definition load_config :: "environ \<Rightarrow> config res" where
  "load_config env =
     Inr \<lparr>database_url = get_env env ''DATABASE_URL'' [],
          supabase_url = get_env env ''SUPABASE_URL'' [],
          supabase_anon_key = get_env env ''SUPABASE_ANON_KEY'' [],
          supabase_service_role = get_env env ''SUPABASE_SERVICE_ROLE'' [],
          cfg_openai_api_key = get_env env ''OPENAI_API_KEY'' [],
          cfg_openhands_api_key = get_env env ''OPENHANDS_API_KEY'' [],
          cfg_openhands_base_url = get_env env ''OPENHANDS_BASE_URL'' ''https://app.all-hands.dev'',
          log_level = get_env env ''LOG_LEVEL'' ''info''\<rparr>"

definition validate_openhands :: "openhands_config \<Rightarrow> goerr option" where
  "validate_openhands c =
     (if oc_api_key c = [] then Some ''OPENHANDS_API_KEY is not set''
      else if oc_base_url c = [] then Some ''OPENHANDS_BASE_URL is not set''
      else None)"

definition get_masked_key :: "openhands_config \<Rightarrow> string" where
  "get_masked_key c =
     (let k = oc_api_key c
      in if length k < 8 then ''****'' else take 4 k @ ''****'' @ drop (length k - 4) k)"

section \<open>Logger\<close>

definition log_levels :: "(string, int) gomap" where
  "log_levels = [(''DEBUG'', 0), (''INFO'', 1), (''WARN'', 2), (''ERROR'', 3), (''FATAL'', 4)]"

definition should_log :: "unicode_tables \<Rightarrow> string \<Rightarrow> string \<Rightarrow> bool" where
  "should_log u current level =
     (case map_of log_levels (to_upper u current) of
        None \<Rightarrow> True
      | Some c \<Rightarrow> (case map_of log_levels level of None \<Rightarrow> True | Some m \<Rightarrow> c \<le> m))"

fun show_keyvals :: "string list \<Rightarrow> string" where
  "show_keyvals (k # v # rest) = '' '' @ k @ ''='' @ v @ show_keyvals rest"
| "show_keyvals _ = []"

definition log_line ::
    "unicode_tables \<Rightarrow> string \<Rightarrow> string \<Rightarrow> string \<Rightarrow> string list \<Rightarrow> string option" where
  "log_line u current level msg kvs =
     (if \<not> should_log u current level then None
      else Some (''['' @ level @ ''] '' @ msg @ show_keyvals kvs))"

text \<open>
  The logger writes to the process' log, here the list of the lines written so far; \<open>Fatal\<close> ends
  the process with the exit code it returns, whether or not its line was written.
\<close>

record logger =
  lg_level :: string

definition new_logger :: "string \<Rightarrow> logger" where
  "new_logger level = \<lparr>lg_level = level\<rparr>"

definition logger_log ::
    "unicode_tables \<Rightarrow> logger \<Rightarrow> string \<Rightarrow> string \<Rightarrow> string list \<Rightarrow> string list \<Rightarrow> string list" where
  "logger_log u l level msg kvs out =
     (case log_line u (lg_level l) level msg kvs of None \<Rightarrow> out | Some line \<Rightarrow> out @ [line])"

definition logger_debug :: "unicode_tables \<Rightarrow> logger \<Rightarrow> string \<Rightarrow> string list \<Rightarrow> string list \<Rightarrow> string list" where
  "logger_debug u l msg kvs out = logger_log u l ''DEBUG'' msg kvs out"

definition logger_info :: "unicode_tables \<Rightarrow> logger \<Rightarrow> string \<Rightarrow> string list \<Rightarrow> string list \<Rightarrow> string list" where
  "logger_info u l msg kvs out = logger_log u l ''INFO'' msg kvs out"

definition logger_warn :: "unicode_tables \<Rightarrow> logger \<Rightarrow> string \<Rightarrow> string list \<Rightarrow> string list \<Rightarrow> string list" where
  "logger_warn u l msg kvs out = logger_log u l ''WARN'' msg kvs out"

definition logger_error :: "unicode_tables \<Rightarrow> logger \<Rightarrow> string \<Rightarrow> string list \<Rightarrow> string list \<Rightarrow> string list" where
  "logger_error u l msg kvs out = logger_log u l ''ERROR'' msg kvs out"

definition logger_fatal ::
    "unicode_tables \<Rightarrow> logger \<Rightarrow> string \<Rightarrow> string list \<Rightarrow> string list \<Rightarrow> string list \<times> int" where
  "logger_fatal u l msg kvs out = (logger_log u l ''FATAL'' msg kvs out, 1)"

section \<open>Embeddings\<close>

text \<open>
  The vectors are lists of \<open>float32\<close>; how a number literal becomes one is
  \<open>strconv.ParseFloat(s, 32)\<close>, the parameter \<open>pf\<close>.
\<close>

definition embeddings_url :: string where
  "embeddings_url = ''https://api.openai.com/v1/embeddings''"

definition embedding_model :: string where
  "embedding_model = ''text-embedding-3-small''"

definition embedding_dimension :: int where
  "embedding_dimension = 1536"

fun dec_float32 :: "(string \<Rightarrow> float32 option) \<Rightarrow> float32 decoder" where
  "dec_float32 pf (JNum l) old = (case pf l of Some x \<Rightarrow> (x, False) | None \<Rightarrow> (old, True))"
| "dec_float32 pf JNull old = (old, False)"
| "dec_float32 pf _ old = (old, True)"

definition dec_embedding_data :: "(string \<Rightarrow> float32 option) \<Rightarrow> float32 list decoder" where
  "dec_embedding_data pf = dec_struct (\<lambda>_. dec_slice (dec_float32 pf) 0) [''embedding'']"

definition dec_embedding_response :: "(string \<Rightarrow> float32 option) \<Rightarrow> float32 list list decoder" where
  "dec_embedding_response pf = dec_struct (\<lambda>_. dec_slice (dec_embedding_data pf) []) [''data'']"

text \<open>The exchange both operations share: their code is the same up to the input.\<close>

definition embedding_exchange ::
    "'w net \<Rightarrow> json_lib \<Rightarrow> (string \<Rightarrow> float32 option) \<Rightarrow> string \<Rightarrow> json \<Rightarrow> 'w \<Rightarrow>
       float32 list list res \<times> 'w" where
  "embedding_exchange N L pf key input w =
     (case new_request N ''POST'' embeddings_url
             (Some (JObj [(''input'', input), (''model'', JStr embedding_model)])) of
        Inl e \<Rightarrow> (Inl (''create request: '' @ e), w)
      | Inr req \<Rightarrow>
          (case http_do N (set_header ''Authorization'' (''Bearer '' @ key)
                  (set_header ''Content-Type'' ''application/json'' req)) w of
             (Inl e, w) \<Rightarrow> (Inl (''send request: '' @ e), w)
           | (Inr resp, w) \<Rightarrow>
               if status_code resp \<noteq> 200 then (Inl (''api error: '' @ resp_body resp), w)
               else
                 (case decode L (dec_embedding_response pf) (resp_body resp) [] of
                    (_, Some e) \<Rightarrow>
                      (Inl (''decode response: '' @ (case read_err resp of Some e' \<Rightarrow> e' | None \<Rightarrow> e)), w)
                  | (d, None) \<Rightarrow> (Inr d, w))))"

definition generate ::
    "'w net \<Rightarrow> json_lib \<Rightarrow> (string \<Rightarrow> float32 option) \<Rightarrow> string \<Rightarrow> string \<Rightarrow> 'w \<Rightarrow> float32 list res \<times> 'w" where
  "generate N L pf key text w =
     (case embedding_exchange N L pf key (jtext text) w of
        (Inl e, w) \<Rightarrow> (Inl e, w)
      | (Inr [], w) \<Rightarrow> (Inl ''no embedding returned'', w)
      | (Inr (v # vs), w) \<Rightarrow> (Inr v, w))"

text \<open>The batch form makes no request for no texts, and does not compare the counts.\<close>

definition generate_batch ::
    "'w net \<Rightarrow> json_lib \<Rightarrow> (string \<Rightarrow> float32 option) \<Rightarrow> string \<Rightarrow> string list \<Rightarrow> 'w \<Rightarrow>
       float32 list list res \<times> 'w" where
  "generate_batch N L pf key texts w =
     (if texts = [] then (Inr [], w)
      else embedding_exchange N L pf key (JArr (map jtext texts)) w)"

section \<open>Properties\<close>

text \<open>
  The masked key: a key of eight bytes or more shows its first and last four bytes, so a key
  of exactly eight bytes can be read off its mask, and any shorter key shows nothing.
\<close>

theorem masked_key_reveals:
  "if length (oc_api_key c) < 8 then get_masked_key c = ''****''
   else take 4 (get_masked_key c) = take 4 (oc_api_key c) \<and>
     drop 8 (get_masked_key c) = drop (length (oc_api_key c) - 4) (oc_api_key c) \<and>
     length (get_masked_key c) = 12 \<and>
     (if length (oc_api_key c) = 8
      then take 4 (get_masked_key c) @ drop 8 (get_masked_key c) = oc_api_key c else True)"
proof (cases "length (oc_api_key c) < 8")
  case True
  then show ?thesis by (simp add: get_masked_key_def)
next
  case False
  let ?k = "oc_api_key c"
  have m: "get_masked_key c = take 4 ?k @ ''****'' @ drop (length ?k - 4) ?k"
    using False by (simp add: get_masked_key_def Let_def)
  have l: "length (take 4 ?k) = 4" "length (drop (length ?k - 4) ?k) = 4" using False by auto
  have t: "take 4 (get_masked_key c) = take 4 ?k" unfolding m using l(1) by simp
  have d: "drop 8 (get_masked_key c) = drop (length ?k - 4) ?k" unfolding m using l(1) by simp
  have "length (get_masked_key c) = 12" unfolding m using l by simp
  with False t d show ?thesis by simp
qed

end
