(* ===== verification/Api.thy ===== *)
theory Api
  imports Memory_Tables Config
begin

text \<open>
  \<open>cmd/api/handlers.go\<close>: the HTTP handlers of the memory service and the GitHub webhook.

  A handler takes the server, the request and the world. The reply of a success is the value the
  handler gives to the JSON encoder; an error reply is a status code and a text. A panic is what
  \<open>net/http\<close> recovers from by dropping the connection. The repository pointer is nil when the
  database could not be reached at start (cmd/api/main.go); any use of it then panics.
\<close>

section \<open>Requests and replies\<close>

record api_request =
  ar_method :: string
  ar_path :: string
  ar_query :: "(string \<times> string) list"
  ar_headers :: "(string \<times> string) list"
  ar_body :: string

datatype 'a reply = HttpError int string | HttpOk 'a

type_synonym ('a, 'w) handled = "'a reply outcome \<times> 'w"

text \<open>\<open>Query().Get\<close> and \<open>Header.Get\<close>: the first value, or the empty string.\<close>

definition first_value :: "(string \<times> string) list \<Rightarrow> string \<Rightarrow> string" where
  "first_value kvs k = (case map_of kvs k of None \<Rightarrow> [] | Some v \<Rightarrow> v)"

record 'w server =
  sv_repo :: "'w store option"
  sv_embedder :: "string option"

text \<open>What the handlers use of the world outside the database.\<close>

record 'w services =
  sc_net :: "'w net"
  sc_json :: json_lib
  sc_float32 :: "string \<Rightarrow> float32 option"
  sc_unicode :: unicode_tables

definition fail :: "int \<Rightarrow> string \<Rightarrow> 'w \<Rightarrow> ('a, 'w) handled" where
  "fail code msg w = (Ret (HttpError code msg), w)"

definition nil_repo :: "'w \<Rightarrow> ('a, 'w) handled" where
  "nil_repo w = (Panic ''nil pointer dereference'', w)"

definition method_not_allowed :: "'w \<Rightarrow> ('a, 'w) handled" where
  "method_not_allowed w = fail 405 ''method not allowed'' w"

section \<open>Routes\<close>

datatype endpoint =
    EpCreateMemory | EpListMemory | EpGetMemory | EpSearch | EpBuildContext | EpIngestMemory
  | EpAgentRuntime | EpGitHubWebhook | EpBootstrap

text \<open>
  \<open>RegisterRoutes\<close>: the pattern of each handler. A pattern that ends in a slash stands for a
  subtree; GET also stands for HEAD; the more specific pattern wins.
\<close>

definition routes :: "(string \<times> string \<times> endpoint) list" where
  "routes =
     [(''POST'', ''/memory'', EpCreateMemory), (''GET'', ''/memory'', EpListMemory),
      (''GET'', ''/memory/'', EpGetMemory), (''GET'', ''/memory/search'', EpSearch),
      (''POST'', ''/context/build'', EpBuildContext), (''POST'', ''/memory/ingest'', EpIngestMemory),
      (''POST'', ''/agent/runtime'', EpAgentRuntime), (''POST'', ''/webhooks/github'', EpGitHubWebhook),
      (''POST'', ''/agent/bootstrap'', EpBootstrap)]"

definition pattern_matches :: "string \<Rightarrow> string \<Rightarrow> bool" where
  "pattern_matches pat path \<longleftrightarrow>
     pat = path \<or> (pat \<noteq> [] \<and> last pat = CHR ''/'' \<and> has_prefix path pat)"

definition method_matches :: "string \<Rightarrow> string \<Rightarrow> bool" where
  "method_matches m method \<longleftrightarrow> m = method \<or> (m = ''GET'' \<and> method = ''HEAD'')"

definition route :: "string \<Rightarrow> string \<Rightarrow> endpoint option" where
  "route method path =
     (let hits = filter (\<lambda>(m, pat, ep). method_matches m method \<and> pattern_matches pat path) routes
      in case List.find (\<lambda>(m, pat, ep). pat = path) hits of
           Some (m, pat, ep) \<Rightarrow> Some ep
         | None \<Rightarrow> (case hits of [] \<Rightarrow> None | (m, pat, ep) # _ \<Rightarrow> Some ep))"

section \<open>Memory endpoints\<close>

definition set_entry :: "(string \<Rightarrow> float32 option) \<Rightarrow> string \<Rightarrow> memory_entry decoder" where
  "set_entry pf n v s =
     (if n = ''id'' then (let (x, e) = dec_string v (me_id s) in (s\<lparr>me_id := x\<rparr>, e))
      else if n = ''type'' then (let (x, e) = dec_string v (me_type s) in (s\<lparr>me_type := x\<rparr>, e))
      else if n = ''title'' then (let (x, e) = dec_string v (me_title s) in (s\<lparr>me_title := x\<rparr>, e))
      else if n = ''content'' then (let (x, e) = dec_string v (me_content s) in (s\<lparr>me_content := x\<rparr>, e))
      else if n = ''data'' then (let (x, e) = dec_string v (me_data s) in (s\<lparr>me_data := x\<rparr>, e))
      else if n = ''priority_score'' then
        (let (x, e) = dec_float32 pf v (me_priority s) in (s\<lparr>me_priority := x\<rparr>, e))
      else if n = ''confidence_score'' then
        (let (x, e) = dec_float32 pf v (me_confidence s) in (s\<lparr>me_confidence := x\<rparr>, e))
      else if n = ''relevance_score'' then
        (let (x, e) = dec_float32 pf v (me_relevance s) in (s\<lparr>me_relevance := x\<rparr>, e))
      else if n = ''archived'' then (let (x, e) = dec_bool v (me_archived s) in (s\<lparr>me_archived := x\<rparr>, e))
      else if n = ''created_at'' then
        (let (x, e) = dec_string v (me_created s) in (s\<lparr>me_created := x\<rparr>, e))
      else (let (x, e) = dec_string v (me_updated s) in (s\<lparr>me_updated := x\<rparr>, e)))"

definition dec_entry :: "(string \<Rightarrow> float32 option) \<Rightarrow> memory_entry decoder" where
  "dec_entry pf = dec_struct (set_entry pf)
     [''id'', ''type'', ''title'', ''content'', ''data'', ''priority_score'', ''confidence_score'',
      ''relevance_score'', ''archived'', ''created_at'', ''updated_at'']"

definition handle_create_memory ::
    "'w services \<Rightarrow> 'w server \<Rightarrow> api_request \<Rightarrow> 'w \<Rightarrow> (memory_entry, 'w) handled" where
  "handle_create_memory K sv r w =
     (if ar_method r \<noteq> ''POST'' then method_not_allowed w
      else
        (case decode (sc_json K) (dec_entry (sc_float32 K)) (ar_body r) zero_entry of
           (_, Some e) \<Rightarrow> fail 400 ''invalid request body'' w
         | (entry, None) \<Rightarrow>
             if me_type entry = [] then fail 400 ''type is required'' w
             else
               (case sv_repo sv of
                  None \<Rightarrow> nil_repo w
                | Some S \<Rightarrow>
                    (case create_memory (sc_unicode K) S entry w of
                       (Some e, _, w) \<Rightarrow> fail 500 ''internal error'' w
                     | (None, entry, w) \<Rightarrow> (Ret (HttpOk entry), w)))))"

definition handle_list_memory ::
    "'w server \<Rightarrow> api_request \<Rightarrow> 'w \<Rightarrow> (memory_entry list, 'w) handled" where
  "handle_list_memory sv r w =
     (if ar_method r \<noteq> ''GET'' then method_not_allowed w
      else
        (let ty = first_value (ar_query r) ''type''
         in if ty = [] then fail 400 ''type query param required'' w
            else
              (case sv_repo sv of
                 None \<Rightarrow>
                   if ty \<in> {''pdr'', ''adr'', ''pref''} then nil_repo w else fail 500 ''internal error'' w
               | Some S \<Rightarrow>
                   (case list_memory S ty w of
                      (Inl e, w) \<Rightarrow> fail 500 ''internal error'' w
                    | (Inr es, w) \<Rightarrow> (Ret (HttpOk es), w)))))"

datatype stored = StoredPdr pdr | StoredAdr adr | StoredPref coding_preference

definition handle_get_memory :: "'w server \<Rightarrow> api_request \<Rightarrow> 'w \<Rightarrow> (stored, 'w) handled" where
  "handle_get_memory sv r w =
     (if ar_method r \<noteq> ''GET'' then method_not_allowed w
      else
        (let path = trim_prefix (ar_path r) ''/memory/''; ty = first_value (ar_query r) ''type''
         in if path = [] then fail 400 ''id required'' w
            else if ty = [] then fail 400 ''type query param required'' w
            else if ty \<notin> {''pdr'', ''adr'', ''pref''} then fail 400 ''unknown type'' w
            else
              (case sv_repo sv of
                 None \<Rightarrow> nil_repo w
               | Some S \<Rightarrow>
                   (case (if ty = ''pdr'' then map_prod (map_sum id StoredPdr) id (get_pdr S path w)
                          else if ty = ''adr'' then map_prod (map_sum id StoredAdr) id (get_adr S path w)
                          else map_prod (map_sum id StoredPref) id (get_preference S path w)) of
                      (Inl e, w) \<Rightarrow> fail 404 ''not found'' w
                    | (Inr x, w) \<Rightarrow> (Ret (HttpOk x), w)))))"

text \<open>\<open>fmt.Sscanf(l, "%d", &limit)\<close>: on any failure the target keeps its value.\<close>

definition scan_limit :: "string \<Rightarrow> int \<Rightarrow> int" where
  "scan_limit s old = (case sscan_int s of Some v \<Rightarrow> v | None \<Rightarrow> old)"

definition handle_search ::
    "'w server \<Rightarrow> api_request \<Rightarrow> 'w \<Rightarrow> (search_result list, 'w) handled" where
  "handle_search sv r w =
     (if ar_method r \<noteq> ''GET'' then method_not_allowed w
      else
        (let query = first_value (ar_query r) ''q''; l = first_value (ar_query r) ''limit''
         in if query = [] then fail 400 ''q query param required'' w
            else
              (case sv_repo sv of
                 None \<Rightarrow> nil_repo w
               | Some S \<Rightarrow>
                   (case search_memory S query (if l \<noteq> [] then scan_limit l 5 else 5) w of
                      (Panic p, w) \<Rightarrow> (Panic p, w)
                    | (Ret (Inl e), w) \<Rightarrow> fail 500 ''internal error'' w
                    | (Ret (Inr rs), w) \<Rightarrow> (Ret (HttpOk rs), w)))))"

section \<open>Context building\<close>

record source =
  so_type :: string
  so_title :: string
  so_content :: string
  so_score :: float32

definition to_source :: "search_result \<Rightarrow> source" where
  "to_source r = \<lparr>so_type = sr_type r, so_title = sr_title r, so_content = sr_content r,
     so_score = sr_score r\<rparr>"

definition context_block :: "(string \<Rightarrow> string) \<Rightarrow> search_result \<Rightarrow> string" where
  "context_block f r =
     ''['' @ f (sr_type r) @ '': '' @ sr_title r @ '']'' @ nl @ sr_content r @ nl @ nl"

record context_request =
  cr_query :: string
  cr_limit :: int

record context_response =
  cx_query :: string
  cx_context :: string
  cx_sources :: "source list"

definition set_context_request :: "string \<Rightarrow> context_request decoder" where
  "set_context_request n v s =
     (if n = ''query'' then (let (x, e) = dec_string v (cr_query s) in (s\<lparr>cr_query := x\<rparr>, e))
      else (let (x, e) = dec_int v (cr_limit s) in (s\<lparr>cr_limit := x\<rparr>, e)))"

definition handle_build_context ::
    "'w services \<Rightarrow> 'w server \<Rightarrow> api_request \<Rightarrow> 'w \<Rightarrow> (context_response, 'w) handled" where
  "handle_build_context K sv r w =
     (if ar_method r \<noteq> ''POST'' then method_not_allowed w
      else
        (case decode (sc_json K) (dec_struct set_context_request [''query'', ''limit'']) (ar_body r)
                \<lparr>cr_query = [], cr_limit = 0\<rparr> of
           (_, Some e) \<Rightarrow> fail 400 ''invalid request body'' w
         | (req, None) \<Rightarrow>
             if cr_query req = [] then fail 400 ''query is required'' w
             else
               (case sv_repo sv of
                  None \<Rightarrow> nil_repo w
                | Some S \<Rightarrow>
                    (case search_memory S (cr_query req) (if cr_limit req = 0 then 10 else cr_limit req) w of
                       (Panic p, w) \<Rightarrow> (Panic p, w)
                     | (Ret (Inl e), w) \<Rightarrow> fail 500 ''internal error'' w
                     | (Ret (Inr rs), w) \<Rightarrow>
                         (Ret (HttpOk
                            \<lparr>cx_query = cr_query req,
                             cx_context = trim_space (concat (map (context_block (\<lambda>t. t)) rs)),
                             cx_sources = map to_source rs\<rparr>), w)))))"

text \<open>
  The loop of the runtime and bootstrap handlers: skip a content that was seen, add the block, and
  stop once the text is longer than the limit. The accumulators are the sources and the text.
\<close>

fun context_loop ::
    "(string \<Rightarrow> string) \<Rightarrow> int \<Rightarrow> search_result list \<Rightarrow> string list \<Rightarrow> source list \<Rightarrow> string \<Rightarrow>
       source list \<times> string" where
  "context_loop f limit [] seen srcs buf = (srcs, buf)"
| "context_loop f limit (r # rs) seen srcs buf =
     (if sr_content r \<in> set seen then context_loop f limit rs seen srcs buf
      else
        (let srcs = srcs @ [to_source r]; buf = buf @ context_block f r
         in if limit < int (length buf) then (srcs, buf)
            else context_loop f limit rs (sr_content r # seen) srcs buf))"

definition cut_context :: "int \<Rightarrow> string \<Rightarrow> string outcome" where
  "cut_context limit buf =
     (let t = trim_space buf
      in if limit < int (length t) then obind (slice_to t limit) (\<lambda>s. Ret (s @ nl @ ''...''))
         else Ret t)"

section \<open>Ingestion\<close>

record ingest_request =
  ir_type :: string
  ir_title :: string
  ir_content :: string
  ir_tags :: "string list"

record ingest_response =
  is_id :: string
  is_type :: string
  is_title :: string
  is_ingested :: bool

definition set_ingest_request :: "string \<Rightarrow> ingest_request decoder" where
  "set_ingest_request n v s =
     (if n = ''type'' then (let (x, e) = dec_string v (ir_type s) in (s\<lparr>ir_type := x\<rparr>, e))
      else if n = ''title'' then (let (x, e) = dec_string v (ir_title s) in (s\<lparr>ir_title := x\<rparr>, e))
      else if n = ''content'' then (let (x, e) = dec_string v (ir_content s) in (s\<lparr>ir_content := x\<rparr>, e))
      else (let (x, e) = dec_strings v (ir_tags s) in (s\<lparr>ir_tags := x\<rparr>, e)))"

text \<open>The tags are read and dropped; the embedding is generated and dropped.\<close>

definition handle_ingest_memory ::
    "'w services \<Rightarrow> 'w server \<Rightarrow> api_request \<Rightarrow> 'w \<Rightarrow> (ingest_response, 'w) handled" where
  "handle_ingest_memory K sv r w =
     (if ar_method r \<noteq> ''POST'' then method_not_allowed w
      else
        (case decode (sc_json K)
                (dec_struct set_ingest_request [''type'', ''title'', ''content'', ''tags'']) (ar_body r)
                \<lparr>ir_type = [], ir_title = [], ir_content = [], ir_tags = []\<rparr> of
           (_, Some e) \<Rightarrow> fail 400 ''invalid request body'' w
         | (req, None) \<Rightarrow>
             if ir_type req = [] then fail 400 ''type is required'' w
             else if ir_title req = [] then fail 400 ''title is required'' w
             else if ir_content req = [] then fail 400 ''content is required'' w
             else
               (let title = trim_space (ir_title req); content = trim_space (ir_content req);
                    entry = zero_entry\<lparr>me_type := ir_type req, me_title := title, me_content := content\<rparr>
                in case sv_repo sv of
                     None \<Rightarrow> nil_repo w
                   | Some S \<Rightarrow>
                       (case create_memory (sc_unicode K) S entry w of
                          (Some e, _, w) \<Rightarrow> fail 500 ''internal error'' w
                        | (None, entry, w) \<Rightarrow>
                            (let w = (case sv_embedder sv of
                                        None \<Rightarrow> w
                                      | Some key \<Rightarrow>
                                          snd (generate (sc_net K) (sc_json K) (sc_float32 K) key
                                                 (title @ nl @ content) w))
                             in (Ret (HttpOk \<lparr>is_id = me_id entry, is_type = me_type entry,
                                   is_title = me_title entry, is_ingested = True\<rparr>), w))))))"

section \<open>Agent endpoints\<close>

definition max_context_length :: int where
  "max_context_length = 8000"

record agent_request =
  aq_agent :: string
  aq_task :: string

record agent_response =
  ag_agent :: string
  ag_task :: string
  ag_context :: string
  ag_sources :: "source list"

definition set_agent_request :: "string \<Rightarrow> agent_request decoder" where
  "set_agent_request n v s =
     (if n = ''agent'' then (let (x, e) = dec_string v (aq_agent s) in (s\<lparr>aq_agent := x\<rparr>, e))
      else (let (x, e) = dec_string v (aq_task s) in (s\<lparr>aq_task := x\<rparr>, e)))"

definition agent_reply :: "agent_request \<Rightarrow> search_result list \<Rightarrow> agent_response outcome" where
  "agent_reply req rs =
     (let (srcs, buf) = context_loop (\<lambda>t. t) max_context_length rs [] [] []
      in obind (cut_context max_context_length buf) (\<lambda>c.
           Ret \<lparr>ag_agent = aq_agent req, ag_task = aq_task req, ag_context = c, ag_sources = srcs\<rparr>))"

definition handle_agent_runtime ::
    "'w services \<Rightarrow> 'w server \<Rightarrow> api_request \<Rightarrow> 'w \<Rightarrow> (agent_response, 'w) handled" where
  "handle_agent_runtime K sv r w =
     (if ar_method r \<noteq> ''POST'' then method_not_allowed w
      else
        (case decode (sc_json K) (dec_struct set_agent_request [''agent'', ''task'']) (ar_body r)
                \<lparr>aq_agent = [], aq_task = []\<rparr> of
           (_, Some e) \<Rightarrow> fail 400 ''invalid request body'' w
         | (req, None) \<Rightarrow>
             if aq_agent req = [] then fail 400 ''agent is required'' w
             else if aq_task req = [] then fail 400 ''task is required'' w
             else
               (case sv_repo sv of
                  None \<Rightarrow> nil_repo w
                | Some S \<Rightarrow>
                    (case search_memory S (aq_task req) 10 w of
                       (Panic p, w) \<Rightarrow> (Panic p, w)
                     | (Ret (Inl e), w) \<Rightarrow> fail 500 ''internal error'' w
                     | (Ret (Inr rs), w) \<Rightarrow> (obind (agent_reply req rs) (\<lambda>x. Ret (HttpOk x)), w)))))"

record bootstrap_request =
  bq_agent :: string
  bq_task :: string
  bq_max :: int

record bootstrap_response =
  bs_prompt :: string
  bs_context :: string
  bs_sources :: "source list"

definition set_bootstrap_request :: "string \<Rightarrow> bootstrap_request decoder" where
  "set_bootstrap_request n v s =
     (if n = ''agent'' then (let (x, e) = dec_string v (bq_agent s) in (s\<lparr>bq_agent := x\<rparr>, e))
      else if n = ''task'' then (let (x, e) = dec_string v (bq_task s) in (s\<lparr>bq_task := x\<rparr>, e))
      else (let (x, e) = dec_int v (bq_max s) in (s\<lparr>bq_max := x\<rparr>, e)))"

definition system_prompt :: "string \<Rightarrow> string \<Rightarrow> string \<Rightarrow> string" where
  "system_prompt agent ctx task =
     ''You are operating as '' @ agent @ '' with access to project operational memory.'' @ nl @ nl @
     ''IMPORTANT CONTEXT:'' @ nl @ ctx @ nl @ nl @ ''Your task: '' @ task @ nl @ nl @
     ''Follow project conventions from operational memory. Check ADRs for architectural decisions, '' @
     ''coding preferences for style rules, and mistakes to avoid repeating errors.''"

definition bootstrap_defaults :: "bootstrap_request \<Rightarrow> bootstrap_request" where
  "bootstrap_defaults req =
     (let req = (if bq_agent req = [] then req\<lparr>bq_agent := ''openhands''\<rparr> else req);
          req = (if bq_task req = [] then req\<lparr>bq_task := ''operational context preparation''\<rparr> else req)
      in if bq_max req = 0 then req\<lparr>bq_max := 6000\<rparr> else req)"

definition bootstrap_reply ::
    "unicode_tables \<Rightarrow> bootstrap_request \<Rightarrow> search_result list \<Rightarrow> bootstrap_response outcome" where
  "bootstrap_reply u req rs =
     (let (srcs, buf) = context_loop (to_upper u) (bq_max req) rs [] [] []
      in obind (cut_context (bq_max req) buf) (\<lambda>c.
           Ret \<lparr>bs_prompt = system_prompt (bq_agent req) c (bq_task req), bs_context = c,
                bs_sources = srcs\<rparr>))"

definition handle_bootstrap ::
    "'w services \<Rightarrow> 'w server \<Rightarrow> api_request \<Rightarrow> 'w \<Rightarrow> (bootstrap_response, 'w) handled" where
  "handle_bootstrap K sv r w =
     (if ar_method r \<noteq> ''POST'' then method_not_allowed w
      else
        (case decode (sc_json K)
                (dec_struct set_bootstrap_request [''agent'', ''task'', ''max_context_chars'']) (ar_body r)
                \<lparr>bq_agent = [], bq_task = [], bq_max = 0\<rparr> of
           (_, Some e) \<Rightarrow> fail 400 ''invalid request body'' w
         | (req0, None) \<Rightarrow>
             (let req = bootstrap_defaults req0
              in case sv_repo sv of
                   None \<Rightarrow> nil_repo w
                 | Some S \<Rightarrow>
                     (case search_memory S (bq_task req) 15 w of
                        (Panic p, w) \<Rightarrow> (Panic p, w)
                      | (Ret (Inl e), w) \<Rightarrow> fail 500 ''internal error'' w
                      | (Ret (Inr rs), w) \<Rightarrow>
                          (obind (bootstrap_reply (sc_unicode K) req rs) (\<lambda>x. Ret (HttpOk x)), w)))))"

section \<open>The GitHub webhook\<close>

definition truncate :: "string \<Rightarrow> nat \<Rightarrow> string" where
  "truncate s n = (let rs = runes s in if length rs \<le> n then s else utf8 (take n rs) @ ''...'')"

definition classify_message :: "unicode_tables \<Rightarrow> string \<Rightarrow> string" where
  "classify_message u msg =
     (let m = to_lower u msg
      in if contains m ''fix'' \<or> contains m ''bug'' \<or> contains m ''hotfix'' then ''mistake''
         else if contains m ''decision'' \<or> contains m ''decide'' then ''adr''
         else if contains m ''decision'' \<or> contains m ''refactor'' then ''adr''
         else if contains m ''sprint'' then ''sprint''
         else ''operational'')"

text \<open>\<open>s.repo.CreateMemory\<close> with its error dropped.\<close>

definition remember ::
    "'w services \<Rightarrow> 'w server \<Rightarrow> memory_entry \<Rightarrow> 'w \<Rightarrow> unit outcome \<times> 'w" where
  "remember K sv entry w =
     (case sv_repo sv of
        None \<Rightarrow> (Panic ''nil pointer dereference'', w)
      | Some S \<Rightarrow> (case create_memory (sc_unicode K) S entry w of (_, _, w) \<Rightarrow> (Ret (), w)))"

definition commit_entry :: "unicode_tables \<Rightarrow> string \<Rightarrow> memory_entry" where
  "commit_entry u msg = zero_entry\<lparr>me_type := classify_message u msg,
     me_title := ''Commit: '' @ truncate msg 50, me_content := msg\<rparr>"

text \<open>The two checked assertions on a commit: not an object, or no text, is no message.\<close>

definition commit_message :: "json \<Rightarrow> string" where
  "commit_message c = (case c of JObj commit \<Rightarrow> jstring commit ''message'' | _ \<Rightarrow> [])"

fun process_commits :: "'w services \<Rightarrow> 'w server \<Rightarrow> json list \<Rightarrow> 'w \<Rightarrow> unit outcome \<times> 'w" where
  "process_commits K sv [] w = (Ret (), w)"
| "process_commits K sv (c # cs) w =
     (let msg = commit_message c
      in if msg = [] then process_commits K sv cs w
         else
           (case remember K sv (commit_entry (sc_unicode K) msg) w of
              (Panic p, w) \<Rightarrow> (Panic p, w)
            | (Ret _, w) \<Rightarrow> process_commits K sv cs w))"

definition process_push_event :: "'w services \<Rightarrow> 'w server \<Rightarrow> jmap \<Rightarrow> 'w \<Rightarrow> unit outcome \<times> 'w" where
  "process_push_event K sv payload w =
     (case jget payload ''commits'' of
        Some (JArr commits) \<Rightarrow> process_commits K sv commits w
      | _ \<Rightarrow> (Ret (), w))"

definition with_body :: "string \<Rightarrow> string \<Rightarrow> string" where
  "with_body title body = (if body \<noteq> [] then title @ nl @ nl @ body else title)"

definition process_pr_event :: "'w services \<Rightarrow> 'w server \<Rightarrow> jmap \<Rightarrow> 'w \<Rightarrow> unit outcome \<times> 'w" where
  "process_pr_event K sv payload w =
     (case jget payload ''pull_request'' of
        Some (JObj pr) \<Rightarrow>
          (let title = jstring pr ''title''; body = jstring pr ''body''; action = jstring pr ''action''
           in if title = [] then (Ret (), w)
              else remember K sv (zero_entry\<lparr>me_type := ''adr'',
                     me_title := ''PR '' @ action @ '': '' @ truncate title 50,
                     me_content := with_body title body\<rparr>) w)
      | _ \<Rightarrow> (Ret (), w))"

definition process_issue_event :: "'w services \<Rightarrow> 'w server \<Rightarrow> jmap \<Rightarrow> 'w \<Rightarrow> unit outcome \<times> 'w" where
  "process_issue_event K sv payload w =
     (case jget payload ''issue'' of
        Some (JObj issue) \<Rightarrow>
          (let title = jstring issue ''title''; body = jstring issue ''body'';
               action = jstring issue ''action''
           in if title = [] then (Ret (), w)
              else remember K sv (zero_entry\<lparr>me_type := ''mistake'',
                     me_title := ''Issue '' @ action @ '': '' @ truncate title 50,
                     me_content := with_body title body\<rparr>) w)
      | _ \<Rightarrow> (Ret (), w))"

definition handle_github_webhook ::
    "'w services \<Rightarrow> 'w server \<Rightarrow> api_request \<Rightarrow> 'w \<Rightarrow> (string, 'w) handled" where
  "handle_github_webhook K sv r w =
     (if ar_method r \<noteq> ''POST'' then method_not_allowed w
      else
        (case decode (sc_json K) (dec_map (sc_json K)) (ar_body r) [] of
           (_, Some e) \<Rightarrow> fail 400 ''invalid payload'' w
         | (payload, None) \<Rightarrow>
             (let ev = first_value (ar_headers r) ''X-GitHub-Event'';
                  ev = (if ev = [] then ''push'' else ev);
                  (x, w) = (if ev = ''push'' then process_push_event K sv payload w
                            else if ev = ''pull_request'' then process_pr_event K sv payload w
                            else if ev = ''issues'' then process_issue_event K sv payload w
                            else (Ret (), w))
              in (obind x (\<lambda>_. Ret (HttpOk ''processed'')), w))))"

section \<open>The context loop\<close>

lemma so_content_to_source [simp]: "so_content (to_source r) = sr_content r"
  by (simp add: to_source_def)

lemma context_loop_sources:
  "\<exists>added. fst (context_loop f limit rs seen srcs buf) = srcs @ added \<and>
     subseq added (map to_source rs) \<and> distinct (map so_content added) \<and>
     set (map so_content added) \<inter> set seen = {}"
proof (induction rs arbitrary: seen srcs buf)
  case Nil
  then show ?case by (intro exI [of _ "[]"]) simp
next
  case (Cons r rs)
  show ?case
  proof (cases "sr_content r \<in> set seen")
    case True
    with Cons.IH [of seen srcs buf] show ?thesis by (auto simp: subseq_Cons')
  next
    case new: False
    show ?thesis
    proof (cases "limit < int (length (buf @ context_block f r))")
      case True
      with new show ?thesis by (intro exI [of _ "[to_source r]"]) simp
    next
      case False
      from Cons.IH [of "sr_content r # seen" "srcs @ [to_source r]" "buf @ context_block f r"]
      obtain added where "fst (context_loop f limit rs (sr_content r # seen) (srcs @ [to_source r])
            (buf @ context_block f r)) = srcs @ to_source r # added"
        "subseq added (map to_source rs)" "distinct (map so_content added)"
        "set (map so_content added) \<inter> set (sr_content r # seen) = {}" by auto
      with new False show ?thesis
        by (intro exI [of _ "to_source r # added"]) (auto simp: Let_def)
    qed
  qed
qed

lemma context_loop_facts:
  assumes "context_loop f limit rs [] [] [] = (srcs, buf)"
  shows "subseq srcs (map to_source rs)" and "distinct (map so_content srcs)"
  using context_loop_sources [of f limit rs "[]" "[]" "[]"] assms by auto

text \<open>
  What a context shows: the results without those whose content came before, from the first on; all
  of them, or up to the one with which the text became longer than the limit.
\<close>

fun unseen :: "string list \<Rightarrow> search_result list \<Rightarrow> search_result list" where
  "unseen seen [] = []"
| "unseen seen (r # rs) =
     (if sr_content r \<in> set seen then unseen seen rs else r # unseen (sr_content r # seen) rs)"

definition blocks :: "(string \<Rightarrow> string) \<Rightarrow> search_result list \<Rightarrow> string" where
  "blocks f rs = concat (map (context_block f) rs)"

definition shows_results ::
    "(string \<Rightarrow> string) \<Rightarrow> int \<Rightarrow> search_result list \<Rightarrow> source list \<Rightarrow> string \<Rightarrow> bool" where
  "shows_results f limit rs srcs c \<longleftrightarrow>
     (\<exists>n. srcs = map to_source (unseen [] (take n rs)) \<and>
        cut_context limit (blocks f (unseen [] (take n rs))) = Ret c \<and>
        (n = length rs \<or> limit < int (length (blocks f (unseen [] (take n rs))))))"

lemma context_loop_shows:
  "\<exists>n. context_loop f limit rs seen srcs buf =
      (srcs @ map to_source (unseen seen (take n rs)), buf @ blocks f (unseen seen (take n rs))) \<and>
     (n = length rs \<or> limit < int (length (buf @ blocks f (unseen seen (take n rs)))))"
proof (induction f limit rs seen srcs buf rule: context_loop.induct)
  case (1 f limit seen srcs buf)
  show ?case by (simp add: blocks_def)
next
  case (2 f limit r rs seen srcs buf)
  show ?case
  proof (cases "sr_content r \<in> set seen")
    case True
    with 2(1) obtain n where "context_loop f limit rs seen srcs buf =
        (srcs @ map to_source (unseen seen (take n rs)), buf @ blocks f (unseen seen (take n rs)))"
      "n = length rs \<or> limit < int (length (buf @ blocks f (unseen seen (take n rs))))" by blast
    with True show ?thesis by (intro exI [of _ "Suc n"]) simp
  next
    case new: False
    show ?thesis
    proof (cases "limit < int (length (buf @ context_block f r))")
      case True
      with new show ?thesis by (intro exI [of _ 1]) (simp add: blocks_def Let_def)
    next
      case False
      with 2(2) [OF new refl refl] obtain n where
        "context_loop f limit rs (sr_content r # seen) (srcs @ [to_source r]) (buf @ context_block f r) =
          ((srcs @ [to_source r]) @ map to_source (unseen (sr_content r # seen) (take n rs)),
           (buf @ context_block f r) @ blocks f (unseen (sr_content r # seen) (take n rs)))"
        "n = length rs \<or> limit < int (length ((buf @ context_block f r) @
           blocks f (unseen (sr_content r # seen) (take n rs))))" by blast
      with new False show ?thesis by (intro exI [of _ "Suc n"]) (simp add: blocks_def Let_def)
    qed
  qed
qed

lemma shows_results_loop:
  assumes "context_loop f limit rs [] [] [] = (srcs, buf)" and "cut_context limit buf = Ret c"
  shows "shows_results f limit rs srcs c"
  using context_loop_shows [of f limit rs "[]" "[]" "[]"] assms by (auto simp: shows_results_def)

lemma cut_context_cases:
  "if limit < 0 then cut_context limit buf = Panic ''slice bounds out of range''
   else \<exists>c. cut_context limit buf = Ret c \<and> int (length c) \<le> limit + 4 \<and>
     take (nat limit) c = take (nat limit) (trim_space buf)"
  by (auto simp: cut_context_def slice_to_def Let_def)

section \<open>Refused entries\<close>

lemma remember_reads:
  assumes "sv_repo sv = Some S" and "kept_by_reads S P" and "P w"
    and "me_type entry \<notin> {''pdr'', ''adr'', ''pref''}"
  shows "\<exists>w'. remember K sv entry w = (Ret (), w') \<and> P w'"
  using create_unknown_reads(1) [OF assms(2-4), of "sc_unicode K"] assms(1)
  by (auto simp: remember_def split: prod.splits)

lemma classify_message_type:
  "classify_message u msg \<in> {''mistake'', ''adr'', ''sprint'', ''operational''}"
  by (simp add: classify_message_def Let_def)

lemma process_commits_each:
  assumes "\<And>c w. c \<in> set cs \<Longrightarrow> P w \<Longrightarrow> commit_message c \<noteq> [] \<Longrightarrow>
      \<exists>w'. remember K sv (commit_entry (sc_unicode K) (commit_message c)) w = (Ret (), w') \<and> P w'"
    and "P w"
  shows "\<exists>w'. process_commits K sv cs w = (Ret (), w') \<and> P w'"
  using assms
proof (induction cs arbitrary: w)
  case Nil
  then show ?case by simp
next
  case (Cons c cs)
  show ?case
  proof (cases "commit_message c = []")
    case True
    with Cons show ?thesis by (simp add: Let_def)
  next
    case False
    with Cons.prems obtain w1 where
      "remember K sv (commit_entry (sc_unicode K) (commit_message c)) w = (Ret (), w1)" "P w1"
      by (meson list.set_intros(1))
    moreover from Cons.IH [OF Cons.prems(1) this(2)] obtain w2 where
      "process_commits K sv cs w1 = (Ret (), w2)" "P w2" by auto
    ultimately show ?thesis using False by (simp add: Let_def)
  qed
qed

lemma process_commits_reads:
  assumes "sv_repo sv = Some S" and "kept_by_reads S P" and "P w"
    and "list_all (\<lambda>c. case c of JObj m \<Rightarrow> classify_message (sc_unicode K) (jstring m ''message'') \<noteq> ''adr''
                        | _ \<Rightarrow> True) cs"
  shows "\<exists>w'. process_commits K sv cs w = (Ret (), w') \<and> P w'"
proof (rule process_commits_each)
  fix c w assume c: "c \<in> set cs" "P w" "commit_message c \<noteq> []"
  then obtain m where "c = JObj m" by (auto simp: commit_message_def split: json.splits)
  with c(1) assms(4) classify_message_type [of "sc_unicode K" "commit_message c"]
  have "me_type (commit_entry (sc_unicode K) (commit_message c)) \<notin> {''pdr'', ''adr'', ''pref''}"
    by (auto simp: commit_entry_def commit_message_def list_all_iff)
  from remember_reads [OF assms(1,2) c(2) this]
  show "\<exists>w'. remember K sv (commit_entry (sc_unicode K) (commit_message c)) w = (Ret (), w') \<and> P w'" .
qed (rule assms(3))

text \<open>Over the tables of the migrations only documents and preferences can be created.\<close>

lemma remember_nothing:
  assumes "sv_repo sv = Some S" and "kept_by_reads S P" and "array_column S P" and "P w"
    and "me_type entry \<notin> {''pdr'', ''pref''}"
  shows "\<exists>w'. remember K sv entry w = (Ret (), w') \<and> P w'"
proof (cases "me_type entry = ''adr''")
  case True
  from decision_refused(2) [OF assms(2-4) True, of "sc_unicode K"] assms(1) show ?thesis
    by (auto simp: remember_def split: prod.splits)
next
  case False
  with remember_reads [OF assms(1,2,4)] assms(5) show ?thesis by simp
qed

text \<open>The webhook keeps what remembering an entry keeps that is neither a document nor a preference.\<close>

lemma webhook_keeps:
  assumes remembered: "\<And>entry w. P w \<Longrightarrow> me_type entry \<notin> {''pdr'', ''pref''} \<Longrightarrow>
      \<exists>w'. remember K sv entry w = (Ret (), w') \<and> P w'"
    and "P w"
  shows "\<exists>y w'. handle_github_webhook K sv r w = (Ret y, w') \<and> P w'"
proof -
  obtain payload e where d: "decode (sc_json K) (dec_map (sc_json K)) (ar_body r) [] = (payload, e)"
    by (cases "decode (sc_json K) (dec_map (sc_json K)) (ar_body r) []")
  have type: "me_type (commit_entry (sc_unicode K) m) \<notin> {''pdr'', ''pref''}" for m
    using classify_message_type [of "sc_unicode K" m] by (auto simp: commit_entry_def)
  have "\<exists>w'. process_commits K sv cs w = (Ret (), w') \<and> P w'" for cs
    by (rule process_commits_each [OF remembered [OF _ type] assms(2)])
  with assms(2) have push: "\<exists>w'. process_push_event K sv payload w = (Ret (), w') \<and> P w'"
    by (auto simp: process_push_event_def split: option.splits json.splits)
  have others: "\<exists>w'. process_pr_event K sv payload w = (Ret (), w') \<and> P w'"
    "\<exists>w'. process_issue_event K sv payload w = (Ret (), w') \<and> P w'"
    using remembered [OF assms(2)] assms(2)
    by (auto simp: process_pr_event_def process_issue_event_def Let_def split: option.splits json.splits)
  let ?run = "\<lambda>ev. if ev = ''push'' then process_push_event K sv payload w
      else if ev = ''pull_request'' then process_pr_event K sv payload w
      else if ev = ''issues'' then process_issue_event K sv payload w
      else (Ret (), w)"
  have run: "\<exists>w'. ?run ev = (Ret (), w') \<and> P w'" for ev
    using push others assms(2) by simp
  let ?ev = "first_value (ar_headers r) ''X-GitHub-Event''"
  obtain w' where w': "?run (if ?ev = [] then ''push'' else ?ev) = (Ret (), w')" "P w'"
    using run by blast
  show ?thesis
  proof (cases "ar_method r = ''POST'' \<and> e = None")
    case True
    with w' show ?thesis unfolding handle_github_webhook_def d Let_def by simp
  next
    case False
    with assms(2) show ?thesis
      by (auto simp: handle_github_webhook_def d fail_def method_not_allowed_def)
  qed
qed

section \<open>Properties\<close>

text \<open>
  The runtime context is bounded and holds nothing twice: for any search results the agent
  handler's reply exists, its context has at most 8004 bytes, and its sources are results in
  their order, no two with the same content.
\<close>

theorem agent_reply_bounded:
  "\<exists>a. agent_reply req rs = Ret a \<and> length (ag_context a) \<le> 8004 \<and>
     subseq (ag_sources a) (map to_source rs) \<and> distinct (map so_content (ag_sources a)) \<and>
     shows_results (\<lambda>t. t) 8000 rs (ag_sources a) (ag_context a) \<and>
     ag_agent a = aq_agent req \<and> ag_task a = aq_task req"
proof -
  obtain srcs buf where l: "context_loop (\<lambda>t. t) max_context_length rs [] [] [] = (srcs, buf)"
    by (metis prod.exhaust)
  obtain c where "cut_context max_context_length buf = Ret c" "int (length c) \<le> max_context_length + 4"
    using cut_context_cases [of max_context_length buf] by (auto simp: max_context_length_def)
  with l context_loop_facts [OF l] shows_results_loop [OF l] show ?thesis
    by (simp add: agent_reply_def max_context_length_def)
qed

text \<open>
  The bootstrap limit comes from the request, 6000 if it names none, and is not checked: with a
  limit that is not negative the reply exists and its context is at most four bytes longer than
  the limit, its sources are results in their order; with a negative one the handler panics on
  every result.
\<close>

definition context_limit :: "bootstrap_request \<Rightarrow> int" where
  "context_limit req0 = (if bq_max req0 = 0 then 6000 else bq_max req0)"

lemma bootstrap_defaults_max: "bq_max (bootstrap_defaults req0) = context_limit req0"
  by (simp add: bootstrap_defaults_def context_limit_def Let_def)

theorem bootstrap_reply_bounded:
  "if context_limit req0 < 0
   then bootstrap_reply u (bootstrap_defaults req0) rs = Panic ''slice bounds out of range''
   else \<exists>b. bootstrap_reply u (bootstrap_defaults req0) rs = Ret b \<and>
     int (length (bs_context b)) \<le> context_limit req0 + 4 \<and>
     subseq (bs_sources b) (map to_source rs) \<and> distinct (map so_content (bs_sources b)) \<and>
     shows_results (to_upper u) (context_limit req0) rs (bs_sources b) (bs_context b) \<and>
     bs_prompt b = system_prompt (bq_agent (bootstrap_defaults req0)) (bs_context b)
       (bq_task (bootstrap_defaults req0))"
proof -
  obtain srcs buf where l: "context_loop (to_upper u) (context_limit req0) rs [] [] [] = (srcs, buf)"
    by (metis prod.exhaust)
  with context_loop_facts [OF l] shows_results_loop [OF l] cut_context_cases [of "context_limit req0" buf]
  show ?thesis by (auto simp: bootstrap_reply_def bootstrap_defaults_max)
qed

text \<open>
  C36. The contexts given to agents are bounded, in order and hold nothing twice. For any search
  results the runtime handler's reply exists, has at most 8004 bytes, and its sources are results
  in the order of the search, no two with the same content. The bootstrap handler takes its limit
  from the request, or 6000 bytes if the request names none or zero, and does not check it: with one
  that is not negative the reply has at most four bytes more, its sources likewise in the order of
  the search and without a repeated content; with a negative one the handler panics on every
  result. Both show the results from the first on, leaving out repeated contents, either all of them
  or up to the one with which the text became longer than the limit. The order is that of the
  search (C34: documents first), whatever the types are: the priorities of types the runtime
  handler writes down are not used.
\<close>

theorem context_replies_bounded:
  "(\<exists>a. agent_reply areq rs = Ret a \<and> length (ag_context a) \<le> 8004 \<and>
      subseq (ag_sources a) (map to_source rs) \<and> distinct (map so_content (ag_sources a)) \<and>
      shows_results (\<lambda>t. t) 8000 rs (ag_sources a) (ag_context a) \<and>
      ag_agent a = aq_agent areq \<and> ag_task a = aq_task areq) \<and>
   (if context_limit req0 < 0
    then bootstrap_reply u (bootstrap_defaults req0) rs = Panic ''slice bounds out of range''
    else \<exists>b. bootstrap_reply u (bootstrap_defaults req0) rs = Ret b \<and>
      int (length (bs_context b)) \<le> context_limit req0 + 4 \<and>
      subseq (bs_sources b) (map to_source rs) \<and> distinct (map so_content (bs_sources b)) \<and>
      shows_results (to_upper u) (context_limit req0) rs (bs_sources b) (bs_context b) \<and>
      bs_prompt b = system_prompt (bq_agent (bootstrap_defaults req0)) (bs_context b)
        (bq_task (bootstrap_defaults req0)))"
  by (rule conjI [OF agent_reply_bounded bootstrap_reply_bounded])

lemma runes_dots: "runes ''...'' = [46, 46, 46]"
  by code_simp

text \<open>
  Truncation counts characters, not bytes: \<open>truncate\<close> keeps a text of at most \<open>n\<close> runes as it is
  and cuts a longer one to its first \<open>n\<close> runes and three dots, never inside a character.
\<close>

theorem truncate_runes:
  "runes (truncate s n) =
     (if length (runes s) \<le> n then runes s else take n (runes s) @ [46, 46, 46]) \<and>
   length (runes (truncate s n)) \<le> n + 3"
proof -
  have "\<forall>r \<in> set (take n (runes s)). is_scalar r"
    by (meson in_set_takeD runes_scalar)
  then have "runes (utf8 (take n (runes s)) @ ''...'') = take n (runes s) @ [46, 46, 46]"
    by (simp add: runes_utf8_append runes_dots)
  then show ?thesis by (simp add: truncate_def Let_def)
qed

text \<open>
  The webhook remembers no issue and no fix: an issue event, and a push whose commit messages
  are not classified as decisions (those that mention a fix or a bug among them), end without a
  panic and run nothing but SELECT queries, although both build memory entries.
\<close>

theorem webhook_stores_no_mistakes:
  assumes "sv_repo sv = Some S" and "kept_by_reads S P" and "P w"
    and "\<forall>m \<in> set cs. \<forall>o'. m = JObj o' \<longrightarrow>
           classify_message (sc_unicode K) (jstring o' ''message'') \<noteq> ''adr''"
  shows "(\<exists>w'. process_issue_event K sv payload w = (Ret (), w') \<and> P w') \<and>
    (\<exists>w'. process_push_event K sv [(''commits'', JArr cs)] w = (Ret (), w') \<and> P w')"
proof
  show "\<exists>w'. process_issue_event K sv payload w = (Ret (), w') \<and> P w'"
    using assms(3) remember_reads [OF assms(1-3)]
    by (auto simp: process_issue_event_def Let_def split: option.splits json.splits)
  have "list_all (\<lambda>c. case c of JObj m \<Rightarrow> classify_message (sc_unicode K) (jstring m ''message'') \<noteq> ''adr''
      | _ \<Rightarrow> True) cs"
    using assms(4) by (auto simp: list_all_iff split: json.splits)
  from process_commits_reads [OF assms(1-3) this]
  show "\<exists>w'. process_push_event K sv [(''commits'', JArr cs)] w = (Ret (), w') \<and> P w'"
    by (simp add: process_push_event_def jget_def)
qed

text \<open>
  C31. The webhook remembers nothing: over the tables of the migrations, whatever GitHub sends
  (pushes, pull requests, issues, anything else), the handler answers without a panic and stores no
  row: every predicate of the database that reading keeps holds afterwards. Issues and most
  commits build entries of types that cannot be created, and the rest are decisions, whose
  tags the column does not take; the errors are dropped.
\<close>

theorem webhook_stores_nothing:
  assumes "sv_repo sv = Some S" and "kept_by_reads S P" and "array_column S P" and "P w"
  shows "\<exists>y w'. handle_github_webhook K sv r w = (Ret y, w') \<and> P w'"
  by (rule webhook_keeps [OF remember_nothing [OF assms(1-3)] assms(4)])

definition quiet_net :: "'w net" where
  "quiet_net = \<lparr>http_do = (\<lambda>r w. (Inl ''refused'', w)), time_now = (\<lambda>w. (0, w)),
     time_sleep = (\<lambda>d w. w), url_err_text = (\<lambda>_. ''invalid URL'')\<rparr>"

definition sample_services :: "(string \<times> json) list \<Rightarrow> 'w services" where
  "sample_services t = \<lparr>sc_net = quiet_net, sc_json = scan_table t, sc_float32 = (\<lambda>_. None),
     sc_unicode = ascii_tables\<rparr>"

definition sample_server :: "(string \<times> string) list server" where
  "sample_server = \<lparr>sv_repo = Some table_store, sv_embedder = None\<rparr>"

lemma table_store_reads: "kept_by_reads table_store (\<lambda>w. w = w0)"
proof -
  have "\<not> has_prefix insert_pdr_sql ''SELECT''" by (simp add: insert_pdr_sql_def)
  then show ?thesis by (auto simp: kept_by_reads_def table_store_def)
qed

theorem webhook_stores_no_mistakes_witness:
  "\<exists>w'. process_push_event (sample_services []) sample_server
       [(''commits'', JArr [JObj [(''message'', JStr ''Fix the login'')]])] [(''t'', ''c'')] = (Ret (), w') \<and>
     w' = [(''t'', ''c'')]"
proof -
  let ?cs = "[JObj [(''message'', JStr ''Fix the login'')]]"
  have "classify_message ascii_tables ''Fix the login'' \<noteq> ''adr''" by code_simp
  then have "\<forall>m \<in> set ?cs. \<forall>o'. m = JObj o' \<longrightarrow>
      classify_message (sc_unicode (sample_services [] :: (string \<times> string) list services))
        (jstring o' ''message'') \<noteq> ''adr''"
    by (simp add: sample_services_def jstring_def jget_def)
  from webhook_stores_no_mistakes [OF _ table_store_reads refl this, of sample_server "[]"]
  show ?thesis by (simp add: sample_server_def)
qed

text \<open>A pull request with a title, over the sample database.\<close>

definition pr_json :: json where
  "pr_json = JObj [(''action'', JStr ''opened''), (''pull_request'', JObj [(''title'', JStr ''Use one queue'')])]"

theorem webhook_stores_nothing_witness:
  "\<exists>y w'. handle_github_webhook (sample_services [(''body'', pr_json)])
      \<lparr>sv_repo = Some doc_store, sv_embedder = None\<rparr>
      \<lparr>ar_method = ''POST'', ar_path = ''/webhooks/github'', ar_query = [],
       ar_headers = [(''X-GitHub-Event'', ''pull_request'')], ar_body = ''body''\<rparr> [(''t'', ''c'')]
     = (Ret y, w') \<and> w' = [(''t'', ''c'')]"
proof -
  have "array_column doc_store (\<lambda>w. w = [(''t'', ''c'')])"
    using doc_store_sql(1) by (simp add: array_column_def doc_store_def)
  from webhook_stores_nothing [OF _ doc_store_reads this refl,
      of "\<lparr>sv_repo = Some doc_store, sv_embedder = None\<rparr>"]
  show ?thesis by simp
qed

lemma created_entry:
  "create_memory u S entry w = (None, e', w') \<Longrightarrow>
     me_id e' = me_id entry \<and> me_type e' = me_type entry \<and> me_type entry \<in> {''pdr'', ''adr'', ''pref''}"
  by (frule create_memory_accepts, drule create_memory_entry) simp

lemma ingest_entry:
  assumes "handle_ingest_memory K sv r w = (Ret (HttpOk x), w')"
  shows "is_id x = [] \<and> is_ingested x \<and> is_type x \<in> {''pdr'', ''adr'', ''pref''} \<and>
    ar_method r = ''POST'' \<and> sv_repo sv \<noteq> None"
  using assms
  by (auto simp: handle_ingest_memory_def fail_def method_not_allowed_def nil_repo_def Let_def
      zero_entry_def
      dest!: created_entry
      split: if_splits prod.splits option.splits)

text \<open>
  What an accepted ingestion says: it was a POST over a connected database, the stored type is
  one of the three that can be stored, and the identifier in the reply is always empty.
\<close>

theorem ingest_reports_no_id:
  assumes "handle_ingest_memory K sv r w = (Ret (HttpOk x), w')"
  shows "is_id x = [] \<and> is_ingested x \<and> is_type x \<in> {''pdr'', ''adr'', ''pref''} \<and>
    ar_method r = ''POST'' \<and> sv_repo sv \<noteq> None"
  by (rule ingest_entry [OF assms])

definition ingest_json :: json where
  "ingest_json = JObj [(''type'', JStr ''pdr''), (''title'', JStr '' t''), (''content'', JStr ''c'')]"

theorem ingest_reports_no_id_witness:
  "\<exists>x. handle_ingest_memory (sample_services [(''body'', ingest_json)]) sample_server
      \<lparr>ar_method = ''POST'', ar_path = ''/memory/ingest'', ar_query = [], ar_headers = [],
       ar_body = ''body''\<rparr> []
     = (Ret (HttpOk x), [(''t'', ''c'')]) \<and> is_id x = []"
proof -
  let ?K = "sample_services [(''body'', ingest_json)] :: (string \<times> string) list services"
  let ?r = "\<lparr>ar_method = ''POST'', ar_path = ''/memory/ingest'', ar_query = [], ar_headers = [],
       ar_body = ''body''\<rparr>"
  have dec: "decode (sc_json ?K) (dec_struct set_ingest_request [''type'', ''title'', ''content'', ''tags''])
      ''body'' \<lparr>ir_type = [], ir_title = [], ir_content = [], ir_tags = []\<rparr>
      = (\<lparr>ir_type = ''pdr'', ir_title = '' t'', ir_content = ''c'', ir_tags = []\<rparr>, None)"
    by (simp add: sample_services_def ingest_json_def scan_table_def decode_def dec_struct_def
        set_ingest_request_def)
  have trim: "trim_space '' t'' = ''t''" "trim_space ''c'' = ''c''" by code_simp+
  obtain x where x: "handle_ingest_memory ?K sample_server ?r [] = (Ret (HttpOk x), [(''t'', ''c'')])"
    using table_store_pdr [of ascii_tables]
    by (simp add: handle_ingest_memory_def dec trim sample_server_def Let_def)
      (simp add: sample_services_def)
  from ingest_reports_no_id [OF x] x show ?thesis by blast
qed

end
