(* ===== verification/Api_Service.thy ===== *)
theory Api_Service
  imports Api
begin

text \<open>
  The whole HTTP service of \<open>cmd/api\<close>: a request goes through the routes of \<open>RegisterRoutes\<close> to its handler
  (Api.thy), and requests are served one after the other. \<open>http.ServeMux\<close> is the standard library's: it answers 404
  when no pattern fits, and 405 when one fits but for the method; paths that it redirects are left out.

  The abstract view of the service is the set of product documents, which the requests posted to
  it extend. Creations that interleave are in Memory_Tables.thy.
\<close>

section \<open>Serving requests\<close>

datatype api_answer =
    AnsEntry memory_entry
  | AnsEntries "memory_entry list"
  | AnsStored stored
  | AnsResults "search_result list"
  | AnsContext context_response
  | AnsIngested ingest_response
  | AnsAgent agent_response
  | AnsStatus string
  | AnsBootstrap bootstrap_response

definition answer :: "('a \<Rightarrow> api_answer) \<Rightarrow> ('a, 'w) handled \<Rightarrow> (api_answer, 'w) handled" where
  "answer f h =
     (case h of
        (Panic p, w) \<Rightarrow> (Panic p, w)
      | (Ret (HttpError c m), w) \<Rightarrow> (Ret (HttpError c m), w)
      | (Ret (HttpOk x), w) \<Rightarrow> (Ret (HttpOk (f x)), w))"

definition serve :: "'w services \<Rightarrow> 'w server \<Rightarrow> api_request \<Rightarrow> 'w \<Rightarrow> (api_answer, 'w) handled" where
  "serve K sv r w =
     (case route (ar_method r) (ar_path r) of
        None \<Rightarrow>
          if list_ex (\<lambda>(m, pat, ep). pattern_matches pat (ar_path r)) routes
          then fail 405 ''Method Not Allowed'' w else fail 404 ''404 page not found'' w
      | Some EpCreateMemory \<Rightarrow> answer AnsEntry (handle_create_memory K sv r w)
      | Some EpListMemory \<Rightarrow> answer AnsEntries (handle_list_memory sv r w)
      | Some EpGetMemory \<Rightarrow> answer AnsStored (handle_get_memory sv r w)
      | Some EpSearch \<Rightarrow> answer AnsResults (handle_search sv r w)
      | Some EpBuildContext \<Rightarrow> answer AnsContext (handle_build_context K sv r w)
      | Some EpIngestMemory \<Rightarrow> answer AnsIngested (handle_ingest_memory K sv r w)
      | Some EpAgentRuntime \<Rightarrow> answer AnsAgent (handle_agent_runtime K sv r w)
      | Some EpGitHubWebhook \<Rightarrow> answer AnsStatus (handle_github_webhook K sv r w)
      | Some EpBootstrap \<Rightarrow> answer AnsBootstrap (handle_bootstrap K sv r w))"

text \<open>A panic of a handler ends its request only.\<close>

fun serve_all ::
    "'w services \<Rightarrow> 'w server \<Rightarrow> api_request list \<Rightarrow> 'w \<Rightarrow> api_answer reply outcome list \<times> 'w" where
  "serve_all K sv [] w = ([], w)"
| "serve_all K sv (r # rs) w =
     (case serve K sv r w of (x, w) \<Rightarrow>
        (case serve_all K sv rs w of (xs, w) \<Rightarrow> (x # xs, w)))"

section \<open>What a request posts\<close>

definition entry_of :: "'w services \<Rightarrow> api_request \<Rightarrow> memory_entry option" where
  "entry_of K r =
     (case decode (sc_json K) (dec_entry (sc_float32 K)) (ar_body r) zero_entry of
        (_, Some e) \<Rightarrow> None
      | (entry, None) \<Rightarrow> Some entry)"

definition ingest_of :: "'w services \<Rightarrow> api_request \<Rightarrow> ingest_request option" where
  "ingest_of K r =
     (case decode (sc_json K) (dec_struct set_ingest_request [''type'', ''title'', ''content'', ''tags''])
             (ar_body r) \<lparr>ir_type = [], ir_title = [], ir_content = [], ir_tags = []\<rparr> of
        (_, Some e) \<Rightarrow> None
      | (req, None) \<Rightarrow> Some req)"

text \<open>The title and content of the product document a request asks to store, white space trimmed for an ingestion.\<close>

definition posted :: "'w services \<Rightarrow> api_request \<Rightarrow> (string \<times> string) option" where
  "posted K r =
     (case route (ar_method r) (ar_path r) of
        Some EpCreateMemory \<Rightarrow>
          (case entry_of K r of
             Some e \<Rightarrow> if me_type e = ''pdr'' then Some (me_title e, me_content e) else None
           | None \<Rightarrow> None)
      | Some EpIngestMemory \<Rightarrow>
          (case ingest_of K r of
             Some q \<Rightarrow>
               if ir_type q = ''pdr'' \<and> ir_title q \<noteq> [] \<and> ir_content q \<noteq> []
               then Some (trim_space (ir_title q), trim_space (ir_content q)) else None
           | None \<Rightarrow> None)
      | _ \<Rightarrow> None)"

section \<open>Reading handlers\<close>

lemma query_row_reads [reads]:
  "kept_by_reads S P \<Longrightarrow> P w \<Longrightarrow> has_prefix q ''SELECT'' \<Longrightarrow> P (snd (query_row S n q args w))"
  using keptD(3) [of S P w q args] by (simp add: query_row_world)

lemma get_reads [reads]:
  assumes "kept_by_reads S P" and "P w"
  shows "P (snd (get_pdr S i w))" "P (snd (get_adr S i w))" "P (snd (get_preference S i w))"
  using query_row_reads [OF assms]
  by (simp_all add: get_pdr_def get_adr_def adr_columns_def get_preference_def case_prod_beta split: sum.splits)

lemma list_memory_reads [reads]:
  assumes "kept_by_reads S P" and "P w"
  shows "P (snd (list_memory S ty w))"
  using query_rows_reads [OF assms] assms(2)
  by (simp add: list_memory_def list_pdrs_def list_pdrs_sql_def list_adrs_def adr_columns_def
      list_preferences_def case_prod_beta split: sum.splits)

lemma answer_world [simp]: "snd (answer f h) = snd h"
  by (simp add: answer_def split: prod.splits outcome.splits reply.splits)

lemma answer_ok:
  "fst (answer f h) = Ret (HttpOk a) \<longleftrightarrow> (\<exists>x. fst h = Ret (HttpOk x) \<and> a = f x)"
  by (auto simp: answer_def split: prod.splits outcome.splits reply.splits)

lemmas handler_replies = fail_def method_not_allowed_def nil_repo_def

lemma reading_handlers:
  assumes "kept_by_reads S P" and "P w" and "sv_repo sv = Some S"
  shows "P (snd (handle_list_memory sv r w))" "P (snd (handle_get_memory sv r w))"
    "P (snd (handle_search sv r w))" "P (snd (handle_build_context K sv r w))"
    "P (snd (handle_agent_runtime K sv r w))" "P (snd (handle_bootstrap K sv r w))"
proof -
  note search = search_memory_reads [OF assms(1,2)]
  show "P (snd (handle_list_memory sv r w))"
    using list_memory_reads [OF assms(1,2)] assms(2,3)
    by (simp add: handle_list_memory_def handler_replies Let_def split: prod.splits sum.splits) (metis snd_conv)
  show "P (snd (handle_get_memory sv r w))"
    using get_reads [OF assms(1,2)] assms(2,3)
    by (simp add: handle_get_memory_def handler_replies Let_def map_prod_def case_prod_beta
        split: sum.splits)
  show "P (snd (handle_search sv r w))"
    using search assms(2,3)
    by (simp add: handle_search_def handler_replies Let_def case_prod_beta
        split: sum.splits outcome.splits)
  show "P (snd (handle_build_context K sv r w))" "P (snd (handle_agent_runtime K sv r w))"
    "P (snd (handle_bootstrap K sv r w))"
    using search assms(2,3)
    by (simp_all add: handle_build_context_def handle_agent_runtime_def handle_bootstrap_def handler_replies
        Let_def case_prod_beta split: sum.splits outcome.splits option.splits)
qed

section \<open>What is written\<close>

text \<open>
  What PostgreSQL documents of the statements: a SELECT and an INSERT into another table leave the
  documents, an INSERT of a document adds it when it answers with a row, and leaves the table or (when the
  connection is lost after the commit) adds it when it answers with an error.
\<close>

definition written :: "'w store \<Rightarrow> ('w \<Rightarrow> (string \<times> string) set) \<Rightarrow> bool" where
  "written S docs \<longleftrightarrow>
     (\<forall>D. kept_by_reads S (\<lambda>w. docs w = D)) \<and>
     (\<forall>q args w. q \<in> {insert_adr_sql, insert_pref_sql} \<longrightarrow> docs (snd (db_query S q args w)) = docs w) \<and>
     (\<forall>t c ts w. docs (snd (db_query S insert_pdr_sql [t, c, ts] w)) \<in> {docs w, insert (t, c) (docs w)}) \<and>
     (\<forall>t c ts w r rs w'. db_query S insert_pdr_sql [t, c, ts] w = (Inr (r # rs), w') \<longrightarrow> (t, c) \<in> docs w')"

definition net_leaves :: "'w net \<Rightarrow> ('w \<Rightarrow> (string \<times> string) set) \<Rightarrow> bool" where
  "net_leaves N docs \<longleftrightarrow> (\<forall>r w. docs (snd (http_do N r w)) = docs w)"

lemma writtenD:
  assumes "written S docs"
  shows "kept_by_reads S (\<lambda>w. docs w = D)"
    and "q \<in> {insert_adr_sql, insert_pref_sql} \<Longrightarrow> docs (snd (db_query S q args w)) = docs w"
    and "docs (snd (db_query S insert_pdr_sql [t, c, ts] w)) \<in> {docs w, insert (t, c) (docs w)}"
    and "db_query S insert_pdr_sql [t, c, ts] w = (Inr (r # rs), w') \<Longrightarrow> (t, c) \<in> docs w'"
  using assms unfolding written_def by blast+

lemma store_pdr_docs:
  assumes "written S docs"
  shows "docs (snd (snd (store_pdr S p w))) \<in> {docs w, insert (pdr_title p, pdr_content p) (docs w)}"
    and "fst (store_pdr S p w) = None \<Longrightarrow>
      (pdr_title p, pdr_content p) \<in> docs (snd (snd (store_pdr S p w)))"
proof -
  have now: "docs (snd (now_text S w)) = docs w"
    by (rule keptD(1) [OF writtenD(1) [OF assms] refl])
  show "docs (snd (snd (store_pdr S p w))) \<in> {docs w, insert (pdr_title p, pdr_content p) (docs w)}"
    using writtenD(3) [OF assms] unfolding store_worlds(1) now [symmetric] by blast
  show "(pdr_title p, pdr_content p) \<in> docs (snd (snd (store_pdr S p w)))"
    if "fst (store_pdr S p w) = None"
    using that writtenD(4) [OF assms, of "pdr_title p" "pdr_content p" "fst (now_text S w)" "snd (now_text S w)"]
    by (cases "db_query S insert_pdr_sql [pdr_title p, pdr_content p, fst (now_text S w)] (snd (now_text S w))")
      (auto simp: store_pdr_def query_row_def Let_def case_prod_beta split: sum.splits list.splits)
qed

lemma store_entry_docs:
  assumes "written S docs"
  shows "docs (snd (store_entry S e w)) = docs w \<or>
      me_type e = ''pdr'' \<and> docs (snd (store_entry S e w)) = insert (me_title e, me_content e) (docs w)"
    and "fst (store_entry S e w) = None \<Longrightarrow> me_type e = ''pdr'' \<Longrightarrow>
      (me_title e, me_content e) \<in> docs (snd (store_entry S e w))"
proof -
  have now: "docs (snd (now_text S w)) = docs w"
    by (rule keptD(1) [OF writtenD(1) [OF assms] refl])
  have others: "docs (snd (snd (store_adr S a w))) = docs w"
    "docs (snd (snd (store_preference S p w))) = docs w" for a p
    using writtenD(2) [OF assms] now by (simp_all add: store_worlds)
  let ?p = "zero_pdr\<lparr>pdr_title := me_title e, pdr_content := me_content e\<rparr>"
  show "docs (snd (store_entry S e w)) = docs w \<or>
      me_type e = ''pdr'' \<and> docs (snd (store_entry S e w)) = insert (me_title e, me_content e) (docs w)"
    using store_pdr_docs(1) [OF assms, of ?p w] others by (simp add: store_entry_def case_prod_beta)
  show "(me_title e, me_content e) \<in> docs (snd (store_entry S e w))"
    if "fst (store_entry S e w) = None" "me_type e = ''pdr''"
    using store_pdr_docs(2) [OF assms, of ?p w] that by (simp add: store_entry_def case_prod_beta)
qed

lemma create_memory_docs:
  assumes "written S docs" and "create_memory u S e w = (err, e', w')"
  shows "docs w' = docs w \<or> me_type e = ''pdr'' \<and> docs w' = insert (me_title e, me_content e) (docs w)"
    and "err = None \<Longrightarrow> me_type e = ''pdr'' \<Longrightarrow> (me_title e, me_content e) \<in> docs w'"
proof -
  let ?t = "fst (now_text S w)" and ?w1 = "snd (now_text S w)"
  let ?d = "is_duplicate u S (me_title e) (me_content e) ?w1"
  let ?r = "store_entry S (stamp_entry ?t e) (snd ?d)"
  have d: "docs (snd ?d) = docs w"
    using is_duplicate_reads [OF writtenD(1) [OF assms(1)], of ?w1 "docs w"]
      keptD(1) [OF writtenD(1) [OF assms(1)] refl] by simp
  have split: "if fst ?d then w' = snd ?d \<and> err \<noteq> None else w' = snd ?r \<and> err = fst ?r"
    using assms(2) by (auto simp: create_memory_parts case_prod_beta split: if_splits)
  show "docs w' = docs w \<or> me_type e = ''pdr'' \<and> docs w' = insert (me_title e, me_content e) (docs w)"
    using split d store_entry_docs(1) [OF assms(1), of "stamp_entry ?t e" "snd ?d"]
    by (simp split: if_splits)
  show "(me_title e, me_content e) \<in> docs w'" if "err = None" "me_type e = ''pdr''"
    using split that store_entry_docs(2) [OF assms(1), of "stamp_entry ?t e" "snd ?d"]
    by (simp split: if_splits)
qed

lemma generate_docs:
  assumes "net_leaves N docs"
  shows "docs (snd (generate N L pf key text w)) = docs w"
  using assms by (simp add: generate_def embedding_exchange_def net_leaves_def case_prod_beta
      split: sum.splits option.splits list.splits)

lemma handle_create_docs:
  assumes "written S docs" and "sv_repo sv = Some S"
  shows "docs (snd (handle_create_memory K sv r w)) = docs w \<or>
      (\<exists>e. entry_of K r = Some e \<and> me_type e = ''pdr'' \<and>
         docs (snd (handle_create_memory K sv r w)) = insert (me_title e, me_content e) (docs w))"
    and "fst (handle_create_memory K sv r w) = Ret (HttpOk x) \<Longrightarrow> entry_of K r = Some e \<Longrightarrow>
      me_type e = ''pdr'' \<Longrightarrow> (me_title e, me_content e) \<in> docs (snd (handle_create_memory K sv r w))"
proof -
  obtain e1 b where d: "decode (sc_json K) (dec_entry (sc_float32 K)) (ar_body r) zero_entry = (e1, b)"
    by (metis prod.exhaust)
  obtain err e2 w' where c: "create_memory (sc_unicode K) S e1 w = (err, e2, w')"
    by (metis prod.exhaust)
  note cd = create_memory_docs [OF assms(1) c]
  have h: "snd (handle_create_memory K sv r w) = (if ar_method r \<noteq> ''POST'' \<or> b \<noteq> None \<or> me_type e1 = [] then w else w')"
    "fst (handle_create_memory K sv r w) = Ret (HttpOk x) \<Longrightarrow>
      ar_method r = ''POST'' \<and> b = None \<and> me_type e1 \<noteq> [] \<and> err = None" for x
    by (auto simp: handle_create_memory_def d c assms(2) handler_replies split: option.splits if_splits)
  have entry: "entry_of K r = Some e1" if "b = None" using that by (simp add: entry_of_def d)
  show "docs (snd (handle_create_memory K sv r w)) = docs w \<or>
      (\<exists>e. entry_of K r = Some e \<and> me_type e = ''pdr'' \<and>
         docs (snd (handle_create_memory K sv r w)) = insert (me_title e, me_content e) (docs w))"
    using cd(1) entry by (simp add: h(1))
  show "(me_title e, me_content e) \<in> docs (snd (handle_create_memory K sv r w))"
    if "fst (handle_create_memory K sv r w) = Ret (HttpOk x)" "entry_of K r = Some e" "me_type e = ''pdr''"
    using cd(2) entry h(2) [OF that(1)] that(2,3) by (simp add: h(1))
qed

lemma handle_ingest_docs:
  assumes "written S docs" and "sv_repo sv = Some S" and "net_leaves (sc_net K) docs"
  shows "docs (snd (handle_ingest_memory K sv r w)) = docs w \<or>
      (\<exists>q. ingest_of K r = Some q \<and> ir_type q = ''pdr'' \<and> ir_title q \<noteq> [] \<and> ir_content q \<noteq> [] \<and>
         docs (snd (handle_ingest_memory K sv r w)) =
           insert (trim_space (ir_title q), trim_space (ir_content q)) (docs w))"
    and "fst (handle_ingest_memory K sv r w) = Ret (HttpOk x) \<Longrightarrow> ingest_of K r = Some q \<Longrightarrow>
      ir_type q = ''pdr'' \<Longrightarrow>
      (trim_space (ir_title q), trim_space (ir_content q)) \<in> docs (snd (handle_ingest_memory K sv r w))"
proof -
  obtain q1 b where d: "decode (sc_json K)
      (dec_struct set_ingest_request [''type'', ''title'', ''content'', ''tags'']) (ar_body r)
      \<lparr>ir_type = [], ir_title = [], ir_content = [], ir_tags = []\<rparr> = (q1, b)"
    by (metis prod.exhaust)
  let ?t = "trim_space (ir_title q1)" and ?c = "trim_space (ir_content q1)"
  let ?e = "zero_entry\<lparr>me_type := ir_type q1, me_title := ?t, me_content := ?c\<rparr>"
  obtain err e2 w' where c: "create_memory (sc_unicode K) S ?e w = (err, e2, w')"
    by (metis prod.exhaust)
  note cd = create_memory_docs [OF assms(1) c, simplified]
  let ?go = "ar_method r = ''POST'' \<and> b = None \<and> ir_type q1 \<noteq> [] \<and> ir_title q1 \<noteq> [] \<and> ir_content q1 \<noteq> []"
  have h: "docs (snd (handle_ingest_memory K sv r w)) = (if ?go then docs w' else docs w)"
    "fst (handle_ingest_memory K sv r w) = Ret (HttpOk x) \<Longrightarrow> ?go \<and> err = None" for x
    by (auto simp: handle_ingest_memory_def d c assms(2) handler_replies Let_def generate_docs [OF assms(3)]
        split: option.splits if_splits)
  have req: "ingest_of K r = Some q1" if "b = None" using that by (simp add: ingest_of_def d)
  show "docs (snd (handle_ingest_memory K sv r w)) = docs w \<or>
      (\<exists>q. ingest_of K r = Some q \<and> ir_type q = ''pdr'' \<and> ir_title q \<noteq> [] \<and> ir_content q \<noteq> [] \<and>
         docs (snd (handle_ingest_memory K sv r w)) =
           insert (trim_space (ir_title q), trim_space (ir_content q)) (docs w))"
    using cd(1) req by (simp add: h(1))
  show "(trim_space (ir_title q), trim_space (ir_content q)) \<in> docs (snd (handle_ingest_memory K sv r w))"
    if "fst (handle_ingest_memory K sv r w) = Ret (HttpOk x)" "ingest_of K r = Some q" "ir_type q = ''pdr''"
    using cd(2) req h(2) [OF that(1)] that(2,3) by (simp add: h(1))
qed

lemma handle_webhook_docs:
  assumes "written S docs" and "sv_repo sv = Some S"
  shows "docs (snd (handle_github_webhook K sv r w)) = docs w"
proof -
  have "\<exists>w'. remember K sv entry v = (Ret (), w') \<and> docs w' = docs w"
    if "docs v = docs w" "me_type entry \<notin> {''pdr'', ''pref''}" for entry v
    using that create_memory_docs(1) [OF assms(1), of "sc_unicode K" entry v] assms(2)
    by (cases "create_memory (sc_unicode K) S entry v") (auto simp: remember_def)
  from webhook_keeps [where P = "\<lambda>v. docs v = docs w", OF this refl]
  obtain y w' where "handle_github_webhook K sv r w = (Ret y, w')" "docs w' = docs w" by blast
  then show ?thesis by simp
qed

lemma serve_docs:
  assumes "written S docs" and "net_leaves (sc_net K) docs" and "sv_repo sv = Some S"
  shows "docs (snd (serve K sv r w)) = docs w \<or>
      (\<exists>d. posted K r = Some d \<and> docs (snd (serve K sv r w)) = insert d (docs w))"
    and "posted K r = Some d \<Longrightarrow> fst (serve K sv r w) = Ret (HttpOk a) \<Longrightarrow> d \<in> docs (snd (serve K sv r w))"
proof -
  note read = reading_handlers [OF writtenD(1) [OF assms(1)] refl assms(3)]
  note create = handle_create_docs [OF assms(1,3), of K r w]
  note ingest = handle_ingest_docs [OF assms(1,3,2), of r w]
  note webhook = handle_webhook_docs [OF assms(1,3)]
  show "docs (snd (serve K sv r w)) = docs w \<or>
      (\<exists>d. posted K r = Some d \<and> docs (snd (serve K sv r w)) = insert d (docs w))"
    using read create(1) ingest(1) webhook
    by (auto simp: serve_def posted_def fail_def split: option.splits endpoint.splits)
  show "d \<in> docs (snd (serve K sv r w))" if "posted K r = Some d" "fst (serve K sv r w) = Ret (HttpOk a)"
  proof -
    from that(1) consider e where "route (ar_method r) (ar_path r) = Some EpCreateMemory"
        "entry_of K r = Some e" "me_type e = ''pdr''" "d = (me_title e, me_content e)"
      | q where "route (ar_method r) (ar_path r) = Some EpIngestMemory" "ingest_of K r = Some q"
        "ir_type q = ''pdr''" "d = (trim_space (ir_title q), trim_space (ir_content q))"
      by (auto simp: posted_def split: option.splits endpoint.splits if_splits)
    then show ?thesis
    proof cases
      case 1
      with that(2) create(2) show ?thesis by (auto simp: serve_def answer_ok)
    next
      case 2
      with that(2) ingest(2) show ?thesis by (auto simp: serve_def answer_ok)
    qed
  qed
qed

text \<open>Whether a request posted a document, and was told that it is stored.\<close>

definition acknowledged ::
    "'w services \<Rightarrow> api_request list \<Rightarrow> api_answer reply outcome list \<Rightarrow> (string \<times> string) set" where
  "acknowledged K rs xs = {d. \<exists>(r, x) \<in> set (zip rs xs). posted K r = Some d \<and> (\<exists>a. x = Ret (HttpOk a))}"

lemma serve_all_docs:
  assumes "written S docs" and "net_leaves (sc_net K) docs" and "sv_repo sv = Some S"
    and "serve_all K sv rs w = (xs, w')"
  shows "docs w \<union> acknowledged K rs xs \<subseteq> docs w' \<and> docs w' \<subseteq> docs w \<union> {d. \<exists>r \<in> set rs. posted K r = Some d}"
  using assms(4)
proof (induction rs arbitrary: w xs)
  case Nil
  then show ?case by (simp add: acknowledged_def)
next
  case (Cons r rs)
  obtain x w1 where x: "serve K sv r w = (x, w1)" by (cases "serve K sv r w")
  obtain ys w2 where ys: "serve_all K sv rs w1 = (ys, w2)" by (cases "serve_all K sv rs w1")
  with Cons.prems x have eq: "xs = x # ys" "w' = w2" by simp_all
  have step: "docs w1 = docs w \<or> (\<exists>d. posted K r = Some d \<and> docs w1 = insert d (docs w))"
    "posted K r = Some d \<Longrightarrow> x = Ret (HttpOk a) \<Longrightarrow> d \<in> docs w1" for d a
    using serve_docs [OF assms(1-3), where r = r and w = w] x by auto
  have one: "acknowledged K (r # rs) (x # ys) =
      {d. posted K r = Some d \<and> (\<exists>a. x = Ret (HttpOk a))} \<union> acknowledged K rs ys"
    by (auto simp: acknowledged_def)
  from Cons.IH [OF ys [folded eq(2)]] step show ?case unfolding eq(1) one by auto
qed

lemma length_serve_all: "length (fst (serve_all K sv rs w)) = length rs"
  by (induction rs arbitrary: w) (simp_all add: case_prod_beta)

lemma doc_store_written: "written doc_store doc_rows"
proof -
  have "insert_pref_sql \<noteq> insert_pdr_sql" by (simp add: insert_pref_sql_def insert_pdr_sql_def)
  with doc_store_sql(1) show ?thesis
    unfolding written_def
    by (auto simp: doc_store_reads) (auto simp: doc_store_def doc_rows_def split: if_splits)
qed

lemma doc_store_creates:
  "\<exists>e'. create_memory ascii_tables doc_store
     (zero_entry\<lparr>me_type := ''pdr'', me_title := ''t'', me_content := ''c''\<rparr>) [] = (None, e', [(''t'', ''c'')])"
proof -
  have t: "valid_utf8 ''t''" by code_simp
  have neq: "adr_columns @ s \<noteq> insert_pdr_sql" "adr_columns @ s \<noteq> insert_adr_sql"
      "adr_columns @ s \<noteq> search_pdrs_sql" for s
    by (simp_all add: adr_columns_def insert_pdr_sql_def insert_adr_sql_def search_pdrs_sql_def)
  have now: "now_text doc_store w = (''2024-01-01T00:00:00Z'', w)" for w by (simp add: doc_store_def)
  have "is_duplicate ascii_tables doc_store ''t'' ''c'' [] = (False, [])"
    using doc_store_sql neq
    by (simp add: is_duplicate_def search_pdrs_def search_adrs_def query_rows_def doc_store_def)
  moreover have "query_row doc_store (Suc 0) insert_pdr_sql [''t'', ''c'', x] [] = (Inr [show_nat 0], [(''t'', ''c'')])" for x
    using t by (simp add: query_row_def scan_row_def doc_store_def)
  ultimately show ?thesis
    by (simp add: create_memory_def store_pdr_def zero_pdr_def zero_entry_def now)
qed

section \<open>Properties\<close>

text \<open>
  C29. The service refines a set of documents that only its posts extend: whatever requests it
  serves, one after the other and whatever their answers, panics among them, afterwards the table holds
  every document it held before and every posted document whose request was answered without an error, and
  no other than those held before or posted by one of the requests, exactly as posted (trimmed, for
  an ingestion). Every request has its answer.
\<close>

theorem service_refines_documents:
  assumes "written S docs" and "net_leaves (sc_net K) docs" and "sv_repo sv = Some S"
    and "serve_all K sv rs w = (xs, w')"
  shows "docs w \<union> acknowledged K rs xs \<subseteq> docs w' \<and>
    docs w' \<subseteq> docs w \<union> {d. \<exists>r \<in> set rs. posted K r = Some d} \<and> length xs = length rs"
  using serve_all_docs [OF assms] length_serve_all [of K sv rs w] assms(4) by simp

theorem service_refines_documents_witness:
  "\<exists>xs w'. serve_all (sample_services [(''body'', ingest_json)]) \<lparr>sv_repo = Some doc_store, sv_embedder = None\<rparr>
      [\<lparr>ar_method = ''POST'', ar_path = ''/memory/ingest'', ar_query = [], ar_headers = [], ar_body = ''body''\<rparr>] []
    = (xs, w') \<and> doc_rows w' = {(''t'', ''c'')}"
proof -
  let ?K = "sample_services [(''body'', ingest_json)] :: (string \<times> string) list services"
  let ?sv = "\<lparr>sv_repo = Some doc_store, sv_embedder = None\<rparr>"
  let ?r = "\<lparr>ar_method = ''POST'', ar_path = ''/memory/ingest'', ar_query = [], ar_headers = [],
       ar_body = ''body''\<rparr>"
  have dec: "decode (sc_json ?K) (dec_struct set_ingest_request [''type'', ''title'', ''content'', ''tags''])
      ''body'' \<lparr>ir_type = [], ir_title = [], ir_content = [], ir_tags = []\<rparr>
      = (\<lparr>ir_type = ''pdr'', ir_title = '' t'', ir_content = ''c'', ir_tags = []\<rparr>, None)"
    by (simp add: sample_services_def ingest_json_def scan_table_def decode_def dec_struct_def
        set_ingest_request_def)
  have trim: "trim_space '' t'' = ''t''" "trim_space ''c'' = ''c''" by code_simp+
  have route: "route ''POST'' ''/memory/ingest'' = Some EpIngestMemory" by code_simp
  have post: "posted ?K ?r = Some (''t'', ''c'')"
    by (simp add: posted_def route ingest_of_def dec trim)
  have unicode: "sc_unicode ?K = ascii_tables" by (simp add: sample_services_def)
  obtain x where x: "handle_ingest_memory ?K ?sv ?r [] = (Ret (HttpOk x), [(''t'', ''c'')])"
    using doc_store_creates by (auto simp: handle_ingest_memory_def dec trim unicode Let_def)
  have served: "serve_all ?K ?sv [?r] [] = ([Ret (HttpOk (AnsIngested x))], [(''t'', ''c'')])"
    by (simp add: serve_def route x answer_def)
  have "net_leaves (sc_net ?K) doc_rows" by (simp add: net_leaves_def sample_services_def quiet_net_def)
  from service_refines_documents [OF doc_store_written this _ served]
  have "acknowledged ?K [?r] [Ret (HttpOk (AnsIngested x))] \<subseteq> doc_rows [(''t'', ''c'')]"
    "doc_rows [(''t'', ''c'')] \<subseteq> {(''t'', ''c'')}"
    using post by (auto simp: doc_rows_def)
  then have "doc_rows [(''t'', ''c'')] = {(''t'', ''c'')}" using post by (auto simp: acknowledged_def)
  with served show ?thesis by blast
qed

end
