(* ===== verification/Service.thy ===== *)
theory Service
  imports Api Config
begin

text \<open>
  How the HTTP service is put together: \<open>internal/database/database.go\<close>, the connection with its nil
  checks, and \<open>cmd/api/main.go\<close>, which reads the configuration, opens the database and registers the
  handlers of Api. \<open>database/sql\<close> is a parameter: how a connection is opened, pinged, closed and
  used, and the repository over it. \<open>http.ListenAndServe\<close> is left out: the model ends with the
  server it is given.
\<close>

section \<open>The database connection\<close>

record 'c db =
  db_connection :: "'c option"

definition db_new :: "(string \<Rightarrow> goerr + 'c) \<Rightarrow> ('c \<Rightarrow> goerr option) \<Rightarrow> string \<Rightarrow> 'c db res" where
  "db_new sql_open ping source_name =
     (if source_name = [] then Inl ''DATABASE_URL is required but was empty''
      else
        (case sql_open source_name of
           Inl e \<Rightarrow> Inl (''failed to open database: '' @ e)
         | Inr c \<Rightarrow>
             (case ping c of
                Some e \<Rightarrow> Inl (''failed to ping database: '' @ e)
              | None \<Rightarrow> Inr \<lparr>db_connection = Some c\<rparr>)))"

definition db_close :: "('c \<Rightarrow> goerr option) \<Rightarrow> 'c db \<Rightarrow> goerr option" where
  "db_close close d = (case db_connection d of None \<Rightarrow> None | Some c \<Rightarrow> close c)"

text \<open>\<open>ExecContext\<close> and \<open>QueryContext\<close> differ in what the driver returns only.\<close>

definition db_exec_context ::
    "('c \<Rightarrow> string \<Rightarrow> 'a list \<Rightarrow> 'w \<Rightarrow> 'r res \<times> 'w) \<Rightarrow> 'c db \<Rightarrow> string \<Rightarrow> 'a list \<Rightarrow> 'w \<Rightarrow> 'r res \<times> 'w" where
  "db_exec_context exec d query args w =
     (case db_connection d of
        None \<Rightarrow> (Inl ''database not connected'', w)
      | Some c \<Rightarrow> exec c query args w)"

definition db_query_context ::
    "('c \<Rightarrow> string \<Rightarrow> 'a list \<Rightarrow> 'w \<Rightarrow> 'r res \<times> 'w) \<Rightarrow> 'c db \<Rightarrow> string \<Rightarrow> 'a list \<Rightarrow> 'w \<Rightarrow> 'r res \<times> 'w" where
  "db_query_context run d query args w =
     (case db_connection d of
        None \<Rightarrow> (Inl ''database not connected'', w)
      | Some c \<Rightarrow> run c query args w)"

text \<open>\<open>QueryRowContext\<close> has no error result; without a connection it gives the zero row.\<close>

definition db_query_row_context ::
    "('c \<Rightarrow> string \<Rightarrow> 'a list \<Rightarrow> 'w \<Rightarrow> 'r \<times> 'w) \<Rightarrow> 'r \<Rightarrow> 'c db \<Rightarrow> string \<Rightarrow> 'a list \<Rightarrow> 'w \<Rightarrow> 'r \<times> 'w" where
  "db_query_row_context run zero_row d query args w =
     (case db_connection d of None \<Rightarrow> (zero_row, w) | Some c \<Rightarrow> run c query args w)"

definition db_conn :: "'c db \<Rightarrow> 'c option" where
  "db_conn d = db_connection d"

section \<open>Start-up\<close>

text \<open>The address listened on, the server behind it and the log lines written before.\<close>

record 'w service =
  sr_address :: string
  sr_server :: "'w server"
  sr_log :: "string list"

definition new_server :: "'w store option \<Rightarrow> string option \<Rightarrow> 'w server" where
  "new_server repo embedder = \<lparr>sv_repo = repo, sv_embedder = embedder\<rparr>"

definition api_main ::
    "unicode_tables \<Rightarrow> environ \<Rightarrow> (string \<Rightarrow> goerr + 'c) \<Rightarrow> ('c \<Rightarrow> goerr option) \<Rightarrow> ('c \<Rightarrow> 'w store) \<Rightarrow>
       'w service res" where
  "api_main u env sql_open ping repository =
     (case load_config env of
        Inl e \<Rightarrow> Inl (''failed to load config: '' @ e)
      | Inr cfg \<Rightarrow>
          (let info = logger_info u (new_logger (log_level cfg));
               repo = (case db_new sql_open ping (database_url cfg) of
                         Inl e \<Rightarrow> None
                       | Inr d \<Rightarrow> map_option repository (db_conn d));
               embedder = (if cfg_openai_api_key cfg \<noteq> [] then Some (cfg_openai_api_key cfg) else None);
               port = getenv env ''PORT'';
               port = (if port = [] then ''8080'' else port)
           in Inr \<lparr>sr_address = '':'' @ port, sr_server = new_server repo embedder,
                   sr_log = info ''server ready'' [''port'', port]
                              (info ''database ready'' [] (info ''starting AOMS server'' [] []))\<rparr>))"

section \<open>Starting without a database\<close>

text \<open>
  The service starts whatever becomes of its database: it always listens; it has a repository
  exactly if the URL is set and the connection opens and answers; and without one it says
  that the database is ready all the same, while listing, reading and searching the memory panic
  on every well-formed request.
\<close>

theorem service_starts_without_database:
  "\<exists>sr. api_main u env sql_open ping repository = Inr sr \<and>
    sv_repo (sr_server sr) =
      (case db_new sql_open ping (getenv env ''DATABASE_URL'') of
         Inl e \<Rightarrow> None | Inr d \<Rightarrow> map_option repository (db_conn d)) \<and>
    (sv_repo (sr_server sr) = None) =
      (getenv env ''DATABASE_URL'' = [] \<or>
       (case sql_open (getenv env ''DATABASE_URL'') of Inl e \<Rightarrow> True | Inr c \<Rightarrow> ping c \<noteq> None)) \<and>
    (sv_repo (sr_server sr) = None \<and> ar_method r = ''GET'' \<longrightarrow>
      (first_value (ar_query r) ''q'' \<noteq> [] \<longrightarrow>
         fst (handle_search (sr_server sr) r w) = Panic ''nil pointer dereference'') \<and>
      (first_value (ar_query r) ''type'' \<in> {''pdr'', ''adr'', ''pref''} \<longrightarrow>
         fst (handle_list_memory (sr_server sr) r w) = Panic ''nil pointer dereference'' \<and>
         (trim_prefix (ar_path r) ''/memory/'' \<noteq> [] \<longrightarrow>
            fst (handle_get_memory (sr_server sr) r w) = Panic ''nil pointer dereference'')))"
proof -
  have url: "Config.get_env env ''DATABASE_URL'' [] = getenv env ''DATABASE_URL''"
    by (simp add: Config.get_env_def Let_def)
  obtain sr where sr: "api_main u env sql_open ping repository = Inr sr"
    and repo: "sv_repo (sr_server sr) =
      (case db_new sql_open ping (getenv env ''DATABASE_URL'') of
         Inl e \<Rightarrow> None | Inr d \<Rightarrow> map_option repository (db_conn d))"
    by (simp add: api_main_def load_config_def new_server_def url Let_def)
  have none: "(sv_repo (sr_server sr) = None) =
      (getenv env ''DATABASE_URL'' = [] \<or>
       (case sql_open (getenv env ''DATABASE_URL'') of Inl e \<Rightarrow> True | Inr c \<Rightarrow> ping c \<noteq> None))"
    by (auto simp: repo db_new_def db_conn_def split: sum.splits option.splits)
  have search: "fst (handle_search (sr_server sr) r w) = Panic ''nil pointer dereference''"
    if "sv_repo (sr_server sr) = None" "ar_method r = ''GET''" "first_value (ar_query r) ''q'' \<noteq> []"
    using that by (simp add: handle_search_def nil_repo_def)
  have list: "fst (handle_list_memory (sr_server sr) r w) = Panic ''nil pointer dereference''"
    if "sv_repo (sr_server sr) = None" "ar_method r = ''GET''"
      "first_value (ar_query r) ''type'' \<in> {''pdr'', ''adr'', ''pref''}"
    using that by (auto simp: handle_list_memory_def nil_repo_def)
  have get: "fst (handle_get_memory (sr_server sr) r w) = Panic ''nil pointer dereference''"
    if "sv_repo (sr_server sr) = None" "ar_method r = ''GET''"
      "first_value (ar_query r) ''type'' \<in> {''pdr'', ''adr'', ''pref''}"
      "trim_prefix (ar_path r) ''/memory/'' \<noteq> []"
    using that by (auto simp: handle_get_memory_def nil_repo_def)
  show ?thesis
    by (intro exI [of _ sr] conjI impI sr repo none; elim conjE; rule search list get; assumption)
qed

theorem service_starts_without_database_witness:
  "\<exists>sr. api_main ascii_tables (\<lambda>_. None) (\<lambda>_. Inr ()) (\<lambda>_. None) (\<lambda>_. table_store) =
      Inr sr \<and>
    sv_repo (sr_server sr) = None \<and>
    fst (handle_search (sr_server sr) \<lparr>ar_method = ''GET'', ar_path = ''/memory/search'',
      ar_query = [(''q'', ''go'')], ar_headers = [], ar_body = []\<rparr> []) = Panic ''nil pointer dereference''"
proof -
  let ?r = "\<lparr>ar_method = ''GET'', ar_path = ''/memory/search'', ar_query = [(''q'', ''go'')],
      ar_headers = [], ar_body = []\<rparr>"
  from service_starts_without_database [of ascii_tables "\<lambda>_. None" "\<lambda>_. Inr ()" "\<lambda>_. None" "\<lambda>_. table_store" ?r "[]"]
  obtain sr where sr: "api_main ascii_tables (\<lambda>_. None) (\<lambda>_. Inr ()) (\<lambda>_. None) (\<lambda>_. table_store) =
      Inr sr"
    and none: "sv_repo (sr_server sr) = None"
    and search: "first_value (ar_query ?r) ''q'' \<noteq> [] \<longrightarrow>
        fst (handle_search (sr_server sr) ?r []) = Panic ''nil pointer dereference''"
    by (auto simp: getenv_def)
  have "first_value (ar_query ?r) ''q'' \<noteq> []" by (simp add: first_value_def)
  with sr none search show ?thesis by blast
qed

end
