(* ===== verification/OpMemory.thy ===== *)
theory OpMemory
  imports Runtime
begin

text \<open>
  \<open>integrations/telegram/context/memory.go\<close>: the operational memory of the bot, filled from the
  files the auditor and the runtime leave behind. Every operation holds the memory's lock, so a
  memory is a value and \<open>LoadFromDisk\<close> a step; the state file it looks for decisions in is the
  one Runtime writes.
\<close>

section \<open>Data\<close>

record op_finding =
  of_type :: string
  of_severity :: string
  of_title :: string
  of_content :: string
  of_evidence :: string
  of_fix :: string
  of_time :: int

record executor_decision =
  ed_title :: string
  ed_risk :: string
  ed_action :: string
  ed_time :: int
  ed_success :: bool
  ed_error :: string

record blocked_op =
  bo_finding :: string
  bo_reason :: string
  bo_time :: int

record op_memory =
  om_findings :: "op_finding list"
  om_decisions :: "executor_decision list"
  om_blocked :: "blocked_op list"
  om_status :: string
  om_audit :: int
  om_pid :: int
  om_running :: bool
  om_activity :: string
  om_executor_run :: int
  om_success :: bool

definition new_operational_memory :: op_memory where
  "new_operational_memory = \<lparr>om_findings = [], om_decisions = [], om_blocked = [],
     om_status = ''stopped'', om_audit = 0, om_pid = 0, om_running = False, om_activity = [],
     om_executor_run = 0, om_success = False\<rparr>"

definition zero_finding :: op_finding where
  "zero_finding = \<lparr>of_type = [], of_severity = [], of_title = [], of_content = [], of_evidence = [],
     of_fix = [], of_time = 0\<rparr>"

definition set_finding_field :: "'w host \<Rightarrow> string \<Rightarrow> op_finding tdecoder" where
  "set_finding_field H n v s =
     (if n = ''type'' then (case plain dec_string v (of_type s) of (x, e) \<Rightarrow> (s\<lparr>of_type := x\<rparr>, e))
      else if n = ''severity'' then
        (case plain dec_string v (of_severity s) of (x, e) \<Rightarrow> (s\<lparr>of_severity := x\<rparr>, e))
      else if n = ''title'' then
        (case plain dec_string v (of_title s) of (x, e) \<Rightarrow> (s\<lparr>of_title := x\<rparr>, e))
      else if n = ''content'' then
        (case plain dec_string v (of_content s) of (x, e) \<Rightarrow> (s\<lparr>of_content := x\<rparr>, e))
      else if n = ''evidence'' then
        (case plain dec_string v (of_evidence s) of (x, e) \<Rightarrow> (s\<lparr>of_evidence := x\<rparr>, e))
      else if n = ''recommended_fix'' then
        (case plain dec_string v (of_fix s) of (x, e) \<Rightarrow> (s\<lparr>of_fix := x\<rparr>, e))
      else (case tdec_time H v (of_time s) of (x, e) \<Rightarrow> (s\<lparr>of_time := x\<rparr>, e)))"

definition dec_finding :: "'w host \<Rightarrow> op_finding tdecoder" where
  "dec_finding H = tdec_struct (set_finding_field H)
     [''type'', ''severity'', ''title'', ''content'', ''evidence'', ''recommended_fix'', ''timestamp'']"

definition zero_decision :: executor_decision where
  "zero_decision = \<lparr>ed_title = [], ed_risk = [], ed_action = [], ed_time = 0, ed_success = False,
     ed_error = []\<rparr>"

definition set_decision_field :: "'w host \<Rightarrow> string \<Rightarrow> executor_decision tdecoder" where
  "set_decision_field H n v s =
     (if n = ''finding_title'' then
        (case plain dec_string v (ed_title s) of (x, e) \<Rightarrow> (s\<lparr>ed_title := x\<rparr>, e))
      else if n = ''risk'' then
        (case plain dec_string v (ed_risk s) of (x, e) \<Rightarrow> (s\<lparr>ed_risk := x\<rparr>, e))
      else if n = ''action'' then
        (case plain dec_string v (ed_action s) of (x, e) \<Rightarrow> (s\<lparr>ed_action := x\<rparr>, e))
      else if n = ''timestamp'' then
        (case tdec_time H v (ed_time s) of (x, e) \<Rightarrow> (s\<lparr>ed_time := x\<rparr>, e))
      else if n = ''success'' then
        (case plain dec_bool v (ed_success s) of (x, e) \<Rightarrow> (s\<lparr>ed_success := x\<rparr>, e))
      else (case plain dec_string v (ed_error s) of (x, e) \<Rightarrow> (s\<lparr>ed_error := x\<rparr>, e)))"

definition dec_decision :: "'w host \<Rightarrow> executor_decision tdecoder" where
  "dec_decision H = tdec_struct (set_decision_field H)
     [''finding_title'', ''risk'', ''action'', ''timestamp'', ''success'', ''error'']"

section \<open>Reading the files\<close>

text \<open>
  \<open>filepath.Glob("/tmp/auditor_findings_*.json")\<close>: the names of the directory, sorted as
  \<open>os.ReadDir\<close> sorts them; a directory that cannot be read has no matches.
\<close>

definition glob_findings :: "'w host \<Rightarrow> 'w \<Rightarrow> string list" where
  "glob_findings H w =
     (case h_dir H ''/tmp'' w of
        None \<Rightarrow> []
      | Some es \<Rightarrow>
          map (\<lambda>n. ''/tmp/'' @ n)
            (filter (\<lambda>n. has_prefix n ''auditor_findings_'' \<and>
                       suffix ''.json'' (drop (length ''auditor_findings_'') n)) (map de_name es)))"

fun latest_match :: "'w host \<Rightarrow> 'w \<Rightarrow> string list \<Rightarrow> string \<times> int \<Rightarrow> string" where
  "latest_match H w [] best = fst best"
| "latest_match H w (f # fs) best =
     (case h_mtime H f w of
        Some t \<Rightarrow> latest_match H w fs (if snd best < t then (f, t) else best)
      | None \<Rightarrow> latest_match H w fs best)"

text \<open>The error of the read or the decoding is \<open>None\<close>; the caller drops it and takes no findings.\<close>

definition load_latest_findings :: "'w host \<Rightarrow> json_lib \<Rightarrow> 'w \<Rightarrow> op_finding list option" where
  "load_latest_findings H L w =
     (case glob_findings H w of
        [] \<Rightarrow> Some []
      | m # ms \<Rightarrow>
          (case h_read H (latest_match H w (m # ms) (m, 0)) w of
             Inl e \<Rightarrow> None
           | Inr data \<Rightarrow>
               (case tunmarshal L (tdec_slice (dec_finding H) zero_finding) data [] of
                  (fs, bad) \<Rightarrow> if bad then None else Some fs)))"

definition load_executor_history :: "'w host \<Rightarrow> json_lib \<Rightarrow> 'w \<Rightarrow> executor_decision list" where
  "load_executor_history H L w =
     (case h_read H ''/tmp/runtime_state.json'' w of
        Inl e \<Rightarrow> []
      | Inr data \<Rightarrow>
          fst (tunmarshal L
                 (tdec_struct (\<lambda>n. tdec_slice (dec_decision H) zero_decision) [''executor_decisions''])
                 data []))"

definition get_runtime_pid :: "'w host \<Rightarrow> 'w \<Rightarrow> int option" where
  "get_runtime_pid H w =
     (case h_read H ''/tmp/runtime.pid'' w of Inl e \<Rightarrow> None | Inr data \<Rightarrow> sscan_int data)"

definition load_from_disk :: "'w host \<Rightarrow> json_lib \<Rightarrow> 'w \<Rightarrow> op_memory \<Rightarrow> op_memory" where
  "load_from_disk H L w m =
     (let m = m\<lparr>om_findings := (case load_latest_findings H L w of None \<Rightarrow> [] | Some fs \<Rightarrow> fs),
               om_decisions := load_executor_history H L w\<rparr>
      in case get_runtime_pid H w of
           None \<Rightarrow> m
         | Some pid \<Rightarrow> m\<lparr>om_pid := pid, om_status := ''running'', om_running := True\<rparr>)"

definition get_latest_findings :: "op_memory \<Rightarrow> op_finding list" where
  "get_latest_findings m = om_findings m"

definition get_executor_decisions :: "op_memory \<Rightarrow> executor_decision list" where
  "get_executor_decisions m = om_decisions m"

definition get_blocked_operations :: "op_memory \<Rightarrow> blocked_op list" where
  "get_blocked_operations m = om_blocked m"

definition get_runtime_status :: "op_memory \<Rightarrow> string \<times> int \<times> bool" where
  "get_runtime_status m = (om_status m, om_pid m, om_running m)"

section \<open>What the memory can say\<close>

text \<open>The memory after it was loaded from a sequence of worlds.\<close>

definition loads :: "'w host \<Rightarrow> json_lib \<Rightarrow> 'w list \<Rightarrow> op_memory \<Rightarrow> op_memory" where
  "loads H L ws m = fold (load_from_disk H L) ws m"

lemma loads_state:
  "om_blocked (loads H L ws m) = om_blocked m \<and>
   (om_running (loads H L ws m) \<longleftrightarrow> om_running m \<or> (\<exists>w \<in> set ws. get_runtime_pid H w \<noteq> None)) \<and>
   ((om_status m = (if om_running m then ''running'' else ''stopped'')) \<longrightarrow>
     om_status (loads H L ws m) = (if om_running (loads H L ws m) then ''running'' else ''stopped''))"
proof (induction ws arbitrary: m)
  case Nil
  then show ?case by (simp add: loads_def)
next
  case (Cons w ws)
  have "loads H L (w # ws) m = loads H L ws (load_from_disk H L w m)" by (simp add: loads_def)
  moreover have "om_blocked (load_from_disk H L w m) = om_blocked m"
    "om_running (load_from_disk H L w m) \<longleftrightarrow> om_running m \<or> get_runtime_pid H w \<noteq> None"
    "om_status (load_from_disk H L w m) = (if get_runtime_pid H w \<noteq> None then ''running'' else om_status m)"
    by (auto simp: load_from_disk_def Let_def split: option.splits)
  ultimately show ?case using Cons [of "load_from_disk H L w m"] by auto
qed

text \<open>
  The memory knows only one direction: after any number of loads from any worlds a new memory
  says running exactly if one of these worlds had a readable process identifier, however long
  ago that was; the status text agrees with the flag; and no operation is ever recorded as
  blocked.
\<close>

theorem memory_never_stops:
  "get_blocked_operations (loads H L ws new_operational_memory) = [] \<and>
   (case get_runtime_status (loads H L ws new_operational_memory) of
      (status, pid, running) \<Rightarrow>
        running = list_ex (\<lambda>w. get_runtime_pid H w \<noteq> None) ws \<and>
        status = (if running then ''running'' else ''stopped''))"
  using loads_state [of H L ws new_operational_memory]
  by (simp add: new_operational_memory_def get_blocked_operations_def get_runtime_status_def list_ex_iff)

lemma runtime_fields_no_history:
  "list_all (\<lambda>k. match_field [''executor_decisions''] k = None) runtime_fields"
  by code_simp

lemma state_json_members:
  "state_json H s = Some j \<Longrightarrow> \<exists>ms. j = JObj ms \<and> map fst ms = runtime_fields"
  by (auto simp: state_json_def runtime_fields_def split: option.splits)

text \<open>
  The state file as the runtime writes it has no member the memory reads as the executor's history.
\<close>

lemma history_never_recorded:
  assumes "file_law H" and "state_json H s = Some j" and "render_law H L j"
  shows "get_executor_decisions (load_from_disk H L (save_state H s w) m) = []"
proof -
  obtain ms where j: "j = JObj ms" and ms: "map fst ms = runtime_fields"
    using state_json_members [OF assms(2)] by blast
  have "match_field [''executor_decisions''] k = None" if "k \<in> fst ` set ms" for k
    using that runtime_fields_no_history by (auto simp flip: ms simp: list_all_iff)
  then have "tdec_struct setter [''executor_decisions''] j old = (old, False, False)"
    for setter :: "string \<Rightarrow> executor_decision list tdecoder" and old
    by (simp add: tdec_struct_def j tdec_members_unmatched)
  then have "load_executor_history H L (save_state H s w) = []"
    using assms by (simp add: load_executor_history_def save_state_def state_file_def file_law_def
        tunmarshal_def render_law_def)
  then show ?thesis
    by (simp add: load_from_disk_def Let_def get_executor_decisions_def split: option.splits)
qed

end
