(* ===== verification/Router.thy ===== *)
theory Router
  imports OpMemory Bridge Engine Lifecycle "HOL-Library.Multiset"
begin

text \<open>
  \<open>integrations/telegram/cmd/bot/router.go\<close>: the router of the conversational bot. A message goes
  to the lifecycle if it has an OpenHands client and is otherwise refused with a fixed text; the
  agent handlers below it are called by nothing in the sources, but are modelled.

  The file does not compile as committed: \<open>log\<close> is not imported, the execution context built from
  the memory is never used, and \<open>NewOpenHandsBridge\<close> belongs to another main package. The model
  leaves out the log lines, builds the context and drops it, and reads the bridge as the one of
  \<open>integrations/telegram/runtime/openhands.go\<close>. The memory is the one the main loop holds too:
  the router's field is its only copy here. The world is shared by the network and the machine.
\<close>

section \<open>Data\<close>

datatype agent_type =
    AgentUnknown
  | AgentAuditor
  | AgentExecutor
  | AgentRuntime
  | AgentSystem
  | AgentCognition

record routed =
  ro_agent :: agent_type
  ro_name :: string
  ro_content :: string

record router =
  ro_memory :: "op_memory option"
  ro_cognition :: "cognition_engine option"
  ro_lifecycle :: "lifecycle option"
  ro_workflow :: "engine option"

definition answer :: "agent_type \<Rightarrow> string \<Rightarrow> string \<Rightarrow> routed" where
  "answer agent name content = \<lparr>ro_agent = agent, ro_name = name, ro_content = content\<rparr>"

definition new_router :: "environ \<Rightarrow> op_memory \<Rightarrow> router" where
  "new_router env mem =
     \<lparr>ro_memory = Some mem,
      ro_cognition = (case new_cognition_engine env of Inr c \<Rightarrow> Some c | Inl e \<Rightarrow> None),
      ro_lifecycle = (case new_execution_lifecycle env of Inr lc \<Rightarrow> Some lc | Inl e \<Rightarrow> None),
      ro_workflow = Some (new_engine env)\<rparr>"

section \<open>Routing\<close>

definition build_execution_context ::
    "'w host \<Rightarrow> json_lib \<Rightarrow> environ \<Rightarrow> router \<Rightarrow> 'w \<Rightarrow> execution_context \<times> router" where
  "build_execution_context H L env r w =
     (let ctx = \<lparr>ctx_repository = getenv env ''GITHUB_REPOSITORY'', recent_findings = [],
                 active_executions = [], conversational_history = [], operational_state = [],
                 roadmap_state = [], last_intent = None\<rparr>
      in case ro_memory r of
           None \<Rightarrow> (ctx, r)
         | Some m \<Rightarrow>
             (let m = load_from_disk H L w m in
              (ctx\<lparr>operational_state := ''active'',
                   recent_findings :=
                     map (\<lambda>f. \<lparr>fi_title = of_title f, fi_severity = of_severity f,
                               fi_evidence = of_evidence f\<rparr>) (get_latest_findings m)\<rparr>,
               r\<lparr>ro_memory := Some m\<rparr>)))"

definition default_repository :: "environ \<Rightarrow> string" where
  "default_repository env =
     (let repo = getenv env ''GITHUB_REPOSITORY'' in if repo = [] then ''aoms/smart-worker'' else repo)"

type_synonym 'w routing = "router \<Rightarrow> 'w \<Rightarrow> (routed outcome \<times> router \<times> 'w) option"

text \<open>What follows the return of \<open>lifecycle.Execute\<close>.\<close>

definition finish_route :: "'w net \<Rightarrow> string \<Rightarrow> string res \<Rightarrow> lifecycle \<Rightarrow> 'w routing" where
  "finish_route N msg x lc r w =
     (case x of
        Inl e \<Rightarrow>
          Some (Ret (answer AgentCognition ''ERROR'' (''OpenHands dispatch error: '' @ e)),
                r\<lparr>ro_lifecycle := Some lc\<rparr>, w)
      | Inr response \<Rightarrow>
          if response \<noteq> [] then
            (case lc_add_to_history N ''user'' msg lc w of
               (lc, w) \<Rightarrow>
                 (case lc_add_to_history N ''assistant'' response lc w of
                    (lc, w) \<Rightarrow>
                      Some (Ret (answer AgentCognition ''OPENHANDS'' response),
                            r\<lparr>ro_lifecycle := Some lc\<rparr>, w)))
          else Some (Ret (answer AgentCognition ''EMPTY'' ''OpenHands returned empty response''),
                     r\<lparr>ro_lifecycle := Some lc\<rparr>, w))"

definition route_cognitively ::
    "unicode_tables \<Rightarrow> 'w net \<Rightarrow> 'w host \<Rightarrow> json_lib \<Rightarrow> environ \<Rightarrow> string \<Rightarrow> 'w routing" where
  "route_cognitively u N H L env msg r w =
     (let (ctx, r) = build_execution_context H L env r w;
          unavailable = answer AgentCognition ''NO_OPENHANDS''
            ''OpenHands is not configured. Please set OPENHANDS_API_KEY environment variable.''
      in case ro_lifecycle r of
           None \<Rightarrow> Some (Ret unavailable, r, w)
         | Some lc \<Rightarrow>
             (case lc_get_history 5 lc of
                Panic p \<Rightarrow> Some (Panic p, r, w)
              | Ret history \<Rightarrow>
                  if has_openhands lc then
                    (case execute u N L None msg (default_repository env) lc w of
                       None \<Rightarrow> None
                     | Some (Panic p, lc, w) \<Rightarrow> Some (Panic p, r\<lparr>ro_lifecycle := Some lc\<rparr>, w)
                     | Some (Ret x, lc, w) \<Rightarrow> finish_route N msg x lc r w)
                  else Some (Ret unavailable, r, w)))"

definition openhands_available :: "router \<Rightarrow> bool" where
  "openhands_available r \<longleftrightarrow>
     (case ro_lifecycle r of None \<Rightarrow> False | Some lc \<Rightarrow> has_openhands lc)"

definition route_message ::
    "unicode_tables \<Rightarrow> 'w net \<Rightarrow> 'w host \<Rightarrow> json_lib \<Rightarrow> environ \<Rightarrow> string \<Rightarrow> 'w routing" where
  "route_message u N H L env msg r w =
     (if openhands_available r
      then route_cognitively u N H L env msg r w
      else Some (Ret (answer AgentSystem ''NO_OPENHANDS''
        ''OpenHands is not configured. Please ensure OPENHANDS_API_KEY is available in the runtime environment.''),
        r, w))"

section \<open>Detection\<close>

definition auditor_triggers :: "string list" where
  "auditor_triggers = [''auditor'', ''audit'', ''finding'', ''bug'', ''error'', ''explain'']"

definition executor_triggers :: "string list" where
  "executor_triggers = [''executor'', ''execute'', ''fix'', ''apply'', ''why blocked'',
     ''didn'' @ squote @ ''t fix'', ''blocked'', ''run'', ''corrija'', ''execute task'']"

definition runtime_triggers :: "string list" where
  "runtime_triggers = [''runtime'', ''status'', ''running'', ''loop'', ''ticker'', ''alive'']"

definition detect_agent :: "string \<Rightarrow> agent_type" where
  "detect_agent msg =
     (if contains_any msg auditor_triggers then AgentAuditor
      else if contains_any msg executor_triggers then AgentExecutor
      else if contains_any msg runtime_triggers then AgentRuntime
      else AgentSystem)"

text \<open>
  \<open>detectIntent\<close> ranges over a Go map: the order of the entries is not specified and may differ
  between two calls, so it is an argument, some arrangement of the table.
\<close>

definition intent_triggers :: "(string \<times> string list) list" where
  "intent_triggers =
     [(''explain'', [''explain'', ''why'', ''because'', ''cause'']),
      (''summarize'', [''summarize'', ''summary'', ''overview'', ''what'']),
      (''status'', [''status'', ''state'', ''health'']),
      (''findings'', [''findings'', ''bugs'', ''issues'']),
      (''list'', [''list'', ''show'', ''what files'']),
      (''risk'', [''risk'', ''risky'']),
      (''blocked'', [''blocked'', ''block''])]"

fun detect_intent :: "(string \<times> string list) list \<Rightarrow> string \<Rightarrow> string" where
  "detect_intent [] msg = ''general''"
| "detect_intent ((intent, triggers) # order) msg =
     (if contains_any msg triggers then intent else detect_intent order msg)"

section \<open>The agent handlers\<close>

definition severity_emoji :: "string \<Rightarrow> string" where
  "severity_emoji s =
     (if s = ''critical'' \<or> s = ''high'' then red else if s = ''low'' then green else yellow)"

definition finding_summary :: "op_finding \<Rightarrow> string" where
  "finding_summary f =
     severity_emoji (of_severity f) @ '' ['' @ of_severity f @ ''] '' @ of_title f @ nl @
     ''   Evidence: '' @ of_evidence f @ nl @ nl"

fun numbered_findings :: "int \<Rightarrow> op_finding list \<Rightarrow> string" where
  "numbered_findings i [] = []"
| "numbered_findings i (f # fs) =
     show_int (i + 1) @ ''. '' @ of_title f @ '' ('' @ of_severity f @ '')'' @ nl @
     numbered_findings (i + 1) fs"

definition handle_auditor :: "string \<Rightarrow> string \<Rightarrow> router \<Rightarrow> routed outcome" where
  "handle_auditor msg intent r =
     (case ro_memory r of
        None \<Rightarrow> Panic nil_dereference
      | Some m \<Rightarrow>
          (let findings = get_latest_findings m in
           Ret (answer AgentAuditor ''AUDITOR''
             (if intent = ''explain'' \<or> intent = ''summarize'' \<or> intent = ''findings'' then
                (if findings = [] then ''No findings available. Run /audit to generate new findings.''
                 else ''[AUDITOR]'' @ nl @ nl @ ''Latest findings:'' @ nl @ nl @
                      concat (map finding_summary (take 5 findings)) @
                      (if 5 < length findings
                       then ''... and '' @ show_int (int (length findings) - 5) @ '' more'' else []))
              else if intent = ''list'' then
                (if findings = [] then ''No findings. Run /audit first.''
                 else ''[AUDITOR]'' @ nl @ nl @ ''Findings:'' @ nl @ numbered_findings 0 findings)
              else ''Try '' @ squote @ ''auditor, explain findings'' @ squote @ '' or '' @ squote @
                   ''auditor, show findings'' @ squote @ ''.''))))"

definition handle_openhands_execution ::
    "'w net \<Rightarrow> json_lib \<Rightarrow> environ \<Rightarrow> string \<Rightarrow> 'w \<Rightarrow> (routed outcome \<times> 'w) option" where
  "handle_openhands_execution N L env msg w =
     (let executor = answer AgentExecutor ''EXECUTOR'' in
      case new_openhands_bridge N env w of
        (Inl e, w) \<Rightarrow> Some (Ret (executor (''OpenHands initialization error: '' @ e)), w)
      | (Inr b, w) \<Rightarrow>
          if \<not> br_is_authorized b then
            Some (Ret (executor
              ''OpenHands execution not authorized. Please configure OPENHANDS_API_KEY.''), w)
          else
            (case br_execute N L msg (default_repository env) b w of
               None \<Rightarrow> None
             | Some (Panic p, b, w) \<Rightarrow> Some (Panic p, w)
             | Some (Ret (Inl e), b, w) \<Rightarrow> Some (Ret (executor (''Execution failed: '' @ e)), w)
             | Some (Ret (Inr t), b, w) \<Rightarrow>
                 Some (Ret (executor (''Dispatching execution to OpenHands...'' @ nl @ nl @ t)), w)))"

definition execution_words :: "string list" where
  "execution_words = [''corrija'', ''execute'', ''execute task'', ''run task'', ''fix'', ''apply fix'']"

text \<open>What \<open>handleExecutor\<close> answers when nothing is dispatched.\<close>

definition executor_report :: "string \<Rightarrow> op_memory \<Rightarrow> string" where
  "executor_report intent m =
     (let decisions = get_executor_decisions m; blocked = get_blocked_operations m in
      if intent = ''explain'' \<or> intent = ''why'' \<or> intent = ''blocked'' then
        (if blocked = [] then ''No operations have been blocked.''
         else ''[EXECUTOR]'' @ nl @ nl @ ''Blocked operations:'' @ nl @ nl @
              concat (map (\<lambda>b. '' Finding: '' @ bo_finding b @ nl @
                               '' Reason: '' @ bo_reason b @ nl @ nl) blocked))
      else if intent = ''status'' \<or> intent = ''summarize'' then
        (if decisions = [] then ''No executor activity recorded.''
         else ''[EXECUTOR]'' @ nl @ nl @ ''Activity summary:'' @ nl @
              ''- Auto-executed: '' @
                show_nat (length (filter (\<lambda>d. ed_action d = ''auto'') decisions)) @ nl @
              ''- Blocked: '' @
                show_nat (length (filter (\<lambda>d. ed_action d = ''blocked'') decisions)) @ nl)
      else ''Try '' @ squote @ ''executor, why blocked?'' @ squote @ '' or '' @ squote @
           ''executor, show activity'' @ squote @ ''.'')"

definition handle_executor ::
    "unicode_tables \<Rightarrow> 'w net \<Rightarrow> json_lib \<Rightarrow> environ \<Rightarrow> string \<Rightarrow> string \<Rightarrow> router \<Rightarrow> 'w \<Rightarrow>
       (routed outcome \<times> 'w) option" where
  "handle_executor u N L env msg intent r w =
     (let lower = to_lower u msg in
      if list_ex (\<lambda>t. contains lower t \<and> \<not> contains lower ''why'' \<and> \<not> contains lower ''blocked'')
           execution_words
      then handle_openhands_execution N L env msg w
      else
        (case ro_memory r of
           None \<Rightarrow> Some (Panic nil_dereference, w)
         | Some m \<Rightarrow> Some (Ret (answer AgentExecutor ''EXECUTOR'' (executor_report intent m)), w)))"

definition runtime_report :: "int \<Rightarrow> bool \<Rightarrow> string" where
  "runtime_report pid running =
     (if running then ''Status: RUNNING (PID: '' @ show_int pid @ '')'' @ nl
      else ''Status: STOPPED'' @ nl) @
     ''Ticker: 5 minutes'' @ nl @ ''Next audit: automatic'' @ nl"

definition handle_runtime :: "string \<Rightarrow> string \<Rightarrow> router \<Rightarrow> routed outcome" where
  "handle_runtime msg intent r =
     (case ro_memory r of
        None \<Rightarrow> Panic nil_dereference
      | Some m \<Rightarrow>
          (case get_runtime_status m of
             (status, pid, running) \<Rightarrow>
               Ret (answer AgentRuntime ''RUNTIME''
                 (if intent = ''status'' \<or> intent = ''summarize''
                  then ''[RUNTIME]'' @ nl @ nl @ runtime_report pid running
                  else ''Try '' @ squote @ ''runtime, status'' @ squote @ ''.''))))"

definition handle_general ::
    "unicode_tables \<Rightarrow> 'w net \<Rightarrow> 'w host \<Rightarrow> json_lib \<Rightarrow> environ \<Rightarrow> string \<Rightarrow> string \<Rightarrow> 'w routing" where
  "handle_general u N H L env msg intent = route_cognitively u N H L env msg"

section \<open>Types of the answers\<close>

definition well_typed :: "routed \<Rightarrow> bool" where
  "well_typed a \<longleftrightarrow>
     ro_content a \<noteq> [] \<and>
     (case ro_agent a of
        AgentUnknown \<Rightarrow> False
      | AgentAuditor \<Rightarrow> ro_name a = ''AUDITOR''
      | AgentExecutor \<Rightarrow> ro_name a = ''EXECUTOR''
      | AgentRuntime \<Rightarrow> ro_name a = ''RUNTIME''
      | AgentSystem \<Rightarrow> ro_name a = ''NO_OPENHANDS''
      | AgentCognition \<Rightarrow> ro_name a \<in> {''OPENHANDS'', ''ERROR'', ''EMPTY'', ''NO_OPENHANDS''})"

lemma well_typed_answer [simp]:
  "well_typed (answer AgentAuditor n c) \<longleftrightarrow> n = ''AUDITOR'' \<and> c \<noteq> []"
  "well_typed (answer AgentExecutor n c) \<longleftrightarrow> n = ''EXECUTOR'' \<and> c \<noteq> []"
  "well_typed (answer AgentRuntime n c) \<longleftrightarrow> n = ''RUNTIME'' \<and> c \<noteq> []"
  "well_typed (answer AgentSystem n c) \<longleftrightarrow> n = ''NO_OPENHANDS'' \<and> c \<noteq> []"
  "well_typed (answer AgentCognition n c) \<longleftrightarrow>
     n \<in> {''OPENHANDS'', ''ERROR'', ''EMPTY'', ''NO_OPENHANDS''} \<and> c \<noteq> []"
  by (auto simp: well_typed_def answer_def)

lemma finish_route_typed:
  "finish_route N msg x lc r w = Some (Ret a, r', w') \<Longrightarrow> well_typed a"
  by (auto simp: finish_route_def split: sum.splits if_splits prod.splits)

lemma route_cognitively_typed:
  "route_cognitively u N H L env msg r w = Some (Ret a, r', w') \<Longrightarrow> well_typed a"
  by (auto simp: route_cognitively_def Let_def dest: finish_route_typed
      split: prod.splits option.splits outcome.splits if_splits)

lemma route_typed: "route_message u N H L env msg r w = Some (Ret a, r', w') \<Longrightarrow> well_typed a"
  by (auto simp: route_message_def dest: route_cognitively_typed split: if_splits)

lemma handle_auditor_typed: "handle_auditor msg intent r = Ret a \<Longrightarrow> well_typed a"
  by (auto simp: handle_auditor_def Let_def split: option.splits)

lemma handle_runtime_typed: "handle_runtime msg intent r = Ret a \<Longrightarrow> well_typed a"
  by (auto simp: handle_runtime_def get_runtime_status_def split: option.splits)

lemma executor_report_nonempty [simp]: "executor_report intent m \<noteq> []"
  by (simp add: executor_report_def Let_def)

lemma handle_openhands_execution_typed:
  "handle_openhands_execution N L env msg w = Some (Ret a, w') \<Longrightarrow> well_typed a"
  by (auto simp: handle_openhands_execution_def Let_def
      split: prod.splits sum.splits if_splits option.splits outcome.splits)

lemma handle_executor_typed:
  "handle_executor u N L env msg intent r w = Some (Ret a, w') \<Longrightarrow> well_typed a"
  by (auto simp: handle_executor_def Let_def dest: handle_openhands_execution_typed
      split: option.splits if_splits)

lemma nil_memory_panics:
  "ro_memory r = None \<Longrightarrow> handle_auditor msg intent r = Panic nil_dereference"
  "ro_memory r = None \<Longrightarrow> handle_runtime msg intent r = Panic nil_dereference"
  by (simp_all add: handle_auditor_def handle_runtime_def)

section \<open>What routing does to the lifecycle\<close>

lemma build_context_frame [simp]:
  "ro_lifecycle (snd (build_execution_context H L env r w)) = ro_lifecycle r"
  by (simp add: build_execution_context_def Let_def split: option.splits)

lemma route_available:
  assumes "ro_lifecycle r = Some lc" and "has_openhands lc"
  shows "route_message u N H L env msg r w =
    (case execute u N L None msg (default_repository env) lc w of
       None \<Rightarrow> None
     | Some (Panic p, lc', w') \<Rightarrow>
         Some (Panic p, (snd (build_execution_context H L env r w))\<lparr>ro_lifecycle := Some lc'\<rparr>, w')
     | Some (Ret x, lc', w') \<Rightarrow>
         finish_route N msg x lc' (snd (build_execution_context H L env r w)) w')"
proof -
  have "ro_lifecycle (snd (build_execution_context H L env r w)) = Some lc" using assms(1) by simp
  then show ?thesis
    using assms by (simp add: route_message_def openhands_available_def route_cognitively_def Let_def
        case_prod_beta lc_get_history_def recent_nonneg)
qed

lemma two_messages:
  assumes "lc_add_to_history N r1 c1 lc w = (lc1, w1)" and "lc_add_to_history N r2 c2 lc1 w1 = (lc2, w2)"
  shows "map (\<lambda>m. (msg_role m, msg_content m)) (lc_history lc2) =
      keep_last 50 (map (\<lambda>m. (msg_role m, msg_content m)) (lc_history lc) @ [(r1, c1), (r2, c2)]) \<and>
    lc2\<lparr>lc_history := []\<rparr> = lc\<lparr>lc_history := []\<rparr>"
  using assms keep_last_append
    [of 50 "map (\<lambda>m. (msg_role m, msg_content m)) (lc_history lc) @ [(r1, c1)]" "[(r2, c2)]"]
  by (auto simp: lc_add_to_history_def push_message_def map_keep_last split: prod.splits)


lemma route_appends:
  assumes lc: "ro_lifecycle r = Some lc" "has_openhands lc"
    and ex: "execute u N L None msg (default_repository env) lc w = Some (Ret (Inr s), lc1, w1)"
    and "s \<noteq> []"
  shows "\<exists>r' w'. route_message u N H L env msg r w =
      Some (Ret (answer AgentCognition ''OPENHANDS'' s), r', w') \<and> openhands_available r' \<and>
    map (\<lambda>m. (msg_role m, msg_content m)) (lc_history (the (ro_lifecycle r'))) =
      keep_last 50 (map (\<lambda>m. (msg_role m, msg_content m)) (lc_history lc) @
        [(''user'', msg), (''assistant'', s)])"
proof -
  let ?r = "snd (build_execution_context H L env r w)"
  have frame: "same_frame lc lc1" by (rule execute_frame [OF ex]) simp
  obtain lc2 w2 where h1: "lc_add_to_history N ''user'' msg lc1 w1 = (lc2, w2)" by fastforce
  obtain lc3 w3 where h2: "lc_add_to_history N ''assistant'' s lc2 w2 = (lc3, w3)" by fastforce
  have run: "route_message u N H L env msg r w =
      Some (Ret (answer AgentCognition ''OPENHANDS'' s), ?r\<lparr>ro_lifecycle := Some lc3\<rparr>, w3)"
    using ex assms(4) h1 h2 by (simp add: route_available [OF lc] finish_route_def)
  have "lc_client lc3 = lc_client lc1"
    using two_messages [OF h1 h2] by (metis lifecycle.select_convs(1) lifecycle.surjective
        lifecycle.update_convs(4))
  then have "has_openhands lc3" using frame lc by (simp add: has_openhands_def same_frame_def)
  with run two_messages [OF h1 h2] frame show ?thesis
    by (simp add: openhands_available_def same_frame_def)
qed

section \<open>Conversations\<close>

fun converse ::
    "unicode_tables \<Rightarrow> 'w net \<Rightarrow> 'w host \<Rightarrow> json_lib \<Rightarrow> environ \<Rightarrow> string list \<Rightarrow> router \<Rightarrow> 'w \<Rightarrow>
       (routed list \<times> router \<times> 'w) option" where
  "converse u N H L env [] r w = Some ([], r, w)"
| "converse u N H L env (msg # msgs) r w =
     (case route_message u N H L env msg r w of
        Some (Ret a, r, w) \<Rightarrow>
          map_option (\<lambda>(as, r, w). (a # as, r, w)) (converse u N H L env msgs r w)
      | _ \<Rightarrow> None)"

text \<open>
  C39. Every answer of the router and of its agent handlers is well typed: the content is never empty
  and the name is one of those of its agent. A nil memory is a panic, never an empty answer.
\<close>

theorem answers_well_typed:
  "(\<forall>a r' w'. route_message u N H L env msg r w = Some (Ret a, r', w') \<longrightarrow> well_typed a) \<and>
   (\<forall>a r' w'. handle_general u N H L env msg intent r w = Some (Ret a, r', w') \<longrightarrow> well_typed a) \<and>
   (\<forall>a. handle_auditor msg intent r = Ret a \<longrightarrow> well_typed a) \<and>
   (\<forall>a. handle_runtime msg intent r = Ret a \<longrightarrow> well_typed a) \<and>
   (\<forall>a w'. handle_executor u N L env msg intent r w = Some (Ret a, w') \<longrightarrow> well_typed a) \<and>
   (ro_memory r = None \<longrightarrow> handle_auditor msg intent r = Panic nil_dereference \<and>
      handle_runtime msg intent r = Panic nil_dereference)"
  unfolding handle_general_def
  using route_typed [of u N H L env msg r w] route_cognitively_typed [of u N H L env msg r w]
    handle_executor_typed [of u N L env msg intent r w] handle_auditor_typed [of msg intent r]
    handle_runtime_typed [of msg intent r] nil_memory_panics [of r msg intent]
  by (intro conjI allI impI) blast+

theorem answers_well_typed_witness:
  "\<exists>a. handle_auditor ''auditor'' ''list'' (new_router (\<lambda>_. None) new_operational_memory) = Ret a \<and>
     ro_content a = ''No findings. Run /audit first.'' \<and> well_typed a"
proof -
  obtain a where a: "handle_auditor ''auditor'' ''list'' (new_router (\<lambda>_. None) new_operational_memory) = Ret a"
    and c: "ro_content a = ''No findings. Run /audit first.''"
    by (simp add: handle_auditor_def new_router_def get_latest_findings_def new_operational_memory_def
        answer_def)
  note all = answers_well_typed [where msg = "''auditor''" and intent = "''list''"
      and r = "new_router (\<lambda>_. None) new_operational_memory"]
  have "well_typed a" using all [THEN conjunct2, THEN conjunct2, THEN conjunct1] a by blast
  with a c show ?thesis by blast
qed

text \<open>
  C16. Routing a message: without a client the fixed refusal is given and nothing changes; with one the
  router always comes to an answer, which is the lifecycle's, never the error or the empty reply,
  and the history has grown by the message and the answer within its bound of 50. The one
  exception is the client's panic, and it has its one cause: the service answers a status request
  with a READY task whose conversation has an identifier of fewer than eight bytes and a title.
  Then there is no answer and the history stays.
\<close>

theorem route_answers:
  assumes "clock_ok N"
  shows "if openhands_available r then
      \<exists>x r' w'. route_message u N H L env msg r w = Some (x, r', w') \<and> openhands_available r' \<and>
        (case x of
           Ret a \<Rightarrow>
             ro_agent a = AgentCognition \<and> ro_name a = ''OPENHANDS'' \<and> ro_content a \<noteq> [] \<and>
             map (\<lambda>m. (msg_role m, msg_content m)) (lc_history (the (ro_lifecycle r'))) =
               keep_last 50 (map (\<lambda>m. (msg_role m, msg_content m)) (lc_history (the (ro_lifecycle r))) @
                 [(''user'', msg), (''assistant'', ro_content a)])
         | Panic p \<Rightarrow>
             p = slice_panic \<and> lc_history (the (ro_lifecycle r')) = lc_history (the (ro_lifecycle r)) \<and>
             (\<exists>c task_id v. lc_client (the (ro_lifecycle r)) = Some c \<and> task_id \<noteq> [] \<and>
                titled_short N L c task_id v))
    else \<exists>a. route_message u N H L env msg r w = Some (Ret a, r, w) \<and>
        ro_agent a = AgentSystem \<and> ro_name a = ''NO_OPENHANDS''"
proof (cases "openhands_available r")
  case False
  then show ?thesis by (simp add: route_message_def answer_def)
next
  case True
  then obtain lc where lc: "ro_lifecycle r = Some lc" "has_openhands lc"
    by (auto simp: openhands_available_def split: option.splits)
  obtain x lc1 w1 where ex: "execute u N L None msg (default_repository env) lc w = Some (x, lc1, w1)"
    and ans: "answers_or_slice_panic N L lc x"
    using execute_answers_or_panics [OF assms] by blast
  have frame: "same_frame lc lc1" by (rule execute_frame [OF ex]) simp
  then have oh: "has_openhands lc1" using lc by (simp add: same_frame_def has_openhands_def)
  show ?thesis
  proof (cases x)
    case (Panic p)
    with True ex oh ans frame lc show ?thesis
      by (simp add: route_available [OF lc] openhands_available_def same_frame_def) blast
  next
    case (Ret y)
    with ans obtain s where s: "x = Ret (Inr s)" "s \<noteq> []" by (cases y) auto
    from route_appends [OF lc ex [unfolded s(1)] s(2), of H] obtain r' w' where
      run: "route_message u N H L env msg r w = Some (Ret (answer AgentCognition ''OPENHANDS'' s), r', w')"
      and oh': "openhands_available r'"
      and h: "map (\<lambda>m. (msg_role m, msg_content m)) (lc_history (the (ro_lifecycle r'))) =
        keep_last 50 (map (\<lambda>m. (msg_role m, msg_content m)) (lc_history lc) @
          [(''user'', msg), (''assistant'', s)])"
      by (elim exE conjE)
    with True lc s show ?thesis by (simp add: answer_def)
  qed
qed

text \<open>
  C17. No message stops a running task: while the lifecycle's task runs, any conversation through the
  router, whatever its messages ask for, leaves the task as it is and nothing cancelled.
\<close>

theorem conversation_stops_nothing:
  assumes "converse u N H L env msgs r w = Some (as, r', w')"
    and "ro_lifecycle r = Some lc" and "lc_client lc \<noteq> None" and "task_running lc"
  shows "\<exists>lc'. ro_lifecycle r' = Some lc' \<and> active_task lc' = active_task lc \<and>
    is_cancelled lc' = is_cancelled lc \<and> closed_chans lc' = closed_chans lc"
  using assms
proof (induction msgs arbitrary: as r w lc)
  case Nil
  then show ?case by simp
next
  case (Cons msg msgs)
  have oh: "has_openhands lc" using Cons.prems(3) by (simp add: has_openhands_def)
  from Cons.prems(1) obtain a r1 w1 as1 where
    step: "route_message u N H L env msg r w = Some (Ret a, r1, w1)"
    and rest: "converse u N H L env msgs r1 w1 = Some (as1, r', w')"
    by (auto split: option.splits outcome.splits prod.splits)
  from step obtain y lc1 w2 where
    ex: "execute u N L None msg (default_repository env) lc w = Some (Ret y, lc1, w2)"
    and fin: "finish_route N msg y lc1 (snd (build_execution_context H L env r w)) w2 = Some (Ret a, r1, w1)"
    by (auto simp: route_available [OF Cons.prems(2) oh] split: option.splits outcome.splits prod.splits)
  have "lc1 = lc" by (rule execute_running [OF Cons.prems(4,3) ex]) simp
  with fin obtain lc2 where lc2: "ro_lifecycle r1 = Some lc2" "active_task lc2 = active_task lc"
    "is_cancelled lc2 = is_cancelled lc" "closed_chans lc2 = closed_chans lc" "lc_client lc2 = lc_client lc"
    by (auto simp: finish_route_def lc_add_to_history_def push_message_def
        split: sum.splits if_splits prod.splits)
  with Cons.prems(3,4) have "lc_client lc2 \<noteq> None" "task_running lc2" by (simp_all add: task_running_def)
  from Cons.IH [OF rest lc2(1) this] lc2 show ?case by simp
qed


definition desk_world :: "(machine \<times> int) host" where
  "desk_world = on_first (desk (\<lambda>_. []) (\<lambda>_. ([], None)))"

definition refused_world :: "(machine \<times> int) net" where
  "refused_world = beside (answering (\<lambda>_. Inl ''refused''))"

definition busy_router :: router where
  "busy_router = (new_router (\<lambda>_. None) new_operational_memory)\<lparr>ro_lifecycle := Some busy_lifecycle\<rparr>"

theorem route_answers_witness:
  "\<exists>x r' w'. route_message ascii_tables refused_world desk_world (scan_table []) (\<lambda>_. None) ''fix it'' busy_router
       (quiet_machine, 0) = Some (x, r', w') \<and> openhands_available r'"
proof -
  have "clock_ok refused_world" by (simp add: refused_world_def clock_ok_beside)
  moreover have "openhands_available busy_router"
    by (simp add: busy_router_def openhands_available_def busy_lifecycle_def idle_lifecycle_def
        has_openhands_def)
  ultimately show ?thesis
    using route_answers [of refused_world busy_router ascii_tables desk_world "scan_table []" "\<lambda>_. None"
        "''fix it''" "(quiet_machine, 0)"]
    by auto
qed

theorem conversation_stops_nothing_witness:
  "\<exists>as r' w' lc'. converse ascii_tables refused_world desk_world (scan_table []) (\<lambda>_. None)
      [''pare agora'', ''cancele''] busy_router (quiet_machine, 0) = Some (as, r', w') \<and>
    ro_lifecycle r' = Some lc' \<and> active_task lc' = active_task busy_lifecycle \<and>
    \<not> is_cancelled lc'"
proof -
  have "case converse ascii_tables refused_world desk_world (scan_table []) (\<lambda>_. None)
      [''pare agora'', ''cancele''] busy_router (quiet_machine, 0) of None \<Rightarrow> False | Some x \<Rightarrow> True"
    by code_simp
  then have "\<exists>as r' w'. converse ascii_tables refused_world desk_world (scan_table []) (\<lambda>_. None)
      [''pare agora'', ''cancele''] busy_router (quiet_machine, 0) = Some (as, r', w')"
    by (auto split: option.splits)
  then obtain as1 r' w' where run: "converse ascii_tables refused_world desk_world (scan_table []) (\<lambda>_. None)
      [''pare agora'', ''cancele''] busy_router (quiet_machine, 0) = Some (as1, r', w')" by blast
  have lc: "ro_lifecycle busy_router = Some busy_lifecycle" by (simp add: busy_router_def)
  have b: "lc_client busy_lifecycle \<noteq> None" "task_running busy_lifecycle"
    by (simp_all add: busy_lifecycle_def idle_lifecycle_def task_running_def is_running_def)
  have "\<not> is_cancelled busy_lifecycle" by (simp add: busy_lifecycle_def idle_lifecycle_def)
  with conversation_stops_nothing [OF run lc b] run show ?thesis by auto
qed

lemma detect_intent_sound:
  "detect_intent order msg = i \<Longrightarrow>
     (\<exists>ts. (i, ts) \<in> set order \<and> contains_any msg ts) \<or>
     i = ''general'' \<and> (\<forall>(j, ts) \<in> set order. \<not> contains_any msg ts)"
  by (induction order msg rule: detect_intent.induct) (auto split: if_splits)

text \<open>
  The intent detected depends on the order of the map: over its arrangements the results are
  exactly the intents one of whose triggers the message holds, or general if there is none, so
  a message with triggers of two intents can get either.
\<close>

theorem detect_intent_choices:
  "{detect_intent order msg | order. mset order = mset intent_triggers} =
    (if list_ex (\<lambda>(i, ts). contains_any msg ts) intent_triggers
     then {i. \<exists>ts. (i, ts) \<in> set intent_triggers \<and> contains_any msg ts} else {''general''})"
proof (cases "list_ex (\<lambda>(i, ts). contains_any msg ts) intent_triggers")
  case True
  have "\<exists>order. i = detect_intent order msg \<and> mset order = mset intent_triggers"
    if "(i, ts) \<in> set intent_triggers" "contains_any msg ts" for i ts
    using that by (intro exI [of _ "(i, ts) # remove1 (i, ts) intent_triggers"]) simp
  moreover have "\<exists>ts. (detect_intent order msg, ts) \<in> set intent_triggers \<and> contains_any msg ts"
    if "mset order = mset intent_triggers" for order
    using detect_intent_sound [OF refl, of order msg] mset_eq_setD [OF that] True
    by (auto simp: list_ex_iff)
  ultimately show ?thesis using True by auto
next
  case False
  have "detect_intent order msg = ''general''" if "mset order = mset intent_triggers" for order
    using detect_intent_sound [OF refl, of order msg] mset_eq_setD [OF that] False
    by (auto simp: list_ex_iff)
  with False show ?thesis by (auto intro: exI [of _ intent_triggers])
qed

text \<open>
  The executor has nothing to report: asked why something was blocked it answers that nothing was,
  and asked for its activity that none is recorded, whatever has happened, once the memory is
  loaded from a disk that holds the state file of the runtime.
\<close>

theorem executor_reports_nothing:
  assumes "file_law H" and "state_json H s = Some j" and "render_law H L j"
    and "m = load_from_disk H L (save_state H s w) (loads H L ws new_operational_memory)"
    and "contains (to_lower u msg) ''blocked''"
  shows "handle_executor u N L' env msg ''blocked'' (r\<lparr>ro_memory := Some m\<rparr>) v =
      Some (Ret (answer AgentExecutor ''EXECUTOR'' ''No operations have been blocked.''), v) \<and>
    handle_executor u N L' env msg ''status'' (r\<lparr>ro_memory := Some m\<rparr>) v =
      Some (Ret (answer AgentExecutor ''EXECUTOR'' ''No executor activity recorded.''), v)"
proof -
  have "get_executor_decisions m = []" using history_never_recorded [OF assms(1-3)] assms(4) by simp
  moreover have "get_blocked_operations m = []"
    using loads_state [of H L "ws @ [save_state H s w]" new_operational_memory] assms(4)
    by (simp add: loads_def get_blocked_operations_def new_operational_memory_def)
  ultimately show ?thesis
    using assms(5) by (simp add: handle_executor_def executor_report_def list_ex_iff)
qed

theorem executor_reports_nothing_witness:
  "handle_executor ascii_tables (answering (\<lambda>_. Inl [])) (scan_table []) (\<lambda>_. None) ''Why BLOCKED?'' ''blocked''
     ((new_router (\<lambda>_. None) new_operational_memory)\<lparr>ro_memory := Some (load_from_disk audit_host
        (scan_table [(''S'', the (state_json audit_host stopped_state))])
        (save_state audit_host stopped_state quiet_machine) new_operational_memory)\<rparr>) 0 =
   Some (Ret (answer AgentExecutor ''EXECUTOR'' ''No operations have been blocked.''), 0)"
proof -
  let ?L = "scan_table [(''S'', the (state_json audit_host stopped_state))]"
  have files: "file_law audit_host" by (simp add: audit_host_def file_law_desk)
  have j: "state_json audit_host stopped_state = Some (the (state_json audit_host stopped_state))"
    by code_simp
  have law: "render_law audit_host ?L (the (state_json audit_host stopped_state))"
    by (simp add: render_law_def scan_table_def audit_host_def desk_def)
  have m: "load_from_disk audit_host ?L (save_state audit_host stopped_state quiet_machine) new_operational_memory =
      load_from_disk audit_host ?L (save_state audit_host stopped_state quiet_machine)
        (loads audit_host ?L [] new_operational_memory)" by (simp add: loads_def)
  have msg: "contains (to_lower ascii_tables ''Why BLOCKED?'') ''blocked''" by code_simp
  show ?thesis by (rule executor_reports_nothing [OF files j law m msg, THEN conjunct1])
qed

end
