(* ===== verification/BotEnv.thy ===== *)
theory BotEnv
  imports Host Net
begin

text \<open>
  The configuration part of \<open>integrations/telegram/cmd/bot/main.go\<close>: where the project lies, the
  \<open>.env\<close> file that fills the environment at start, and the look-up that falls back on the file.
  The environment of the process is state: \<open>load_env\<close> returns the changed one.
\<close>

section \<open>Paths\<close>

text \<open>\<open>filepath.Clean\<close> on Unix, over the parts between slashes; the stack is reversed.\<close>

fun clean_parts :: "bool \<Rightarrow> string list \<Rightarrow> string list \<Rightarrow> string list" where
  "clean_parts rooted stack [] = rev stack"
| "clean_parts rooted stack (p # ps) =
     (if p = [] \<or> p = ''.'' then clean_parts rooted stack ps
      else if p = ''..'' then
        (if stack \<noteq> [] \<and> hd stack \<noteq> ''..'' then clean_parts rooted (tl stack) ps
         else if rooted then clean_parts rooted stack ps
         else clean_parts rooted (''..'' # stack) ps)
      else clean_parts rooted (p # stack) ps)"

definition path_clean :: "string \<Rightarrow> string" where
  "path_clean s =
     (let rooted = prefix ''/'' s; parts = clean_parts rooted [] (split_on (CHR ''/'') s) in
      if rooted then ''/'' @ join_with ''/'' parts
      else if parts = [] then ''.'' else join_with ''/'' parts)"

definition path_dir :: "string \<Rightarrow> string" where
  "path_dir s = path_clean (rev (dropWhile (\<lambda>c. c \<noteq> CHR ''/'') (rev s)))"

fun path_join :: "string list \<Rightarrow> string" where
  "path_join [] = []"
| "path_join (e # es) = (if e = [] then path_join es else path_clean (join_with ''/'' (e # es)))"

text \<open>
  What \<open>resolveRoot\<close> asks the process: \<open>os.Executable\<close>, \<open>filepath.EvalSymlinks\<close> (the empty
  string on an error), \<open>os.Getwd\<close> and whether \<open>os.Stat\<close> finds a path.
\<close>

record process =
  pr_executable :: "string option"
  pr_real :: "string \<Rightarrow> string"
  pr_cwd :: "string option"
  pr_exists :: "string \<Rightarrow> bool"

definition working_root :: "process \<Rightarrow> string" where
  "working_root P =
     (case pr_cwd P of
        Some cwd \<Rightarrow>
          if pr_exists P (path_join [cwd, ''integrations'', ''telegram'']) then cwd
          else ''/workspace/project/SMART-WORKER''
      | None \<Rightarrow> ''/workspace/project/SMART-WORKER'')"

definition resolve_root :: "process \<Rightarrow> environ \<Rightarrow> string" where
  "resolve_root P env =
     (let root = getenv env ''SMART_WORKER_ROOT'' in
      if root \<noteq> [] then root
      else
        (case pr_executable P of
           Some x \<Rightarrow>
             (let dir = path_dir (pr_real P x) in
              if contains dir ''integrations/telegram'' then path_join [dir, ''..'', ''..'']
              else working_root P)
         | None \<Rightarrow> working_root P))"

record bot_paths =
  bp_auditors :: string
  bp_executor :: string
  bp_env_file :: string

definition init_paths :: "process \<Rightarrow> environ \<Rightarrow> bot_paths" where
  "init_paths P env =
     (let root = resolve_root P env in
      \<lparr>bp_auditors = path_join [root, ''agents'', ''auditor'', ''run.sh''],
       bp_executor = path_join [root, ''agents'', ''executor'', ''run.sh''],
       bp_env_file = path_join [root, ''integrations'', ''telegram'', ''.env'']\<rparr>)"

text \<open>Two levels are left out where the binary lies in \<open>cmd/bot\<close>, its place in the sources.\<close>

lemma root_of_installed_bot:
  "resolve_root \<lparr>pr_executable = Some ''/srv/app/integrations/telegram/cmd/bot/bot'', pr_real = id,
      pr_cwd = None, pr_exists = (\<lambda>_. True)\<rparr> (\<lambda>_. None) = ''/srv/app/integrations/telegram''"
  by code_simp

section \<open>Reading the environment\<close>

definition env_lines :: "string \<Rightarrow> string list" where
  "env_lines data = map trim_space (split_on (CHR 0x0A) data)"

fun find_setting :: "string \<Rightarrow> string list \<Rightarrow> string" where
  "find_setting key [] = []"
| "find_setting key (l # ls) =
     (if has_prefix l (key @ ''='') then trim_prefix l (key @ ''='') else find_setting key ls)"

definition bot_get_env :: "'w host \<Rightarrow> string \<Rightarrow> environ \<Rightarrow> string \<Rightarrow> 'w \<Rightarrow> string" where
  "bot_get_env H env_file env key w =
     (if getenv env key \<noteq> [] then getenv env key
      else
        (case h_read H env_file w of
           Inl e \<Rightarrow> []
         | Inr data \<Rightarrow> find_setting key (env_lines data)))"

section \<open>The .env file\<close>

text \<open>\<open>os.Setenv\<close> refuses an empty name, a name with an equals sign, and a zero byte.\<close>

definition setenv :: "string \<Rightarrow> string \<Rightarrow> environ \<Rightarrow> environ" where
  "setenv key v env =
     (if key = [] \<or> CHR ''='' \<in> set key \<or> CHR 0x00 \<in> set key \<or> CHR 0x00 \<in> set v then env
      else env(key \<mapsto> v))"

text \<open>The matches of the regular expression for a variable reference, leftmost first.\<close>

definition name_char :: "char \<Rightarrow> bool" where
  "name_char c \<longleftrightarrow> is_letter c \<or> is_digit c \<or> c = CHR ''_''"

definition ref_at :: "string \<Rightarrow> string option" where
  "ref_at s =
     (let n = takeWhile name_char (drop 2 s) in
      if prefix ''${'' s \<and> n \<noteq> [] \<and> \<not> is_digit (hd n) \<and> prefix ''}'' (drop (2 + length n) s)
      then Some n else None)"

function find_refs :: "string \<Rightarrow> string list" where
  "find_refs s =
     (if s = [] then []
      else (case ref_at s of
              Some n \<Rightarrow> n # find_refs (drop (length n + 3) s)
            | None \<Rightarrow> find_refs (tl s)))"
  by pat_completeness auto
termination
  by (relation "measure length") auto

declare find_refs.simps [simp del]

definition resolve_refs :: "environ \<Rightarrow> string \<Rightarrow> string" where
  "resolve_refs env value =
     fold (\<lambda>n v. if getenv env n \<noteq> [] then replace_all (''${'' @ n @ ''}'') (getenv env n) v else v)
       (find_refs value) value"

text \<open>A trimmed line that is no comment and holds an equals sign: key and value.\<close>

definition key_value :: "string \<Rightarrow> (string \<times> string) option" where
  "key_value line =
     (if line = [] \<or> has_prefix line ''#'' then None
      else (case split_2 (CHR ''='') line of
              [k, v] \<Rightarrow> Some (trim_space k, trim_space v)
            | _ \<Rightarrow> None))"

definition self_reference :: "string \<Rightarrow> string \<Rightarrow> bool" where
  "self_reference key value \<longleftrightarrow> has_prefix value ''$'' \<and> contains value key"

definition env_line :: "string \<Rightarrow> environ \<Rightarrow> environ" where
  "env_line line env =
     (case key_value line of
        None \<Rightarrow> env
      | Some (key, value) \<Rightarrow>
          if self_reference key value then env
          else if getenv env key \<noteq> [] then env
          else (let value = resolve_refs env value in if value \<noteq> [] then setenv key value env else env))"

definition load_env :: "'w host \<Rightarrow> string \<Rightarrow> environ \<Rightarrow> 'w \<Rightarrow> environ" where
  "load_env H env_file env w =
     (case h_read H env_file w of
        Inl e \<Rightarrow> env
      | Inr data \<Rightarrow> fold env_line (env_lines data) env)"

section \<open>What the file can change\<close>

lemma env_line_keeps: "getenv env k \<noteq> [] \<Longrightarrow> env_line l env k = env k"
  by (auto simp: env_line_def setenv_def Let_def split: option.splits)

lemma env_line_other:
  "\<forall>v. key_value l = Some (k, v) \<longrightarrow> self_reference k v \<Longrightarrow> env_line l env k = env k"
  by (auto simp: env_line_def setenv_def Let_def split: option.splits)

lemma env_lines_keep: "getenv env k \<noteq> [] \<Longrightarrow> fold env_line ls env k = env k"
proof (induction ls arbitrary: env)
  case Nil
  then show ?case by simp
next
  case (Cons l ls)
  have "env_line l env k = env k" using env_line_keeps [OF Cons.prems] .
  moreover from this have "getenv (env_line l env) k \<noteq> []" using Cons.prems by (simp add: getenv_def)
  ultimately show ?case using Cons.IH [of "env_line l env"] by simp
qed

lemma env_lines_other:
  "\<forall>l \<in> set ls. \<forall>v. key_value l = Some (k, v) \<longrightarrow> self_reference k v \<Longrightarrow>
     fold env_line ls env k = env k"
  by (induction ls arbitrary: env) (simp_all add: env_line_other)

lemma env_line_set: "env_line l env k \<noteq> env k \<Longrightarrow> getenv (env_line l env) k \<noteq> []"
  by (auto simp: env_line_def setenv_def getenv_def Let_def split: option.splits if_splits)

lemma env_lines_set: "fold env_line ls env k \<noteq> env k \<Longrightarrow> getenv (fold env_line ls env) k \<noteq> []"
proof (induction ls arbitrary: env)
  case Nil
  then show ?case by simp
next
  case (Cons l ls)
  show ?case
  proof (cases "env_line l env k = env k")
    case True
    with Cons show ?thesis by simp
  next
    case False
    then have "getenv (env_line l env) k \<noteq> []" by (rule env_line_set)
    moreover from this have "fold env_line ls (env_line l env) k = env_line l env k"
      by (rule env_lines_keep)
    ultimately show ?thesis by (simp add: getenv_def)
  qed
qed

text \<open>
  The file never overrides the environment: loading changes a variable only if it was unset or
  empty, some line of the file assigns to this very name a value that is no self-reference, and
  the variable is not empty afterwards.
\<close>

theorem load_env_changes:
  assumes "load_env H env_file env w k \<noteq> env k"
  shows "getenv env k = [] \<and> getenv (load_env H env_file env w) k \<noteq> [] \<and>
    (\<exists>data l v. h_read H env_file w = Inr data \<and> l \<in> set (env_lines data) \<and>
       key_value l = Some (k, v) \<and> \<not> self_reference k v)"
proof -
  from assms obtain data where data: "h_read H env_file w = Inr data"
    by (auto simp: load_env_def split: sum.splits)
  with assms have d: "fold env_line (env_lines data) env k \<noteq> env k" by (simp add: load_env_def)
  have "getenv env k = []" using d env_lines_keep by blast
  moreover have "getenv (load_env H env_file env w) k \<noteq> []"
    using env_lines_set [OF d] data by (simp add: load_env_def)
  ultimately show ?thesis using d env_lines_other data by blast
qed

definition env_host :: "string \<Rightarrow> machine host" where
  "env_host text = (desk (\<lambda>_. []) (\<lambda>_. ([], None)))\<lparr>h_read := (\<lambda>_ _. Inr text)\<rparr>"

theorem load_env_changes_witness:
  "getenv (load_env (env_host (''# token'' @ nl @ '' TOKEN = t-${SITE} '')) []
      ([''SITE'' \<mapsto> ''eu'']) quiet_machine) ''TOKEN'' = ''t-eu''"
proof -
  let ?H = "env_host (''# token'' @ nl @ '' TOKEN = t-${SITE} '')"
  have set: "load_env ?H [] [''SITE'' \<mapsto> ''eu''] quiet_machine ''TOKEN'' = Some ''t-eu''" by code_simp
  then have "load_env ?H [] [''SITE'' \<mapsto> ''eu''] quiet_machine ''TOKEN'' \<noteq>
      [''SITE'' \<mapsto> ''eu''] ''TOKEN''" by simp
  from load_env_changes [OF this] set show ?thesis by (simp add: getenv_def)
qed

text \<open>
  A setting that refers to itself, meant to be skipped, is taken literally: where a variable is
  unset and every line for it is such a reference, loading leaves it unset, and the look-up with
  the file as fall-back then yields the text of the reference, so the test for an empty token at
  start passes.
\<close>

theorem self_reference_taken_literally:
  assumes "getenv env k = []" and "h_read H env_file w = Inr data"
    and "env_lines data = ls @ (k @ ''=${'' @ k @ ''}'') # rest"
    and "\<forall>l \<in> set ls. \<not> has_prefix l (k @ ''='')"
    and "\<forall>l \<in> set (env_lines data). \<forall>v. key_value l = Some (k, v) \<longrightarrow> self_reference k v"
  shows "load_env H env_file env w k = env k \<and>
    bot_get_env H env_file (load_env H env_file env w) k w = ''${'' @ k @ ''}''"
proof -
  have keep: "load_env H env_file env w k = env k"
    using assms(2,5) by (simp add: load_env_def env_lines_other)
  have "find_setting k (ls @ (k @ ''=${'' @ k @ ''}'') # rest) = ''${'' @ k @ ''}''"
    using assms(4)
  proof (induction ls)
    case Nil
    have "trim_prefix ((k @ ''='') @ ''${'' @ k @ ''}'') (k @ ''='') = ''${'' @ k @ ''}''"
      by (rule trim_prefix_append)
    then show ?case by simp
  qed simp
  with assms(1-3) keep show ?thesis by (simp add: bot_get_env_def getenv_def)
qed

theorem self_reference_taken_literally_witness:
  "bot_get_env (env_host ''TELEGRAM_BOT_TOKEN=${TELEGRAM_BOT_TOKEN}'') []
     (load_env (env_host ''TELEGRAM_BOT_TOKEN=${TELEGRAM_BOT_TOKEN}'') []
        (\<lambda>_. None) quiet_machine) ''TELEGRAM_BOT_TOKEN'' quiet_machine = ''${TELEGRAM_BOT_TOKEN}''"
proof -
  let ?data = "''TELEGRAM_BOT_TOKEN=${TELEGRAM_BOT_TOKEN}''"
  have unset: "getenv (\<lambda>_. None) ''TELEGRAM_BOT_TOKEN'' = []" by (simp add: getenv_def)
  have read: "h_read (env_host ?data) [] quiet_machine = Inr ?data"
    by (simp add: env_host_def)
  have ls: "env_lines ?data = [] @ (''TELEGRAM_BOT_TOKEN'' @ ''=${'' @ ''TELEGRAM_BOT_TOKEN'' @ ''}'') # []"
    by code_simp
  have kv: "key_value ?data = Some (''TELEGRAM_BOT_TOKEN'', ''${TELEGRAM_BOT_TOKEN}'')" by code_simp
  have self: "self_reference ''TELEGRAM_BOT_TOKEN'' ''${TELEGRAM_BOT_TOKEN}''" by code_simp
  have refs: "\<forall>l \<in> set (env_lines ?data). \<forall>v. key_value l = Some (''TELEGRAM_BOT_TOKEN'', v) \<longrightarrow>
      self_reference ''TELEGRAM_BOT_TOKEN'' v"
    unfolding ls using kv self by simp
  have none: "\<forall>l \<in> set []. \<not> has_prefix l (''TELEGRAM_BOT_TOKEN'' @ ''='')" by simp
  from self_reference_taken_literally [OF unset read ls none refs] show ?thesis by simp
qed

end
