(* ===== verification/Bot.thy ===== *)
theory Bot
  imports Router BotEnv
begin

text \<open>
  \<open>integrations/telegram/cmd/bot/main.go\<close>: the conversational bot. It answers messages through its
  commands and the router, and beside that runs its own copy of the audit loop of
  \<open>integrations/telegram/runtime/main.go\<close>, with a state of its own in the same state file.

  The two goroutines share the disk but no state: the audit loop owns the audit state, the
  message loop the router and its memory. A run of the bot is a sequence of steps, each a tick of
  the audit loop or an update (\<open>bot_reach\<close>). The file does not compile as committed (\<open>apiKey\<close>
  is declared twice in \<open>main\<close>); the second declaration only feeds a log line.
\<close>

section \<open>The audit state\<close>

record bot_runtime =
  bs_last_audit :: int
  bs_known :: "(string, bool) gomap option"
  bs_findings :: int
  bs_running :: bool

definition zero_bot :: bot_runtime where
  "zero_bot = \<lparr>bs_last_audit = 0, bs_known = None, bs_findings = 0, bs_running = False\<rparr>"

text \<open>The fields have no tags: \<open>json.Marshal\<close> writes them under their Go names.\<close>

definition bot_state_json :: "'w host \<Rightarrow> bot_runtime \<Rightarrow> json option" where
  "bot_state_json H b =
     map_option (\<lambda>audit. JObj [(''LastAuditRun'', audit),
         (''KnownFindings'', bool_map_json (bs_known b)),
         (''FindingsCount'', JNum (show_int (bs_findings b))),
         (''IsRunning'', JBool (bs_running b))])
       (time_json H (bs_last_audit b))"

definition save_bot_state :: "'w host \<Rightarrow> bot_runtime \<Rightarrow> 'w \<Rightarrow> 'w" where
  "save_bot_state H b w =
     (case bot_state_json H b of
        None \<Rightarrow> w
      | Some j \<Rightarrow> h_write H ''/tmp/runtime_state.json'' (h_render H j) w)"

definition bot_fields :: "string list" where
  "bot_fields = [''last_audit_run'', ''findings_count'', ''known_findings'', ''is_running'']"

definition set_bot_field :: "'w host \<Rightarrow> string \<Rightarrow> bot_runtime tdecoder" where
  "set_bot_field H n v b =
     (if n = ''last_audit_run'' then
        (case tdec_time H v (bs_last_audit b) of (x, e) \<Rightarrow> (b\<lparr>bs_last_audit := x\<rparr>, e))
      else if n = ''findings_count'' then
        (case plain dec_int v (bs_findings b) of (x, e) \<Rightarrow> (b\<lparr>bs_findings := x\<rparr>, e))
      else if n = ''known_findings'' then
        (case plain dec_bool_map v (bs_known b) of (x, e) \<Rightarrow> (b\<lparr>bs_known := x\<rparr>, e))
      else (case plain dec_bool v (bs_running b) of (x, e) \<Rightarrow> (b\<lparr>bs_running := x\<rparr>, e)))"

definition load_bot_state :: "'w host \<Rightarrow> json_lib \<Rightarrow> bot_runtime \<Rightarrow> 'w \<Rightarrow> bot_runtime" where
  "load_bot_state H L b w =
     (case h_read H ''/tmp/runtime_state.json'' w of
        Inl e \<Rightarrow> b
      | Inr data \<Rightarrow>
          (case tunmarshal L (tdec_struct (set_bot_field H) bot_fields) data zero_bot of
             (state, err) \<Rightarrow>
               if err then b
               else b\<lparr>bs_last_audit := bs_last_audit state, bs_findings := bs_findings state,
                      bs_running := bs_running state,
                      bs_known := (if bs_known state \<noteq> None then bs_known state else bs_known b)\<rparr>))"

definition start_bot_state :: "'w host \<Rightarrow> json_lib \<Rightarrow> 'w \<Rightarrow> bot_runtime" where
  "start_bot_state H L w =
     load_bot_state H L (zero_bot\<lparr>bs_known := Some [], bs_running := True\<rparr>) w"

section \<open>The second copy of the audit\<close>

definition generate_bot_finding_hash :: "jmap \<Rightarrow> string" where
  "generate_bot_finding_hash f =
     jstring f ''title'' @ ''|'' @ jstring f ''severity'' @ ''|'' @ jstring f ''evidence''"

fun find_bot_new_findings :: "jmap list \<Rightarrow> bot_runtime \<Rightarrow> (jmap list \<times> bot_runtime) outcome" where
  "find_bot_new_findings [] b = Ret ([], b)"
| "find_bot_new_findings (f # fs) b =
     (let hash = generate_bot_finding_hash f in
      if known (bs_known b) hash then find_bot_new_findings fs b
      else
        (case bs_known b of
           None \<Rightarrow> Panic nil_map_entry
         | Some m \<Rightarrow>
             obind (find_bot_new_findings fs (b\<lparr>bs_known := Some (put hash True m)\<rparr>)) (\<lambda>(new, b').
               Ret (f # new, b'))))"

definition load_bot_findings :: "'w host \<Rightarrow> json_lib \<Rightarrow> 'w \<Rightarrow> jmap list outcome" where
  "load_bot_findings H L w =
     (case h_dir H ''/tmp'' w of
        None \<Rightarrow> Ret []
      | Some files \<Rightarrow>
          obind (newest_entry files ([], 0)) (\<lambda>(latest, _).
            if latest = [] then Ret []
            else
              (case h_read H latest w of
                 Inl e \<Rightarrow> Ret []
               | Inr data \<Rightarrow> Ret (decode_findings L data))))"

definition classify_bot_risk :: "unicode_tables \<Rightarrow> jmap \<Rightarrow> string" where
  "classify_bot_risk u f =
     (let title = to_lower u (jstring f ''title''); content = to_lower u (jstring f ''content'');
          severity = jstring f ''severity'' in
      if list_ex (\<lambda>kw. contains title kw \<or> contains content kw)
           [''auth'', ''payment'', ''runtime'', ''core'', ''architecture'', ''schema'', ''infra'',
            ''security''] then ''high''
      else if severity = ''critical'' \<or> severity = ''high'' then ''high''
      else if list_ex (contains title) [''lint'', ''import'', ''unused'', ''nil'', ''log'', ''build'']
      then ''low''
      else ''medium'')"

definition bot_send_alert :: "'w host \<Rightarrow> environ \<Rightarrow> string \<Rightarrow> 'w \<Rightarrow> 'w" where
  "bot_send_alert H env msg w =
     (let chat_id = getenv env ''TELEGRAM_CHAT_ID'' in
      if chat_id \<noteq> []
      then h_send H (case sscan_int chat_id of Some n \<Rightarrow> n | None \<Rightarrow> 0) ''Markdown'' msg w
      else w)"

definition trigger_bot_executor ::
    "'w host \<Rightarrow> process \<Rightarrow> bot_paths \<Rightarrow> environ \<Rightarrow> unicode_tables \<Rightarrow> jmap \<Rightarrow> 'w \<Rightarrow> 'w" where
  "trigger_bot_executor H P paths env u f w =
     (let title = jstring f ''title''; risk = classify_bot_risk u f;
          tmp_file = ''/tmp/executor_finding.json'' in
      if risk = ''low'' then
        (case h_run H [''bash'', bp_executor paths, ''-f'', tmp_file] (resolve_root P env)
                (h_write H tmp_file (h_render H (canonical (JObj f))) w) of
           ((out, Some e), w) \<Rightarrow>
             bot_send_alert H env
               (''Executor failed for '' @ squote @ title @ squote @ '': '' @ e @ nl @ out) w
         | ((out, None), w) \<Rightarrow>
             bot_send_alert H env (check_mark @ '' Executor applied fix for: '' @ title) w)
      else if risk = ''medium'' then
        bot_send_alert H env (lock_sign @ '' MEDIUM RISK: '' @ title @ nl @ ''Requires approval'') w
      else if risk = ''high'' then
        bot_send_alert H env (''HIGH RISK: '' @ title @ '' - BLOCKED - manual review required'') w
      else w)"

definition bot_finding_block :: "unicode_tables \<Rightarrow> jmap \<Rightarrow> string" where
  "bot_finding_block u f =
     (let risk = classify_bot_risk u f; evidence = jstring f ''evidence'';
          emoji = (if risk = ''high'' then red else if risk = ''low'' then green else yellow)
      in emoji @ '' *'' @ jstring f ''title'' @ ''*'' @ nl @
         ''Severity: '' @ jstring f ''severity'' @ '' | Risk: '' @ risk @ nl @
         (if evidence \<noteq> [] then ''Evidence: '' @ evidence @ nl else []) @ nl)"

fun bot_notification_loop :: "unicode_tables \<Rightarrow> int \<Rightarrow> int \<Rightarrow> jmap list \<Rightarrow> string" where
  "bot_notification_loop u n i [] = []"
| "bot_notification_loop u n i (f # fs) =
     bot_finding_block u f @
     (if 4 \<le> i then ''... and '' @ show_int (n - 4) @ '' more''
      else bot_notification_loop u n (i + 1) fs)"

definition format_bot_notification :: "unicode_tables \<Rightarrow> jmap list \<Rightarrow> string" where
  "format_bot_notification u fs =
     bell @ '' *NEW FINDINGS DETECTED*'' @ nl @ nl @ bot_notification_loop u (int (length fs)) 0 fs"

definition run_bot_scheduled_audit ::
    "'w host \<Rightarrow> process \<Rightarrow> bot_paths \<Rightarrow> environ \<Rightarrow> json_lib \<Rightarrow> unicode_tables \<Rightarrow> bot_runtime \<Rightarrow> 'w \<Rightarrow>
       unit outcome \<times> bot_runtime \<times> 'w" where
  "run_bot_scheduled_audit H P paths env L u b w =
     (case h_now H w of (now, w) \<Rightarrow>
        (let b = b\<lparr>bs_last_audit := now\<rparr> in
         case h_run H [''bash'', bp_auditors paths] (resolve_root P env) w of
           ((out, Some e), w) \<Rightarrow>
             (Ret (), b, bot_send_alert H env (''Auditor failed: '' @ e @ nl @ out) w)
         | ((out, None), w) \<Rightarrow>
             (case load_bot_findings H L w of
                Panic p \<Rightarrow> (Panic p, b, w)
              | Ret fs \<Rightarrow>
                  (let b = b\<lparr>bs_findings := int (length fs)\<rparr> in
                   case find_bot_new_findings fs b of
                     Panic p \<Rightarrow> (Panic p, b, w)
                   | Ret (new, b) \<Rightarrow>
                       (let w = (if new = [] then w
                                 else fold (trigger_bot_executor H P paths env u) new
                                        (bot_send_alert H env (format_bot_notification u new) w))
                        in (Ret (), b, save_bot_state H b w))))))"

section \<open>Messages\<close>

definition help_text :: string where
  "help_text = ''Welcome to SMART-WORKER Operations'' @ nl @ nl @ ''Commands:'' @ nl @
     ''/audit - Run audit'' @ nl @ ''/findings - Show latest findings  '' @ nl @
     ''/status - Runtime status'' @ nl @ nl @ ''Or talk naturally:'' @ nl @
     dquote @ ''auditor, explain findings'' @ dquote @ nl @
     dquote @ ''executor, why blocked?'' @ dquote @ nl @
     dquote @ ''runtime, status'' @ dquote @ nl @ nl @ ''NOT: execute code, modify repo''"

text \<open>The command line of the auditor is built and dropped.\<close>

definition run_audit :: string where
  "run_audit = ''Running audit...'' @ nl @ ''(Audit would run asynchronously)''"

definition findings_text :: "op_finding list \<Rightarrow> string" where
  "findings_text fs =
     (if fs = [] then ''No findings. Run /audit first.''
      else ''Latest findings:'' @ nl @ nl @
           concat (map (\<lambda>f. severity_emoji (of_severity f) @ '' ['' @ of_severity f @ ''] '' @
                              of_title f @ nl @ ''   '' @ of_evidence f @ nl @ nl) (take 5 fs)))"

definition handle_command ::
    "'w host \<Rightarrow> json_lib \<Rightarrow> string \<Rightarrow> op_memory option \<Rightarrow> 'w \<Rightarrow> string outcome \<times> op_memory option" where
  "handle_command H L text mem w =
     (case text_fields text of
        [] \<Rightarrow> (Panic ''index out of range'', mem)
      | command # _ \<Rightarrow>
          if command = ''/start'' \<or> command = ''/help'' then (Ret help_text, mem)
          else if command = ''/audit'' then (Ret run_audit, mem)
          else if command = ''/findings'' then
            (case mem of
               None \<Rightarrow> (Panic nil_dereference, mem)
             | Some m \<Rightarrow>
                 (let m = load_from_disk H L w m
                  in (Ret (findings_text (get_latest_findings m)), Some m)))
          else if command = ''/status'' then
            (case mem of
               None \<Rightarrow> (Panic nil_dereference, mem)
             | Some m \<Rightarrow>
                 (let m = load_from_disk H L w m in
                  case get_runtime_status m of
                    (status, pid, running) \<Rightarrow>
                      (Ret (''Runtime Status:'' @ nl @ runtime_report pid running), Some m)))
          else (Ret (''Unknown command: '' @ command), mem))"

definition handle_message ::
    "unicode_tables \<Rightarrow> 'w net \<Rightarrow> 'w host \<Rightarrow> json_lib \<Rightarrow> environ \<Rightarrow> string \<Rightarrow> router \<Rightarrow> 'w \<Rightarrow>
       (string outcome \<times> router \<times> 'w) option" where
  "handle_message u N H L env text r w =
     (let text = trim_space text in
      if has_prefix text ''/'' then
        (case handle_command H L text (ro_memory r) w of
           (out, mem) \<Rightarrow> Some (out, r\<lparr>ro_memory := mem\<rparr>, w))
      else
        (case ro_memory r of
           None \<Rightarrow> Some (Panic nil_dereference, r, w)
         | Some m \<Rightarrow>
             (case route_message u N H L env text (r\<lparr>ro_memory := Some (load_from_disk H L w m)\<rparr>) w of
                None \<Rightarrow> None
              | Some (Panic p, r, w) \<Rightarrow> Some (Panic p, r, w)
              | Some (Ret a, r, w) \<Rightarrow> Some (Ret (ro_content a), r, w))))"

definition send_message :: "'w host \<Rightarrow> int \<Rightarrow> string \<Rightarrow> 'w \<Rightarrow> 'w" where
  "send_message H chat text w = h_send H chat ''Markdown'' text w"

section \<open>The program\<close>

text \<open>
  \<open>main\<close> up to its loops: the paths come from the environment at start, the file fills the
  environment, a missing OpenHands key panics, a missing token ends the program. \<open>new_bot\<close> is
  \<open>tgbotapi.NewBotAPI\<close>, which asks Telegram whether the token is good: its error, if any.
\<close>

datatype booted =
    Fatal string
  | Booted bot_paths environ bot_runtime router

definition no_key :: string where
  "no_key = ''OPENHANDS_API_KEY environment variable is required but not found. aborting startup.''"

definition boot ::
    "'w host \<Rightarrow> json_lib \<Rightarrow> process \<Rightarrow> (string \<Rightarrow> goerr option) \<Rightarrow> environ \<Rightarrow> 'w \<Rightarrow> booted outcome" where
  "boot H L P new_bot env w =
     (let paths = init_paths P env;
          env = load_env H (bp_env_file paths) env w
      in if getenv env ''OPENHANDS_API_KEY'' = [] then Panic no_key
         else
           (let token = bot_get_env H (bp_env_file paths) env ''TELEGRAM_BOT_TOKEN'' w in
            if token = [] then Ret (Fatal ''TELEGRAM_BOT_TOKEN not set'')
            else
              (case new_bot token of
                 Some e \<Rightarrow> Panic e
               | None \<Rightarrow>
                   Ret (Booted paths env (start_bot_state H L w)
                          (new_router env (load_from_disk H L w new_operational_memory))))))"

text \<open>The message loop on one update: a chat and a text, or no message.\<close>

definition bot_update ::
    "unicode_tables \<Rightarrow> 'w net \<Rightarrow> 'w host \<Rightarrow> json_lib \<Rightarrow> environ \<Rightarrow> (int \<times> string) option \<Rightarrow> router \<Rightarrow> 'w \<Rightarrow>
       (unit outcome \<times> router \<times> 'w) option" where
  "bot_update u N H L env update r w =
     (case update of
        None \<Rightarrow> Some (Ret (), r, w)
      | Some (chat, text) \<Rightarrow>
          (case handle_message u N H L env text r w of
             None \<Rightarrow> None
           | Some (Panic p, r, w) \<Rightarrow> Some (Panic p, r, w)
           | Some (Ret out, r, w) \<Rightarrow> Some (Ret (), r, send_message H chat out w)))"

datatype bot_op =
    BotTick
  | BotUpdate "(int \<times> string) option"

fun bot_apply ::
    "unicode_tables \<Rightarrow> 'w net \<Rightarrow> 'w host \<Rightarrow> json_lib \<Rightarrow> process \<Rightarrow> bot_paths \<Rightarrow> environ \<Rightarrow> bot_op \<Rightarrow>
       bot_runtime \<times> router \<times> 'w \<Rightarrow> (unit outcome \<times> bot_runtime \<times> router \<times> 'w) option" where
  "bot_apply u N H L P paths env BotTick (b, r, w) =
     (case run_bot_scheduled_audit H P paths env L u b w of (x, b, w) \<Rightarrow> Some (x, b, r, w))"
| "bot_apply u N H L P paths env (BotUpdate update) (b, r, w) =
     (case bot_update u N H L env update r w of
        None \<Rightarrow> None
      | Some (x, r, w) \<Rightarrow> Some (x, b, r, w))"

text \<open>
  The states between two steps; a panic ends the program. Between steps the world may change by
  itself: files appear and go, the clock moves.
\<close>

inductive bot_step ::
    "unicode_tables \<Rightarrow> 'w net \<Rightarrow> 'w host \<Rightarrow> json_lib \<Rightarrow> process \<Rightarrow> bot_paths \<Rightarrow> environ \<Rightarrow>
       bot_runtime \<times> router \<times> 'w \<Rightarrow> bot_runtime \<times> router \<times> 'w \<Rightarrow> bool"
  for u N H L P paths env where
  bot_does: "bot_apply u N H L P paths env op s = Some (Ret (), s') \<Longrightarrow>
    bot_step u N H L P paths env s s'"
| bot_world: "bot_step u N H L P paths env (b, r, w) (b, r, w')"

abbreviation bot_reach ::
    "unicode_tables \<Rightarrow> 'w net \<Rightarrow> 'w host \<Rightarrow> json_lib \<Rightarrow> process \<Rightarrow> bot_paths \<Rightarrow> environ \<Rightarrow>
       bot_runtime \<times> router \<times> 'w \<Rightarrow> bot_runtime \<times> router \<times> 'w \<Rightarrow> bool" where
  "bot_reach u N H L P paths env \<equiv> reaches (bot_step u N H L P paths env)"

section \<open>The second tracker\<close>

interpretation bt: finding_tracker generate_bot_finding_hash find_bot_new_findings bs_known
proof
  fix f :: jmap and fs :: "jmap list" and b :: bot_runtime and m :: "(string, bool) gomap"
  show "find_bot_new_findings [] b = Ret ([], b)" by simp
  show "find_bot_new_findings (f # fs) b = find_bot_new_findings fs b"
    if "known (bs_known b) (generate_bot_finding_hash f)" using that by simp
  show "find_bot_new_findings (f # fs) b = Panic nil_map_entry" if "bs_known b = None"
    using that by (simp add: known_def)
  show "\<exists>b'. bs_known b' = Some (put (generate_bot_finding_hash f) True m) \<and>
      find_bot_new_findings (f # fs) b =
        obind (find_bot_new_findings fs b') (\<lambda>(new, b''). Ret (f # new, b''))"
    if "\<not> known (bs_known b) (generate_bot_finding_hash f)" "bs_known b = Some m"
    using that by (intro exI [of _ "b\<lparr>bs_known := Some (put (generate_bot_finding_hash f) True m)\<rparr>"]) simp
qed

section \<open>The two copies\<close>

lemma bot_hash_eq: "generate_bot_finding_hash = generate_finding_hash"
  by (rule ext) (simp add: generate_bot_finding_hash_def generate_finding_hash_def)

lemma bot_risk_eq: "classify_bot_risk = classify_risk"
  by (intro ext) (simp only: classify_bot_risk_def classify_risk_def high_risk_keywords_def
      low_risk_keywords_def)

lemma bot_alert_eq: "bot_send_alert = send_alert"
  by (intro ext) (simp add: bot_send_alert_def send_alert_def)

lemma bot_findings_eq: "load_bot_findings = load_findings"
  by (intro ext) (simp add: load_bot_findings_def load_findings_def)

lemma bot_block_eq: "bot_finding_block = finding_block"
  by (intro ext) (simp add: bot_finding_block_def finding_block_def bot_risk_eq)

lemma bot_loop_eq: "bot_notification_loop u n i fs = notification_loop u n i fs"
  by (induction u n i fs rule: notification_loop.induct) (simp_all add: bot_block_eq)

lemma bot_notification_eq: "format_bot_notification = format_findings_notification"
  by (intro ext) (simp add: format_bot_notification_def format_findings_notification_def bot_loop_eq)

definition same_report :: "(jmap list \<times> bot_runtime) outcome \<Rightarrow> (jmap list \<times> runtime_state) outcome \<Rightarrow> bool" where
  "same_report x y \<longleftrightarrow>
     (case (x, y) of
        (Ret (new, b), Ret (new', s)) \<Rightarrow> new = new' \<and> bs_known b = rs_known s
      | (Panic p, Panic q) \<Rightarrow> p = q
      | _ \<Rightarrow> False)"

lemma same_report_obind:
  "same_report x y \<Longrightarrow>
     same_report (obind x (\<lambda>(new, b). Ret (f # new, b))) (obind y (\<lambda>(new, s). Ret (f # new, s)))"
  by (cases x; cases y) (auto simp: same_report_def)

lemma bot_tracker_eq:
  "bs_known b = rs_known s \<Longrightarrow> same_report (find_bot_new_findings fs b) (find_new_findings fs s)"
proof (induction fs arbitrary: b s)
  case Nil
  then show ?case by (simp add: same_report_def)
next
  case (Cons f fs)
  let ?h = "generate_finding_hash f"
  show ?case
  proof (cases "known (rs_known s) ?h")
    case True
    with Cons show ?thesis by (simp add: bot_hash_eq)
  next
    case False
    show ?thesis
    proof (cases "rs_known s")
      case None
      with Cons.prems False show ?thesis by (simp add: bot_hash_eq same_report_def)
    next
      case (Some m)
      have "same_report (find_bot_new_findings fs (b\<lparr>bs_known := Some (put ?h True m)\<rparr>))
          (find_new_findings fs (s\<lparr>rs_known := Some (put ?h True m)\<rparr>))"
        by (rule Cons.IH) simp
      from same_report_obind [OF this, of f] Cons.prems False Some show ?thesis
        by (simp add: bot_hash_eq)
    qed
  qed
qed

definition runtime_paths :: bot_paths where
  "runtime_paths = \<lparr>bp_auditors = auditors_path, bp_executor = executor_path, bp_env_file = []\<rparr>"

lemma bot_trigger_eq:
  assumes "resolve_root P env = project_dir" and "classify_risk u f \<noteq> ''high''"
  shows "trigger_bot_executor H P runtime_paths env u f w = snd (trigger_executor H env u f (s, w))"
  using assms by (simp add: trigger_bot_executor_def trigger_executor_def bot_risk_eq bot_alert_eq
      runtime_paths_def finding_file_def Let_def)

text \<open>What the trackers and the triggers leave of the audit state.\<close>

lemma bot_tracker_frame:
  "find_bot_new_findings fs b = Ret (new, b') \<Longrightarrow>
     bs_last_audit b' = bs_last_audit b \<and> bs_findings b' = bs_findings b"
  by (induction fs arbitrary: b new b')
    (fastforce simp: Let_def obind_eq_Ret split: if_splits option.splits)+

lemma tracker_frame:
  "find_new_findings fs s = Ret (new, s') \<Longrightarrow>
     rs_last_audit s' = rs_last_audit s \<and> rs_findings s' = rs_findings s"
  by (induction fs arbitrary: s new s')
    (fastforce simp: Let_def obind_eq_Ret split: if_splits option.splits)+

definition audit_result :: "runtime_state \<Rightarrow> int \<times> int \<times> (string, bool) gomap option" where
  "audit_result s = (rs_last_audit s, rs_findings s, rs_known s)"

definition bot_audit_result :: "bot_runtime \<Rightarrow> int \<times> int \<times> (string, bool) gomap option" where
  "bot_audit_result b = (bs_last_audit b, bs_findings b, bs_known b)"

lemma trigger_result: "audit_result (fst (trigger_executor H env u f sw)) = audit_result (fst sw)"
  by (cases sw) (simp add: trigger_executor_def audit_result_def Let_def)

lemma triggers_result: "audit_result (fst (fold (trigger_executor H env u) fs sw)) = audit_result (fst sw)"
  by (induction fs arbitrary: sw) (simp_all add: trigger_result)

lemma notify_result: "audit_result (fst (notify_and_trigger H env u new sw)) = audit_result (fst sw)"
proof (cases sw)
  case (Pair s w)
  have "audit_result (s\<lparr>rs_last_notification := now\<rparr>) = audit_result s" for now
    by (simp add: audit_result_def)
  then show ?thesis by (simp add: Pair notify_and_trigger_def triggers_result split: prod.splits)
qed

text \<open>
  The two audits of a world \<open>w\<close> as wholes: the same outcome, time, count and table; either the same
  world is left (nothing was saved), or both have come to the world \<open>w0\<close> of the auditors with the
  same new findings, which each acts on in its own way and then saves its own state.
\<close>

definition same_audit ::
    "'w host \<Rightarrow> process \<Rightarrow> environ \<Rightarrow> json_lib \<Rightarrow> unicode_tables \<Rightarrow> runtime_state \<Rightarrow> 'w \<Rightarrow>
       unit outcome \<times> bot_runtime \<times> 'w \<Rightarrow> unit outcome \<times> runtime_state \<times> 'w \<Rightarrow> bool" where
  "same_audit H P env L u s w x y \<longleftrightarrow>
     fst x = fst y \<and> bot_audit_result (fst (snd x)) = audit_result (fst (snd y)) \<and>
     (snd (snd x) = snd (snd y) \<or>
      (let w0 = snd (h_run H [''bash'', auditors_path] project_dir (snd (h_now H w))) in
       \<exists>fs new s0. load_findings H L w0 = Ret fs \<and> find_new_findings fs s = Ret (new, s0) \<and>
         snd (snd x) = save_bot_state H (fst (snd x))
           (if new = [] then w0
            else fold (trigger_bot_executor H P runtime_paths env u) new
                   (send_alert H env (format_findings_notification u new) w0)) \<and>
         snd (snd y) = save_state H (fst (snd y))
           (snd (notify_and_trigger H env u new (s0, w0)))))"

lemma trigger_world: "snd (trigger_executor H env u f (s, w)) = snd (trigger_executor H env u f (s', w))"
  by (simp add: trigger_executor_def Let_def)

lemma triggers_world:
  "snd (fold (trigger_executor H env u) fs (s, w)) = snd (fold (trigger_executor H env u) fs (s', w))"
proof (induction fs arbitrary: s s' w)
  case (Cons f fs)
  then show ?case using trigger_world [of H env u f s w s'] by (metis fold_Cons o_apply prod.collapse)
qed simp

lemma notify_world:
  "snd (notify_and_trigger H env u new (s, w)) = snd (notify_and_trigger H env u new (s', w))"
  using triggers_world by (auto simp: notify_and_trigger_def split: prod.splits)

lemma audits_compare:
  assumes root: "resolve_root P env = project_dir"
    and eq: "bs_known b = rs_known s" "bs_findings b = rs_findings s"
  shows "same_audit H P env L u s w (run_bot_scheduled_audit H P runtime_paths env L u b w)
    (run_scheduled_audit H env L u s w)"
proof -
  obtain now w1 where now: "h_now H w = (now, w1)" by fastforce
  obtain out e w2 where aud: "h_run H [''bash'', auditors_path] project_dir w1 = ((out, e), w2)"
    by (cases "h_run H [''bash'', auditors_path] project_dir w1") auto
  have paths: "bp_auditors runtime_paths = auditors_path" by (simp add: runtime_paths_def)
  note runs = run_bot_scheduled_audit_def run_scheduled_audit_def root now aud paths bot_alert_eq
    bot_findings_eq bot_notification_eq
  show ?thesis
  proof (cases "e = None \<and> (\<exists>fs. load_findings H L w2 = Ret fs)")
    case False
    show ?thesis
    proof (cases e)
      case (Some t)
      then show ?thesis using eq by (simp add: runs same_audit_def bot_audit_result_def audit_result_def)
    next
      case None
      with False obtain p where "load_findings H L w2 = Panic p" by (cases "load_findings H L w2") auto
      with None show ?thesis
        using eq by (simp add: runs same_audit_def bot_audit_result_def audit_result_def)
    qed
  next
    case True
    then obtain fs where fs: "load_findings H L w2 = Ret fs" and e: "e = None" by blast
    let ?b = "b\<lparr>bs_last_audit := now, bs_findings := int (length fs)\<rparr>"
    let ?s = "s\<lparr>rs_last_audit := now, rs_new := 0, rs_findings := int (length fs)\<rparr>"
    have same: "same_report (find_bot_new_findings fs ?b) (find_new_findings fs ?s)"
      by (rule bot_tracker_eq) (simp add: eq)
    show ?thesis
    proof (cases "find_bot_new_findings fs ?b")
      case (Panic p)
      with same have "find_new_findings fs ?s = Panic p" by (auto simp: same_report_def split: outcome.splits)
      with Panic fs e eq show ?thesis
        by (simp add: runs same_audit_def bot_audit_result_def audit_result_def)
    next
      case (Ret nb)
      obtain new b1 where b1: "find_bot_new_findings fs ?b = Ret (new, b1)" using Ret by (cases nb) auto
      with same obtain s1 where s1: "find_new_findings fs ?s = Ret (new, s1)" "bs_known b1 = rs_known s1"
        by (auto simp: same_report_def split: outcome.splits)
      have "same_report (find_bot_new_findings fs ?b) (find_new_findings fs s)"
        by (rule bot_tracker_eq) (simp add: eq)
      with b1 obtain s0 where s0: "find_new_findings fs s = Ret (new, s0)"
        by (auto simp: same_report_def split: outcome.splits)
      define s2 where "s2 = s1\<lparr>rs_new := int (length new), rs_findings := int (length fs)\<rparr>"
      have "bot_audit_result b1 = audit_result s2"
        using bot_tracker_frame [OF b1] tracker_frame [OF s1(1)] s1(2)
        by (simp add: bot_audit_result_def audit_result_def s2_def)
      moreover have "run_scheduled_audit H env L u s w =
          (Ret (), fst (notify_and_trigger H env u new (s2, w2)),
           save_state H (fst (notify_and_trigger H env u new (s2, w2)))
             (snd (notify_and_trigger H env u new (s2, w2))))"
        using fs e s1 by (simp add: runs s2_def Let_def case_prod_beta)
      moreover have "run_bot_scheduled_audit H P runtime_paths env L u b w =
          (Ret (), b1, save_bot_state H b1
             (if new = [] then w2
              else fold (trigger_bot_executor H P runtime_paths env u) new
                     (send_alert H env (format_findings_notification u new) w2)))"
        using fs e b1 by (simp add: runs Let_def)
      ultimately show ?thesis
        using notify_result [of H env u new "(s2, w2)"] notify_world [of H env u new s2 w2 s0]
          now aud fs s0 unfolding same_audit_def by (auto simp: Let_def)
    qed
  qed
qed

text \<open>
  C22. The bot's audit is a copy of the runtime's, and where it is not. Hashes, risk classes, the findings
  loaded and the notification are the same functions; from equal tables the trackers report the same
  findings, panic alike and end in equal tables. Where the bot's paths are the runtime's and its
  project root is the runtime's directory, a finding that is not of high risk is acted on in the
  same way and one of high risk is only alerted of, with different texts; and the two audits as
  wholes, started with equal tables and counts in one world, come to the same outcome, audit time,
  count and table, and either leave the same world or have reached one world with the same new
  findings. From there they differ: the runtime reads the clock after its notification, high
  risk has its own text, and each saves its own state under its own member names (C19).
\<close>

theorem audit_copies_agree:
  "generate_bot_finding_hash = generate_finding_hash \<and> classify_bot_risk = classify_risk \<and>
   load_bot_findings H = load_findings H \<and> format_bot_notification = format_findings_notification \<and>
   (bs_known b = rs_known s \<longrightarrow> same_report (find_bot_new_findings fs b) (find_new_findings fs s)) \<and>
   (resolve_root P env = project_dir \<longrightarrow>
      (if classify_risk u f = ''high''
       then \<exists>t t'. t \<noteq> t' \<and> trigger_bot_executor H P runtime_paths env u f w = send_alert H env t w \<and>
          snd (trigger_executor H env u f (s, w)) = send_alert H env t' w
       else trigger_bot_executor H P runtime_paths env u f w = snd (trigger_executor H env u f (s, w)))) \<and>
   (resolve_root P env = project_dir \<longrightarrow> bs_known b = rs_known s \<longrightarrow> bs_findings b = rs_findings s \<longrightarrow>
      same_audit H P env L u s w (run_bot_scheduled_audit H P runtime_paths env L u b w)
        (run_scheduled_audit H env L u s w))"
proof -
  have high: "\<exists>t t'. t \<noteq> t' \<and> trigger_bot_executor H P runtime_paths env u f w = send_alert H env t w \<and>
      snd (trigger_executor H env u f (s, w)) = send_alert H env t' w"
    if "classify_risk u f = ''high''"
  proof (intro exI conjI)
    show "''HIGH RISK: '' @ jstring f ''title'' @ '' - BLOCKED - manual review required'' \<noteq>
      no_entry @ '' HIGH RISK: '' @ jstring f ''title'' @ nl @ ''BLOCKED - manual review required''"
      by (simp add: encode_rune_def)
  qed (use that in \<open>simp_all add: trigger_bot_executor_def trigger_executor_def bot_risk_eq bot_alert_eq\<close>)
  have acts: "resolve_root P env = project_dir \<longrightarrow>
      (if classify_risk u f = ''high''
       then \<exists>t t'. t \<noteq> t' \<and> trigger_bot_executor H P runtime_paths env u f w = send_alert H env t w \<and>
          snd (trigger_executor H env u f (s, w)) = send_alert H env t' w
       else trigger_bot_executor H P runtime_paths env u f w = snd (trigger_executor H env u f (s, w)))"
    using high bot_trigger_eq [of P env u f H w s] by presburger
  have track: "bs_known b = rs_known s \<longrightarrow>
      same_report (find_bot_new_findings fs b) (find_new_findings fs s)"
    using bot_tracker_eq [of b s fs] by blast
  have whole: "resolve_root P env = project_dir \<longrightarrow> bs_known b = rs_known s \<longrightarrow>
      bs_findings b = rs_findings s \<longrightarrow>
      same_audit H P env L u s w (run_bot_scheduled_audit H P runtime_paths env L u b w)
        (run_scheduled_audit H env L u s w)"
    by (intro impI audits_compare)
  show ?thesis
    by (intro conjI bot_hash_eq bot_risk_eq bot_notification_eq track acts whole) (simp add: bot_findings_eq)
qed

lemma bot_names_unread:
  "list_all (\<lambda>k. match_field bot_fields k = None \<and> match_field runtime_fields k = None)
     [''LastAuditRun'', ''KnownFindings'', ''FindingsCount'', ''IsRunning'']"
  by code_simp

text \<open>
  C19. The bot does not remember: it writes its state under other member names than it reads. After a
  save and a restart its table of known findings is empty and it counts as not running, so every
  finding it has reported is reported again; and since the file is shared, the runtime restarts
  from nothing too.
\<close>

theorem bot_forgets_its_state:
  assumes "file_law H" and "bot_state_json H b = Some j" and "render_law H L j"
  shows "start_bot_state H L (save_bot_state H b w) =
      \<lparr>bs_last_audit = 0, bs_known = Some [], bs_findings = 0, bs_running = False\<rparr> \<and>
    start_runtime H L (save_bot_state H b w) =
      zero_runtime\<lparr>rs_known := Some [], rs_running := True\<rparr> \<and>
    (\<exists>b'. find_bot_new_findings fs (start_bot_state H L (save_bot_state H b w)) =
       Ret (fresh generate_bot_finding_hash {} fs, b'))"
proof -
  obtain ms where j: "j = JObj ms"
    and ms: "map fst ms = [''LastAuditRun'', ''KnownFindings'', ''FindingsCount'', ''IsRunning'']"
    using assms(2) by (auto simp: bot_state_json_def)
  have none: "match_field bot_fields k = None" "match_field runtime_fields k = None"
    if "k \<in> fst ` set ms" for k
    using that bot_names_unread by (auto simp flip: ms simp: list_all_iff)
  have read: "h_read H ''/tmp/runtime_state.json'' (save_bot_state H b w) = Inr (h_render H j)"
    using assms(1,2) by (simp add: save_bot_state_def file_law_def)
  have parse: "js_parse L (h_render H j) = Inr (JObj ms)" using assms(3) by (simp add: render_law_def j)
  have bot: "start_bot_state H L (save_bot_state H b w) =
      \<lparr>bs_last_audit = 0, bs_known = Some [], bs_findings = 0, bs_running = False\<rparr>"
    using none(1) by (simp add: start_bot_state_def load_bot_state_def read tunmarshal_def parse
        tdec_struct_def tdec_members_unmatched zero_bot_def)
  have run: "start_runtime H L (save_bot_state H b w) = zero_runtime\<lparr>rs_known := Some [], rs_running := True\<rparr>"
    using none(2) read by (simp add: start_runtime_def load_state_def state_file_def tunmarshal_def parse
        tdec_struct_def tdec_members_unmatched)
  have "\<exists>b'. find_bot_new_findings fs (start_bot_state H L (save_bot_state H b w)) =
       Ret (fresh generate_bot_finding_hash {} fs, b')"
    using bt.look_reports [of "start_bot_state H L (save_bot_state H b w)" "[]" fs] by (auto simp: bot)
  with bot run show ?thesis by simp
qed


section \<open>Invariants of a run\<close>

lemma words_from_nonempty: "acc \<noteq> [] \<Longrightarrow> words_from acc ps \<noteq> []"
  by (induction acc ps rule: words_from.induct) auto

lemma slash_is_a_word: "has_prefix s ''/'' \<Longrightarrow> text_fields s \<noteq> []"
proof -
  assume "has_prefix s ''/''"
  then obtain t where s: "s = CHR ''/'' # t" by (auto simp: prefix_def)
  have d: "decode_rune s = (47, 1)" by (simp add: s)
  have "\<not> is_space 47" by (simp add: is_space_def space_runes_def)
  with d have "text_fields s = words_from ''/'' (rune_pieces t)"
    by (simp add: text_fields_def rune_pieces.simps [of s]) (simp add: s)
  then show ?thesis using words_from_nonempty by simp
qed

definition mem_ok :: "op_memory \<Rightarrow> bool" where
  "mem_ok m \<longleftrightarrow>
     om_blocked m = [] \<and> om_status m = (if om_running m then ''running'' else ''stopped'')"

definition router_ok :: "router \<Rightarrow> bool" where
  "router_ok r \<longleftrightarrow>
     (\<exists>m. ro_memory r = Some m \<and> mem_ok m) \<and>
     (\<exists>lc. ro_lifecycle r = Some lc \<and> has_openhands lc \<and> lc_ok lc)"

lemma mem_ok_load: "mem_ok m \<Longrightarrow> mem_ok (load_from_disk H L w m)"
  using loads_state [of H L "[w]" m] by (simp add: mem_ok_def loads_def)

lemma mem_ok_new: "mem_ok new_operational_memory"
  by (simp add: mem_ok_def new_operational_memory_def)

lemma context_ok: "router_ok r \<Longrightarrow> router_ok (snd (build_execution_context H L env r w))"
  by (auto simp: router_ok_def build_execution_context_def Let_def mem_ok_load)

lemma history_ok:
  "lc_ok lc \<Longrightarrow> has_openhands lc \<Longrightarrow> lc_add_to_history N role c lc w = (lc', w') \<Longrightarrow>
     lc_ok lc' \<and> has_openhands lc'"
  using push_message_ok by (auto simp: lc_add_to_history_def push_message_def has_openhands_def split: prod.splits)

lemma router_ok_set:
  "router_ok r \<Longrightarrow> lc_ok lc \<Longrightarrow> has_openhands lc \<Longrightarrow> router_ok (r\<lparr>ro_lifecycle := Some lc\<rparr>)"
  by (simp add: router_ok_def)

lemma finish_route_ok:
  assumes fin: "finish_route N msg x lc r w = Some (y, r', w')"
    and r: "router_ok r" and lc: "lc_ok lc" "has_openhands lc"
  shows "router_ok r'"
proof -
  obtain lc2 w2 where h1: "lc_add_to_history N ''user'' msg lc w = (lc2, w2)" by fastforce
  note lc2 = history_ok [OF lc h1]
  have "router_ok (r\<lparr>ro_lifecycle := Some lc3\<rparr>)"
    if "lc_add_to_history N ''assistant'' s lc2 w2 = (lc3, w3)" for s lc3 w3
    using history_ok [OF _ _ that] lc2 r by (blast intro: router_ok_set)
  with fin lc r h1 show ?thesis
    by (auto simp: finish_route_def router_ok_set split: sum.splits if_splits prod.splits)
qed

lemma route_ok:
  assumes "route_message u N H L env msg r w = Some (x, r', w')" and "router_ok r"
  shows "router_ok r'"
proof -
  from assms(2) obtain lc where lc: "ro_lifecycle r = Some lc" "has_openhands lc" and ok: "lc_ok lc"
    by (auto simp: router_ok_def)
  from assms(1) obtain y lc1 w1 where
    ex: "execute u N L None msg (default_repository env) lc w = Some (y, lc1, w1)"
    by (auto simp: route_available [OF lc] split: option.splits)
  have "same_frame lc lc1" by (rule execute_frame [OF ex]) simp
  with lc ok have lc1: "has_openhands lc1" "lc_ok lc1"
    by (simp_all add: same_frame_def has_openhands_def lc_ok_def)
  show ?thesis
  proof (cases y)
    case (Panic p)
    with assms(1) ex lc1 router_ok_set [OF context_ok [OF assms(2)]] show ?thesis
      by (auto simp: route_available [OF lc])
  next
    case (Ret z)
    with assms(1) ex have
      "finish_route N msg z lc1 (snd (build_execution_context H L env r w)) w1 = Some (x, r', w')"
      by (simp add: route_available [OF lc])
    from finish_route_ok [OF this context_ok [OF assms(2)]] lc1 show ?thesis by blast
  qed
qed

lemma handle_command_ok:
  assumes "has_prefix text ''/''" and "mem_ok m"
  shows "\<exists>out m'. handle_command H L text (Some m) w = (Ret out, Some m') \<and> out \<noteq> [] \<and> mem_ok m'"
proof -
  obtain command rest where "text_fields text = command # rest"
    using slash_is_a_word [OF assms(1)] by (cases "text_fields text") auto
  then show ?thesis
    using assms(2) mem_ok_load [OF assms(2), of H L w]
    by (simp add: handle_command_def help_text_def run_audit_def findings_text_def Let_def
        split: prod.splits)
qed

lemma handle_message_ok:
  assumes "handle_message u N H L env text r w = Some (x, r', w')" and "router_ok r"
  shows "router_ok r' \<and> (\<forall>out. x = Ret out \<longrightarrow> out \<noteq> [])"
proof -
  from assms(2) obtain m where m: "ro_memory r = Some m" "mem_ok m" by (auto simp: router_ok_def)
  let ?text = "trim_space text"
  show ?thesis
  proof (cases "has_prefix ?text ''/''")
    case True
    from handle_command_ok [OF True m(2), of H L w] assms m show ?thesis
      by (auto simp: handle_message_def True router_ok_def)
  next
    case False
    let ?r = "r\<lparr>ro_memory := Some (load_from_disk H L w m)\<rparr>"
    have ok: "router_ok ?r" using assms(2) m mem_ok_load by (auto simp: router_ok_def)
    from assms(1) False m obtain y where
      y: "route_message u N H L env ?text ?r w = Some (y, r', w')"
      and x: "x = (case y of Panic p \<Rightarrow> Panic p | Ret a \<Rightarrow> Ret (ro_content a))"
      by (auto simp: handle_message_def split: option.splits outcome.splits)
    from route_ok [OF y ok] have "router_ok r'" .
    moreover have "out \<noteq> []" if "x = Ret out" for out
      using that x y route_typed [of u N H L env ?text ?r w] by (auto simp: well_typed_def split: outcome.splits)
    ultimately show ?thesis by blast
  qed
qed

lemma bot_update_ok:
  assumes "bot_update u N H L env update r w = Some (x, r', w')" and "router_ok r"
  shows "router_ok r'"
  using assms handle_message_ok
  by (fastforce simp: bot_update_def split: option.splits outcome.splits)

lemma newest_entry_panics: "newest_entry es best \<noteq> Panic nil_map_entry"
  by (induction es best rule: newest_entry.induct)
    (auto simp: nil_dereference_def nil_map_entry_def split: option.splits)

lemma load_findings_panics: "load_bot_findings H L w \<noteq> Panic nil_map_entry"
  using newest_entry_panics
  by (auto simp: load_bot_findings_def obind_eq_Panic split: option.splits sum.splits if_splits)

lemma bot_audit_known:
  assumes "bs_known b \<noteq> None" and run: "run_bot_scheduled_audit H P paths env L u b w = (x, b', w')"
  shows "bs_known b' \<noteq> None \<and> x \<noteq> Panic nil_map_entry"
proof -
  obtain now w1 where now: "h_now H w = (now, w1)" by fastforce
  obtain out e w2 where aud: "h_run H [''bash'', bp_auditors paths] (resolve_root P env) w1 = ((out, e), w2)"
    by (cases "h_run H [''bash'', bp_auditors paths] (resolve_root P env) w1") auto
  show ?thesis
  proof (cases e)
    case (Some t)
    with assms now aud show ?thesis by (auto simp: run_bot_scheduled_audit_def)
  next
    case None
    show ?thesis
    proof (cases "load_bot_findings H L w2")
      case (Panic p)
      with assms None now aud load_findings_panics [of H L w2] show ?thesis
        by (auto simp: run_bot_scheduled_audit_def)
    next
      case (Ret fs)
      let ?b = "b\<lparr>bs_last_audit := now, bs_findings := int (length fs)\<rparr>"
      obtain m where "bs_known ?b = Some m" using assms(1) by auto
      from bt.look_reports [OF this, of fs] obtain b1 m1 where
        "find_bot_new_findings fs ?b = Ret (fresh generate_bot_finding_hash (known_set (bs_known ?b)) fs, b1)"
        "bs_known b1 = Some m1" by (elim exE conjE)
      with run None Ret now aud show ?thesis by (auto simp: run_bot_scheduled_audit_def Let_def)
    qed
  qed
qed


lemma new_lifecycle_client:
  "getenv env ''OPENHANDS_API_KEY'' \<noteq> [] \<Longrightarrow>
     \<exists>lc. new_execution_lifecycle env = Inr lc \<and> lc_ok lc \<and> has_openhands lc"
  using new_lifecycle_ok [of env]
  by (auto simp: new_execution_lifecycle_def new_client_from_env_def new_client_def has_openhands_def
      Let_def)

lemma booted_ok:
  assumes "boot H L P new_bot env w = Ret (Booted paths env' b r)"
  shows "getenv env' ''OPENHANDS_API_KEY'' \<noteq> [] \<and> router_ok r \<and> bs_known b \<noteq> None"
proof -
  from assms have key: "getenv env' ''OPENHANDS_API_KEY'' \<noteq> []"
    and b: "b = start_bot_state H L w"
    and r: "r = new_router env' (load_from_disk H L w new_operational_memory)"
    by (auto simp: boot_def Let_def split: if_splits option.splits)
  from new_lifecycle_client [OF key] have "router_ok r"
    by (auto simp: r router_ok_def new_router_def intro: mem_ok_load mem_ok_new)
  moreover have "bs_known b \<noteq> None"
    by (auto simp: b start_bot_state_def load_bot_state_def split: sum.splits prod.splits)
  ultimately show ?thesis using key by blast
qed

interpretation bot_inv: preserved "bot_step u N H L P paths env"
    "\<lambda>(b, r, w). bs_known b \<noteq> None \<and> router_ok r" for u N H L P paths env
proof unfold_locales
  fix s s' :: "bot_runtime \<times> router \<times> 'a"
  assume ok: "case s of (b, r, w) \<Rightarrow> bs_known b \<noteq> None \<and> router_ok r"
    and step: "bot_step u N H L P paths env s s'"
  from step show "case s' of (b, r, w) \<Rightarrow> bs_known b \<noteq> None \<and> router_ok r"
  proof cases
    case (bot_does op)
    obtain b r w where s: "s = (b, r, w)" by (cases s)
    with ok have b: "bs_known b \<noteq> None" "router_ok r" by auto
    show ?thesis
    proof (cases op)
      case BotTick
      with bot_does s b(2) show ?thesis
        by (auto split: prod.splits dest: bot_audit_known [OF b(1)])
    next
      case (BotUpdate update)
      with bot_does s bot_update_ok [OF _ b(2)] b(1) show ?thesis
        by (auto split: option.splits prod.splits)
    qed
  next
    case (bot_world b r w w')
    with ok show ?thesis by simp
  qed
qed

text \<open>
  What comes of a text: a reply that is not empty, or (never for a command) the panic of the
  client, with its cause.
\<close>

definition replied ::
    "'w net \<Rightarrow> json_lib \<Rightarrow> router \<Rightarrow> string \<Rightarrow> string outcome \<Rightarrow> bool" where
  "replied N L r text x \<longleftrightarrow>
     (case x of
        Ret out \<Rightarrow> out \<noteq> []
      | Panic p \<Rightarrow> p = slice_panic \<and> \<not> has_prefix (trim_space text) ''/'' \<and>
          (\<exists>c task_id v. lc_client (the (ro_lifecycle r)) = Some c \<and> task_id \<noteq> [] \<and>
             titled_short N L c task_id v))"

lemma route_outcome:
  assumes "clock_ok N" and "router_ok r"
  shows "\<exists>y r' v. route_message u N H L env msg r w = Some (y, r', v) \<and>
    (\<forall>a. y = Ret a \<longrightarrow> ro_content a \<noteq> []) \<and>
    (\<forall>p. y = Panic p \<longrightarrow> p = slice_panic \<and>
       (\<exists>c task_id v. lc_client (the (ro_lifecycle r)) = Some c \<and> task_id \<noteq> [] \<and>
          titled_short N L c task_id v))"
proof -
  from assms(2) obtain lc where lc: "ro_lifecycle r = Some lc" "has_openhands lc"
    by (auto simp: router_ok_def)
  obtain y lc1 w1 where ex: "execute u N L None msg (default_repository env) lc w = Some (y, lc1, w1)"
    and y: "answers_or_slice_panic N L lc y"
    using execute_answers_or_panics [OF assms(1)] by blast
  show ?thesis
  proof (cases y)
    case (Panic p)
    with ex y lc show ?thesis by (simp add: route_available [OF lc]) blast
  next
    case (Ret z)
    with y obtain s where s: "y = Ret (Inr s)" "s \<noteq> []" by (cases z) auto
    from route_appends [OF lc ex [unfolded s(1)] s(2), of H] s(2) show ?thesis
      by (auto simp: answer_def)
  qed
qed

lemma handle_message_replies:
  assumes "clock_ok N" and "router_ok r"
  shows "\<exists>x r' v. handle_message u N H L env text r w = Some (x, r', v) \<and> replied N L r text x"
proof -
  from assms(2) obtain m where m: "ro_memory r = Some m" "mem_ok m" by (auto simp: router_ok_def)
  let ?text = "trim_space text"
  show ?thesis
  proof (cases "has_prefix ?text ''/''")
    case True
    from handle_command_ok [OF True m(2), of H L w] m show ?thesis
      by (auto simp: handle_message_def True replied_def)
  next
    case False
    let ?r = "r\<lparr>ro_memory := Some (load_from_disk H L w m)\<rparr>"
    have "router_ok ?r" using assms(2) m mem_ok_load by (auto simp: router_ok_def)
    from route_outcome [OF assms(1) this, of u H L env ?text w] obtain y r' v where
      y: "route_message u N H L env ?text ?r w = Some (y, r', v)"
      and ok: "\<forall>a. y = Ret a \<longrightarrow> ro_content a \<noteq> []"
        "\<forall>p. y = Panic p \<longrightarrow> p = slice_panic \<and>
          (\<exists>c task_id v. lc_client (the (ro_lifecycle r)) = Some c \<and> task_id \<noteq> [] \<and>
             titled_short N L c task_id v)"
      by auto
    show ?thesis
    proof (cases y)
      case (Ret a)
      with y ok False m show ?thesis by (simp add: handle_message_def replied_def)
    next
      case (Panic p)
      with y ok False m show ?thesis by (simp add: handle_message_def replied_def)
    qed
  qed
qed

text \<open>
  C15. A run of the bot is safe: once it has booted, in every state it can reach, whatever the messages,
  the ticks and the changes of the disk, the OpenHands client is there, the history holds at most
  50 messages, no operation is recorded as blocked, and the next audit does not write to a nil
  table. An update without a message is skipped; a message is answered by sending a reply that is
  not empty to its chat. The one exception is a text that is not a command and for which the
  service answers a status request with a READY task whose conversation has an identifier of
  fewer than eight bytes and a title: the client then panics, and with it the program ends.
\<close>

theorem bot_run_safe:
  assumes "boot H L P new_bot env0 w0 = Ret (Booted paths env b0 r0)"
    and "bot_reach u N H L P paths env (b0, r0, w0) (b, r, w)" and "clock_ok N"
  shows "openhands_available r \<and> length (lc_history (the (ro_lifecycle r))) \<le> 50 \<and>
    get_blocked_operations (the (ro_memory r)) = [] \<and>
    fst (run_bot_scheduled_audit H P paths env L u b w') \<noteq> Panic nil_map_entry \<and>
    bot_update u N H L env None r w' = Some (Ret (), r, w') \<and>
    (\<exists>x r' v. handle_message u N H L env text r w' = Some (x, r', v) \<and>
       bot_update u N H L env (Some (chat, text)) r w' =
         (case x of
            Ret out \<Rightarrow> Some (Ret (), r', send_message H chat out v)
          | Panic p \<Rightarrow> Some (Panic p, r', v)) \<and>
       replied N L r text x)"
proof -
  from booted_ok [OF assms(1)] bot_inv.ok_reaches [OF assms(2)]
  have ok: "bs_known b \<noteq> None" "router_ok r" by auto
  from ok(2) have "openhands_available r" "length (lc_history (the (ro_lifecycle r))) \<le> 50"
    "get_blocked_operations (the (ro_memory r)) = []"
    by (auto simp: router_ok_def openhands_available_def lc_ok_def mem_ok_def get_blocked_operations_def)
  moreover have "fst (run_bot_scheduled_audit H P paths env L u b w') \<noteq> Panic nil_map_entry"
    using bot_audit_known [OF ok(1)] by (metis prod.collapse)
  moreover obtain x r' v where x: "handle_message u N H L env text r w' = Some (x, r', v)"
    and re: "replied N L r text x"
    using handle_message_replies [OF assms(3) ok(2)] by blast
  moreover have "bot_update u N H L env (Some (chat, text)) r w' =
      (case x of Ret out \<Rightarrow> Some (Ret (), r', send_message H chat out v) | Panic p \<Rightarrow> Some (Panic p, r', v))"
    using x by (simp add: bot_update_def split: outcome.splits)
  moreover have "bot_update u N H L env None r w' = Some (Ret (), r, w')" by (simp add: bot_update_def)
  ultimately show ?thesis by blast
qed

definition bot_env :: environ where
  "bot_env = [''OPENHANDS_API_KEY'' \<mapsto> ''key'', ''TELEGRAM_BOT_TOKEN'' \<mapsto> ''token'']"

definition plain_process :: process where
  "plain_process = \<lparr>pr_executable = None, pr_real = id, pr_cwd = None, pr_exists = (\<lambda>_. False)\<rparr>"

theorem bot_run_safe_witness:
  "\<exists>paths env b r. boot desk_world (scan_table []) plain_process (\<lambda>_. None) bot_env (quiet_machine, 0) =
      Ret (Booted paths env b r) \<and> openhands_available r \<and>
    (\<exists>x r' v. handle_message ascii_tables refused_world desk_world (scan_table []) env '' /status'' r
       (quiet_machine, 0) = Some (Ret x, r', v) \<and> x \<noteq> [])"
proof -
  have "case boot desk_world (scan_table []) plain_process (\<lambda>_. None) bot_env (quiet_machine, 0) of
      Ret (Booted paths env b r) \<Rightarrow> True | _ \<Rightarrow> False"
    by code_simp
  then obtain paths env b r where boot:
    "boot desk_world (scan_table []) plain_process (\<lambda>_. None) bot_env (quiet_machine, 0) =
      Ret (Booted paths env b r)"
    by (auto split: outcome.splits booted.splits)
  have clock: "clock_ok refused_world" by (simp add: refused_world_def clock_ok_beside)
  have cmd: "has_prefix (trim_space '' /status'') ''/''" by code_simp
  note safe = bot_run_safe [OF boot reaches_refl clock, of ascii_tables "(quiet_machine, 0)" "'' /status''" 0]
  from safe obtain x r' v where hm: "handle_message ascii_tables refused_world desk_world (scan_table []) env
      '' /status'' r (quiet_machine, 0) = Some (x, r', v)"
    and re: "replied refused_world (scan_table []) r '' /status'' x" by (elim exE conjE)
  from re cmd obtain out where "x = Ret out" "out \<noteq> []" by (auto simp: replied_def split: outcome.splits)
  with hm boot safe show ?thesis by blast
qed

theorem bot_forgets_its_state_witness:
  "\<exists>j. start_bot_state audit_host (scan_table [(''S'', j)])
       (save_bot_state audit_host (zero_bot\<lparr>bs_known := Some [(''a|low|'', True)]\<rparr>) quiet_machine) =
      \<lparr>bs_last_audit = 0, bs_known = Some [], bs_findings = 0, bs_running = False\<rparr>"
proof -
  let ?b = "zero_bot\<lparr>bs_known := Some [(''a|low|'', True)]\<rparr>"
  have files: "file_law audit_host" by (simp add: audit_host_def file_law_desk)
  obtain j where j: "bot_state_json audit_host ?b = Some j"
    by (simp add: bot_state_json_def time_json_def audit_host_def desk_def)
  have "render_law audit_host (scan_table [(''S'', j)]) j"
    by (simp add: render_law_def scan_table_def audit_host_def desk_def)
  from bot_forgets_its_state [OF files j this] show ?thesis by blast
qed

theorem audit_copies_agree_witness:
  "classify_bot_risk ascii_tables login_finding = ''low'' \<and>
   same_report (find_bot_new_findings [login_finding] (zero_bot\<lparr>bs_known := Some []\<rparr>))
     (find_new_findings [login_finding] (zero_runtime\<lparr>rs_known := Some []\<rparr>)) \<and>
   trigger_bot_executor audit_host plain_process runtime_paths chat_env ascii_tables login_finding quiet_machine =
     snd (trigger_executor audit_host chat_env ascii_tables login_finding
            (zero_runtime\<lparr>rs_known := Some []\<rparr>, quiet_machine))"
proof -
  have low: "classify_risk ascii_tables login_finding = ''low''" by code_simp
  have root: "resolve_root plain_process chat_env = project_dir" by code_simp
  have eq: "bs_known (zero_bot\<lparr>bs_known := Some []\<rparr>) = rs_known (zero_runtime\<lparr>rs_known := Some []\<rparr>)" by simp
  note all = audit_copies_agree [where b = "zero_bot\<lparr>bs_known := Some []\<rparr>" and s = "zero_runtime\<lparr>rs_known := Some []\<rparr>"
      and fs = "[login_finding]" and u = ascii_tables and f = login_finding and H = audit_host
      and P = plain_process and env = chat_env and w = quiet_machine]
  note acts = all [THEN conjunct2, THEN conjunct2, THEN conjunct2, THEN conjunct2, THEN conjunct2,
      THEN conjunct1, THEN mp, OF root]
  have "trigger_bot_executor audit_host plain_process runtime_paths chat_env ascii_tables login_finding
      quiet_machine = snd (trigger_executor audit_host chat_env ascii_tables login_finding
            (zero_runtime\<lparr>rs_known := Some []\<rparr>, quiet_machine))"
    using acts unfolding low by simp
  moreover have "classify_bot_risk ascii_tables login_finding = ''low''" using all low by metis
  ultimately show ?thesis using all eq by blast
qed

section \<open>The state file of the runtime\<close>

lemma bot_reads_names:
  "match_field bot_fields ''last_notification'' = None" "match_field bot_fields ''new_findings_count'' = None"
  "match_field bot_fields ''executor_activity'' = None"
  by code_simp+

text \<open>
  C21. The bot resumes from the file of the runtime: it takes over the time of the last audit, the
  count, whether the audits run, and the table of known findings as a map, so it reports nothing
  the runtime has reported.
\<close>

theorem bot_resumes_from_runtime:
  assumes "file_law H" and "time_law H (rs_last_audit s)" and "state_json H s = Some j"
    and "render_law H L j" and "rs_known s = Some m" and "gomap_ok m"
    and "\<forall>k \<in> fst ` set m. valid_utf8 k" and "0 \<le> rs_findings s \<and> rs_findings s < 2 ^ 63"
  shows "\<exists>m'. start_bot_state H L (save_state H s w) =
      \<lparr>bs_last_audit = rs_last_audit s, bs_known = Some m', bs_findings = rs_findings s,
       bs_running = rs_running s\<rparr> \<and> map_of m' = map_of m \<and>
    (\<forall>fs. generate_finding_hash ` set fs \<subseteq> known_set (rs_known s) \<longrightarrow>
       (\<exists>b. find_bot_new_findings fs (start_bot_state H L (save_state H s w)) = Ret ([], b)))"
proof -
  obtain a where a: "h_time_text H (rs_last_audit s) = Some a" "h_parse_time H a = Some (rs_last_audit s)"
    using assms(2) by (auto simp: time_law_def)
  from bool_map_read_back [OF assms(6,7)] obtain m' where
    m': "dec_bool_map (bool_map_json (Some m)) None = (Some m', False)" "map_of m' = map_of m"
    by (auto simp: dec_bool_map_def bool_map_json_def)
  have "tdec_struct (set_bot_field H) bot_fields j zero_bot =
      (\<lparr>bs_last_audit = rs_last_audit s, bs_known = Some m', bs_findings = rs_findings s,
        bs_running = rs_running s\<rparr>, False, False)"
    using a m' assms(3,5,8) bot_reads_names
    by (auto simp: state_json_def time_json_def tdec_struct_def bot_fields_def set_bot_field_def
        tdec_time_def plain_def parse_int64_show_int zero_bot_def split: option.splits)
  moreover have "h_read H ''/tmp/runtime_state.json'' (save_state H s w) = Inr (h_render H j)"
    using assms(1,3) by (simp add: save_state_def state_file_def file_law_def)
  ultimately have start: "start_bot_state H L (save_state H s w) =
      \<lparr>bs_last_audit = rs_last_audit s, bs_known = Some m', bs_findings = rs_findings s,
       bs_running = rs_running s\<rparr>"
    using assms(4) by (simp add: start_bot_state_def load_bot_state_def tunmarshal_def render_law_def)
  have k: "known_set (Some m') = known_set (rs_known s)"
    by (simp add: known_set_def known_def m'(2) assms(5))
  have "\<exists>b. find_bot_new_findings fs (start_bot_state H L (save_state H s w)) = Ret ([], b)"
    if "generate_finding_hash ` set fs \<subseteq> known_set (rs_known s)" for fs
    using bt.look_reports [of "start_bot_state H L (save_state H s w)" m' fs] that
      fresh_none [of generate_bot_finding_hash fs "known_set (rs_known s)"]
    by (auto simp: start k bot_hash_eq)
  with start m'(2) show ?thesis by blast
qed

theorem bot_resumes_from_runtime_witness:
  "\<exists>m'. start_bot_state audit_host (scan_table [(''S'', the (state_json audit_host stopped_state))])
      (save_state audit_host stopped_state quiet_machine) =
      \<lparr>bs_last_audit = 5, bs_known = Some m', bs_findings = 2, bs_running = False\<rparr> \<and>
    map_of m' = map_of [(''b|low|'', True), (''a|low|'', True)]"
proof -
  let ?L = "scan_table [(''S'', the (state_json audit_host stopped_state))]"
  have files: "file_law audit_host" by (simp add: audit_host_def file_law_desk)
  have "h_time_text audit_host (rs_last_audit stopped_state) = Some ''5''"
    "h_parse_time audit_host ''5'' = Some (rs_last_audit stopped_state)" by code_simp+
  then have time: "time_law audit_host (rs_last_audit stopped_state)" by (auto simp: time_law_def)
  have j: "state_json audit_host stopped_state = Some (the (state_json audit_host stopped_state))" by code_simp
  have law: "render_law audit_host ?L (the (state_json audit_host stopped_state))"
    by (simp add: render_law_def scan_table_def audit_host_def desk_def)
  have m: "rs_known stopped_state = Some [(''b|low|'', True), (''a|low|'', True)]"
    by (simp add: stopped_state_def)
  have ok: "gomap_ok [(''b|low|'', True), (''a|low|'', True)]" by simp
  have utf: "\<forall>k \<in> fst ` set [(''b|low|'', True), (''a|low|'', True)]. valid_utf8 k" by code_simp
  have n: "0 \<le> rs_findings stopped_state \<and> rs_findings stopped_state < 2 ^ 63"
    by (simp add: stopped_state_def)
  have eqs: "rs_last_audit stopped_state = 5" "rs_findings stopped_state = 2" "rs_running stopped_state = False"
    by (simp_all add: stopped_state_def zero_runtime_def)
  show ?thesis
    using bot_resumes_from_runtime [OF files time j law m ok utf n, of quiet_machine] unfolding eqs by blast
qed

end
