(* ===== verification/Spec2Isabelle.thy ===== *)
theory Spec2Isabelle
  imports Lifecycle_Threads Engine_Threads Runtime_Threads Api_Service Service Bot
begin

text \<open>
  A verification development of SMART-WORKER (Go module github.com/aoms/smart-worker): a service that infers
  what a chat message asks for, executes tasks through the OpenHands runtime or GitHub Actions, keeps an
  operational memory behind an HTTP API, and talks to its users and audits its repository through Telegram.

  How the program is put together. A message reaches the bot of \<open>integrations/telegram/cmd/bot\<close>:
  \<open>main.go\<close> answers its commands from the operational memory (\<open>context/memory.go\<close>) and
  gives the rest to \<open>router.go\<close>, which hands it to \<open>internal/intent/lifecycle.go\<close>. The
  lifecycle infers an intent where none is given (the fuller inference is
  \<open>internal/intent/cognition.go\<close>) and runs one handler per kind of intent; the execution and
  investigation handlers call \<open>internal/openhands/client.go\<close>, which starts a task and polls it. The
  alternative executor \<open>internal/workflow/engine.go\<close> dispatches GitHub Actions runs through
  \<open>internal/workflow/dispatcher.go\<close>. Beside its messages the bot runs a copy of the audit loop of
  \<open>integrations/telegram/runtime/main.go\<close>; that program has its own way to OpenHands in
  \<open>runtime/openhands.go\<close>. Apart from these, \<open>cmd/api\<close> serves the memory of
  \<open>internal/memory/postgres.go\<close> and takes GitHub webhooks.

  Theories, in the order of their dependencies.

  Prelude: outcomes (a call returns or panics), error results, byte strings, decimal text, slices, bounded logs
  (locale \<open>bounded_log\<close>), Go maps as association lists, the environment. System: reachable states
  (\<open>reaches\<close>), the locales \<open>preserved\<close> for an invariant, \<open>simulation\<close> for
  a refinement and \<open>threads\<close> for interleaved threads, and \<open>sync.RWMutex\<close>. Go_Strings:
  UTF-8, case mapping, \<open>TrimSpace\<close>, \<open>Fields\<close>, scanning a number. Go_Float: the
  binary32 and binary64 values that occur, as integers in units of the least subnormal. Json: JSON trees and
  decoding into structs. Net: the HTTP transport and the clock as a parameter, and which URLs
  \<open>http.NewRequest\<close> refuses. Poll: durations as text, and the locale \<open>poller\<close> for the
  two polling loops. Host: files, programs, the wall clock and Telegram as a parameter, writing JSON, and
  decoding that a time value may stop.

  Intent (cognition.go): \<open>fallback_analysis\<close>, \<open>infer_with_context\<close>,
  \<open>should_dispatch\<close>; the priority table \<open>intent_spec\<close> is the abstract specification
  the eight loops refine. OpenHands (client.go): \<open>start_execution\<close>,
  \<open>get_execution_status\<close>, \<open>poll_execution\<close>, \<open>dispatch\<close>; the loop is
  interpreted as a \<open>poller\<close>. Lifecycle (lifecycle.go): \<open>execute\<close> and its handlers
  over the record \<open>lifecycle\<close>; the reachable states \<open>lc_reach\<close> and their invariant
  \<open>lc_ok\<close>; the history is interpreted as a \<open>bounded_log\<close>. Lifecycle_Threads: the
  calls of several threads under \<open>lc.mu\<close>, \<open>Execute\<close> in two parts around its
  dispatch, against the atomic machine \<open>lc_calls\<close>. Dispatcher (dispatcher.go): runs in a map,
  \<open>get_run_status\<close>, \<open>poll_run\<close>; reachability \<open>d_reach\<close>. Engine
  (engine.go): active and completed tasks, \<open>handle_intent\<close>; reachability \<open>en_reach\<close>,
  the history again a \<open>bounded_log\<close>. Registry: what the engine promises, a machine of the runs
  dispatched and not stopped over calls and answers: \<open>rg_serves\<close> says which answer a call may
  have and what becomes of the registry then, \<open>rg_step\<close> keeps the record, which determines the
  registry; the engine (\<open>en_serves\<close>) refines it. Engine_Threads: the engine between its critical
  sections, with tasks as objects in a store; with the record of what took effect (\<open>noted_pool\<close>)
  it refines the same machine. Memory (postgres.go, types.go): the repository over the database parameter
  \<open>store\<close>. Memory_Tables: the repository over the tables of \<open>src/migrations\<close>, with
  the statements of several creations interleaved. Config (config, logger, embeddings). Api (handlers.go):
  every handler, the context loop, the webhook. Api_Service: the routes over the handlers,
  \<open>serve\<close>, and the set of documents a sequence of requests refines. Service (database.go,
  cmd/api/main.go): the connection and how the service is put together.

  Findings: what the two audit programs share, and the locale \<open>finding_tracker\<close>, which states what
  a tracker of findings promises against the reference \<open>fresh\<close>. Runtime (runtime/main.go): the
  record \<open>runtime_state\<close>, \<open>run_scheduled_audit\<close>, the risk classes and the executor,
  the state file; its tracker is interpreted as a \<open>finding_tracker\<close>. Runtime_Threads: several
  audits at once, the look-up and the storing of a hash as two critical sections. Bridge (runtime/openhands.go):
  \<open>br_execute\<close> and the readiness check. OpMemory (context/memory.go):
  \<open>load_from_disk\<close>. Router (router.go): \<open>route_message\<close> over the record
  \<open>router\<close>, and the agent handlers. BotEnv and Bot (cmd/bot/main.go): paths and environment file;
  messages and commands, the second copy of the audit with its own interpretation of
  \<open>finding_tracker\<close>, the start-up \<open>boot\<close> and the runs \<open>bot_reach\<close>, whose
  steps are ticks, updates and changes of the world.

  Conventions. A definition has the name of the function it models in lower case with underscores, with a prefix
  (\<open>lc_\<close>, \<open>d_\<close>, \<open>en_\<close>, \<open>br_\<close>, \<open>bot_\<close>) where two
  components use one name. State is passed explicitly: a computation takes the component's record and the world
  \<open>'w\<close> and returns them. A result pair of Go is a sum with the error text on the left; a panic is
  the outcome \<open>Panic\<close>. A loop that may not end is a \<open>partial_function (option)\<close>, and
  that it returns is a theorem (\<open>dispatch_terminates\<close>, \<open>poll_execution_bounded\<close>,
  \<open>dispatch_and_wait_times_out\<close>); the bound on its rounds, \<open>poll_rounds\<close>, is the
  number of intervals that start before the deadline, enough because every round sleeps for an interval and the
  clock does not run backwards. Integers of the sources that only count or measure time are \<open>int\<close>
  or \<open>nat\<close>; where 64 bits matter (numbers read from text) the range is tested.

  What stands for code outside the repository, always as a parameter: the HTTP transport, the clock and the
  URL error text (\<open>net\<close>, with the documented law \<open>clock_ok\<close>), the machine and
  Telegram (\<open>host\<close>, with the laws \<open>file_law\<close>, \<open>render_law\<close> and
  \<open>time_law\<close> where a theorem needs them), the JSON scanner (\<open>json_lib\<close>), the tables
  of package unicode (\<open>unicode_tables\<close>), the database (\<open>store\<close>, with the law
  \<open>pdr_table_law\<close> and, of the tables of the migrations, \<open>documents\<close> and
  \<open>array_column\<close> where a theorem needs them; \<open>documents\<close> says what a statement that
  succeeds does to the table and what one that fails leaves, not that any succeeds, while
  \<open>pdr_table_law\<close> is ideal in that its listing always answers and its rows have a time; and
  \<open>written\<close> in Api_Service; opening and pinging it in Service), \<open>strconv.ParseFloat\<close>
  and \<open>time.Parse\<close>.

  What the theorems show. Intent: the analysis decides as its table, a negated message never executes, a
  dispatch is safe, and what the substring patterns and the single spelling of the negation let through.
  OpenHands: a dispatch ends after boundedly many polls, with an error or a final result, or with the one
  panic of the client (\<open>slice_panic\<close>), which takes a titled conversation whose identifier has
  fewer than eight bytes; a readable conversation is taken for a completed one. Lifecycle: no channel is
  closed twice in any reachable state, the history is bounded, a running task excludes others, and how a task
  nobody runs any more can stay the running one, refusing every execution, until somebody stops it;
  interleaved calls are atomic and never deadlock, but a dispatch keeps the lock, so nothing stops it and
  nobody sees it running. Dispatcher and Engine: the maps keep their shape in every reachable state, the
  status of a run is never read, so waiting always times out, and cancelling forgets nothing; the engine
  serves what its registry serves, with the same answers, as whole calls and interleaved, and a stop misses
  the run that is being dispatched. Memory and Api: the order and bound of a search, what can be created and
  listed again, the bounds and the order of the contexts; a stored title is refused under every interleaving
  as long as the search for it answers, a search that fails lets it through, and two requests at once can both
  create a new one; over the tables of the migrations no decision can be created, and the webhook stores
  nothing at all; whatever is served, the table keeps its documents, holds every acknowledged one and nothing
  that was not posted. Service: it starts without a database and then panics on requests. Runtime: no finding
  is reported twice, a settled audit is quiet, which findings run the executor, the state is read back; audits
  at once miss nothing but may report a finding twice. Bot: a run is safe in every reachable state and every
  message is answered, but for the client's one panic; the copies of the audit do the same up to their reports
  and what they save; the runtime's state is taken over but the bot's own is lost. Router: every message is
  answered, with the same exception, the answers are well typed, and no conversation stops a running task.
  BotEnv: the environment file never overrides the environment, and how a self-reference is taken literally.
  Bridge: executions come to an answer, with the same exception, and what an unauthorized bridge refuses.
  OpMemory: the memory never says stopped again.

  Not modelled: log output other than the service's; \<open>http.ListenAndServe\<close> and the long poll of
  the Telegram library; the types of a conversation in internal/memory/types.go, which no operation uses;
  \<open>loadEnv\<close> of the runtime, which only logs; interleavings inside an operation other than in the
  four thread theories (a status request of the dispatcher, a handler of the API other than a creation and an
  audit of the bot are one step each), and data races on a single field. The Go toolchain vendored under
  \<open>.go\<close>, the shell scripts of the agents and the documents are not the program's own Go code. The
  sources do not compile as committed (a missing brace, mismatched types, names of another package); each
  theory says how it reads them.
\<close>

end
